(* ===== verification/Prelude.thy ===== *)
theory Prelude
  imports Main "HOL-Library.Word" "HOL-Library.Monad_Syntax"
begin

text \<open>
  Shared vocabulary of the development: bytes, slices and indexing of Go, and big-endian
  integers. A Go function that can only return or panic is a HOL function into an option type,
  where \<^term>\<open>None\<close> is the panic; the code with effects is in the monad of theory GoMonad.
\<close>

unbundle bit_operations_syntax

named_theorems slice_simps \<open>evaluation of slice, index and copy expressions\<close>

type_synonym byte = "8 word"
type_synonym bytes = "byte list"

subsection \<open>Slices\<close>

text \<open>
  \<^verbatim>\<open>xs[lo:hi]\<close>, \<^verbatim>\<open>xs[i]\<close>, \<^verbatim>\<open>xs[i] = v\<close> and \<^verbatim>\<open>copy(xs[lo:hi], src)\<close>: each panics when an
  index is out of range, and copy moves as many bytes as the shorter of the two has.
\<close>

definition slice :: "nat \<Rightarrow> nat \<Rightarrow> 'a list \<Rightarrow> 'a list option" where
  "slice lo hi xs = (if lo \<le> hi \<and> hi \<le> length xs then Some (take (hi - lo) (drop lo xs)) else None)"

definition index :: "'a list \<Rightarrow> nat \<Rightarrow> 'a option" where
  "index xs i = (if i < length xs then Some (xs ! i) else None)"

definition set_index :: "nat \<Rightarrow> 'a \<Rightarrow> 'a list \<Rightarrow> 'a list option" where
  "set_index i v xs = (if i < length xs then Some (xs[i := v]) else None)"

definition copy_to :: "nat \<Rightarrow> nat \<Rightarrow> 'a list \<Rightarrow> 'a list \<Rightarrow> 'a list option" where
  "copy_to lo hi src xs =
     (if lo \<le> hi \<and> hi \<le> length xs
      then Some (take lo xs @ take (hi - lo) src @ drop (lo + min (hi - lo) (length src)) xs)
      else None)"

lemma slice_Some_iff: "slice lo hi xs = Some ys \<longleftrightarrow>
    lo \<le> hi \<and> hi \<le> length xs \<and> ys = take (hi - lo) (drop lo xs)"
  by (auto simp: slice_def)

lemma slice_length: "slice lo hi xs = Some ys \<Longrightarrow> length ys = hi - lo"
  by (auto simp: slice_Some_iff)

lemma slice_in_range [slice_simps]:
  "lo \<le> hi \<Longrightarrow> hi \<le> length xs \<Longrightarrow> slice lo hi xs = Some (take (hi - lo) (drop lo xs))"
  by (simp add: slice_def)

lemma index_in_range [slice_simps]: "i < length xs \<Longrightarrow> index xs i = Some (xs ! i)"
  by (simp add: index_def)

lemma set_index_in_range [slice_simps]: "i < length xs \<Longrightarrow> set_index i v xs = Some (xs[i := v])"
  by (simp add: set_index_def)

lemma copy_to_in_range [slice_simps]: "lo \<le> hi \<Longrightarrow> hi \<le> length xs \<Longrightarrow>
    copy_to lo hi src xs = Some (take lo xs @ take (hi - lo) src @ drop (lo + min (hi - lo) (length src)) xs)"
  by (simp add: copy_to_def)

lemma copy_to_length: "copy_to lo hi src xs = Some ys \<Longrightarrow> length ys = length xs"
  by (auto simp: copy_to_def split: if_splits)

lemma set_index_length: "set_index i v xs = Some ys \<Longrightarrow> length ys = length xs"
  by (auto simp: set_index_def split: if_splits)

lemma copy_to_defined: "lo \<le> hi \<Longrightarrow> hi \<le> length xs \<Longrightarrow> \<exists>ys. copy_to lo hi src xs = Some ys \<and> length ys = length xs"
  by (auto simp: copy_to_def)

text \<open>What is read back from the window that was written, and from a window that was not.\<close>

lemma slice_copy_to_same:
  assumes "copy_to lo hi src xs = Some ys" and "length src = hi - lo"
  shows "slice lo hi ys = Some src"
  using assms by (auto simp: copy_to_def slice_def split: if_splits)

lemma nth_copy_to_other:
  assumes "copy_to lo hi src xs = Some ys" and "i < lo \<or> hi \<le> i" and "i < length xs"
  shows "ys ! i = xs ! i"
proof -
  from assms(1) have r: "lo \<le> hi" "hi \<le> length xs"
    and ys: "ys = take lo xs @ take (hi - lo) src @ drop (lo + min (hi - lo) (length src)) xs"
    by (auto simp: copy_to_def split: if_splits)
  from assms(2) show ?thesis
  proof
    assume "i < lo"
    with r ys show ?thesis by (simp add: nth_append)
  next
    assume "hi \<le> i"
    with r have "\<not> i < lo" and "\<not> i - lo < length (take (hi - lo) src)" by auto
    with r ys \<open>hi \<le> i\<close> assms(3) show ?thesis
      by (auto simp: nth_append min_def)
  qed
qed

lemma slice_cong_nth:
  assumes "length ys = length xs" and "\<And>i. lo \<le> i \<Longrightarrow> i < hi \<Longrightarrow> i < length xs \<Longrightarrow> ys ! i = xs ! i"
  shows "slice lo hi ys = slice lo hi xs"
  using assms by (auto simp: slice_def intro!: nth_equalityI)

lemma slice_copy_to_other:
  assumes c: "copy_to lo hi src xs = Some ys" and d: "hi' \<le> lo \<or> hi \<le> lo'"
  shows "slice lo' hi' ys = slice lo' hi' xs"
proof (rule slice_cong_nth)
  show "length ys = length xs" by (rule copy_to_length [OF c])
  fix i assume "lo' \<le> i" and "i < hi'" and "i < length xs"
  with d show "ys ! i = xs ! i" by (intro nth_copy_to_other [OF c]) auto
qed

lemma slice_set_index_other:
  assumes c: "set_index i v xs = Some ys" and d: "i < lo \<or> hi \<le> i"
  shows "slice lo hi ys = slice lo hi xs"
  using assms by (intro slice_cong_nth) (auto simp: set_index_def split: if_splits)

lemma copy_to_window:
  assumes "length pre = lo" and "length win = hi - lo" and "lo \<le> hi"
  shows "copy_to lo hi src (pre @ win @ post) =
     Some (pre @ (take (hi - lo) src @ drop (length src) win) @ post)"
proof -
  have "hi \<le> length (pre @ win @ post)" using assms by simp
  moreover have "drop (min (hi - lo) (length src)) (win @ post) = drop (length src) win @ post"
    using assms by (auto simp: min_def)
  ultimately show ?thesis using assms by (simp add: copy_to_def)
qed

subsection \<open>Big-endian integers (encoding/binary)\<close>

definition PutUint16 :: "16 word \<Rightarrow> bytes" where
  "PutUint16 v = [ucast (drop_bit 8 v), ucast v]"

definition PutUint32 :: "32 word \<Rightarrow> bytes" where
  "PutUint32 v = [ucast (drop_bit 24 v), ucast (drop_bit 16 v), ucast (drop_bit 8 v), ucast v]"

definition Uint16 :: "bytes \<Rightarrow> 16 word option" where
  "Uint16 b = (case b of b0 # b1 # _ \<Rightarrow> Some (ucast b1 OR push_bit 8 (ucast b0)) | _ \<Rightarrow> None)"

definition Uint32 :: "bytes \<Rightarrow> 32 word option" where
  "Uint32 b = (case b of b0 # b1 # b2 # b3 # _ \<Rightarrow>
       Some (ucast b3 OR push_bit 8 (ucast b2) OR push_bit 16 (ucast b1) OR push_bit 24 (ucast b0))
     | _ \<Rightarrow> None)"

lemma length_PutUint16 [simp]: "length (PutUint16 v) = 2"
  by (simp add: PutUint16_def)

lemma length_PutUint32 [simp]: "length (PutUint32 v) = 4"
  by (simp add: PutUint32_def)

lemma Uint16_PutUint16 [simp]: "Uint16 (PutUint16 v @ rest) = Some v"
proof -
  have "ucast (ucast v :: byte) OR push_bit 8 (ucast (ucast (drop_bit 8 v) :: byte)) = v"
    by (rule bit_word_eqI)
      (auto simp: bit_or_iff bit_push_bit_iff bit_drop_bit_eq bit_ucast_iff)
  then show ?thesis by (simp add: Uint16_def PutUint16_def)
qed

lemma Uint32_PutUint32 [simp]: "Uint32 (PutUint32 v @ rest) = Some v"
proof -
  have "ucast (ucast v :: byte) OR push_bit 8 (ucast (ucast (drop_bit 8 v) :: byte))
      OR push_bit 16 (ucast (ucast (drop_bit 16 v) :: byte))
      OR push_bit 24 (ucast (ucast (drop_bit 24 v) :: byte)) = v"
  proof (rule bit_word_eqI)
    fix n assume "n < LENGTH(32)"
    then consider "n < 8" | "8 \<le> n" "n < 16" | "16 \<le> n" "n < 24" | "24 \<le> n" "n < 32"
      by force
    then show "bit (ucast (ucast v :: byte) OR push_bit 8 (ucast (ucast (drop_bit 8 v) :: byte))
      OR push_bit 16 (ucast (ucast (drop_bit 16 v) :: byte))
      OR push_bit 24 (ucast (ucast (drop_bit 24 v) :: byte)) :: 32 word) n = bit v n"
      by cases (auto simp: bit_or_iff bit_push_bit_iff bit_drop_bit_eq bit_ucast_iff)
  qed
  then show ?thesis by (simp add: Uint32_def PutUint32_def)
qed

lemma Uint32_PutUint32_id [simp]: "Uint32 (PutUint32 v) = Some v"
  using Uint32_PutUint32 [of v "[]"] by simp

lemma Uint32_Some_iff: "Uint32 b = Some v \<longleftrightarrow> (\<exists>rest. b = PutUint32 v @ rest)"
proof
  assume "Uint32 b = Some v"
  then obtain b0 b1 b2 b3 rest where b: "b = b0 # b1 # b2 # b3 # rest"
    and v: "v = ucast b3 OR push_bit 8 (ucast b2) OR push_bit 16 (ucast b1) OR push_bit 24 (ucast b0)"
    by (auto simp: Uint32_def split: list.splits)
  have "b = PutUint32 v @ rest"
    unfolding b v PutUint32_def
    by (auto intro!: bit_word_eqI
        simp: bit_or_iff bit_push_bit_iff bit_drop_bit_eq bit_ucast_iff not_le)
      (auto dest: bit_imp_le_length)
  then show "\<exists>rest. b = PutUint32 v @ rest" by blast
qed auto

lemma PutUint32_inject [simp]: "PutUint32 v = PutUint32 w \<longleftrightarrow> v = w"
  by (metis Uint32_PutUint32_id option.inject)

lemma unat_drop_bit: "unat (drop_bit k v) = unat v div 2 ^ k"
  by (simp add: drop_bit_eq_div unat_drop_bit_eq flip: drop_bit_eq_div)

lemma unat_ucast_byte: "unat (ucast v :: byte) = unat (v :: 32 word) mod 256"
  by (simp add: unsigned_ucast_eq take_bit_eq_mod)

lemma PutUint32_unat:
  "map unat (PutUint32 v) = [unat v div 2 ^ 24 mod 256, unat v div 2 ^ 16 mod 256, unat v div 2 ^ 8 mod 256, unat v mod 256]"
  by (simp add: PutUint32_def unat_ucast_byte unat_drop_bit)

lemma be_digits:
  "(n :: nat) = ((n div 2 ^ 24 * 256 + n div 2 ^ 16 mod 256) * 256 + n div 2 ^ 8 mod 256) * 256 + n mod 256"
proof -
  have "n div 2 ^ 16 = n div 2 ^ 8 div 256" "n div 2 ^ 24 = n div 2 ^ 16 div 256"
    by (simp_all flip: div_mult2_eq)
  then show ?thesis by (simp add: div_mult_mod_eq)
qed

lemma PutUint32_zero_iff: "PutUint32 v = [0, 0, 0, 0] \<longleftrightarrow> v = 0"
proof -
  have "PutUint32 0 = [0, 0, 0, 0]" by (simp add: PutUint32_def)
  then show ?thesis by (metis PutUint32_inject)
qed

lemma PutUint32_nonempty [simp]: "PutUint32 v \<noteq> []"
  by (simp add: PutUint32_def)

end
