(* ===== verification/GoStd.thy ===== *)
theory GoStd
  imports Prelude
begin

text \<open>
  The functions of Go's strings and strconv packages that the program calls, as HOL functions
  on byte strings. Integers of type \<^verbatim>\<open>int\<close> are the 64-bit ones.
\<close>

subsection \<open>strconv\<close>

definition digit_char :: "nat \<Rightarrow> char" where
  "digit_char d = char_of (48 + d)"

fun dec_of_nat :: "nat \<Rightarrow> string" where
  "dec_of_nat n = (if n < 10 then [digit_char n] else dec_of_nat (n div 10) @ [digit_char (n mod 10)])"

declare dec_of_nat.simps [simp del]

definition Itoa :: "int \<Rightarrow> string" where
  "Itoa i = (if i < 0 then CHR ''-'' # dec_of_nat (nat (- i)) else dec_of_nat (nat i))"

definition is_digit :: "char \<Rightarrow> bool" where
  "is_digit c \<longleftrightarrow> 48 \<le> (of_char c :: nat) \<and> (of_char c :: nat) \<le> 57"

definition digit_val :: "char \<Rightarrow> nat" where
  "digit_val c = of_char c - 48"

datatype num_error = ErrSyntax | ErrRange

definition max_uint64 :: nat where
  "max_uint64 = 2 ^ 64 - 1"

text \<open>
  The digit loop of ParseUint in base 10: the value and the error. The range error is raised at
  the digit that overflows, whatever follows it.
\<close>

fun parse_digits :: "nat \<Rightarrow> string \<Rightarrow> nat \<times> num_error option" where
  "parse_digits n [] = (n, None)"
| "parse_digits n (c # cs) =
     (if \<not> is_digit c then (0, Some ErrSyntax)
      else if max_uint64 < 10 * n + digit_val c then (max_uint64, Some ErrRange)
      else parse_digits (10 * n + digit_val c) cs)"

definition ParseUint :: "string \<Rightarrow> nat \<times> num_error option" where
  "ParseUint s = (if s = [] then (0, Some ErrSyntax) else parse_digits 0 s)"

definition Atoi :: "string \<Rightarrow> int \<times> num_error option" where
  "Atoi s =
     (if s = [] then (0, Some ErrSyntax)
      else let neg = (hd s = CHR ''-'');
               body = (if hd s = CHR ''+'' \<or> hd s = CHR ''-'' then tl s else s);
               (un, err) = ParseUint body
           in if err = Some ErrSyntax then (0, err)
              else if \<not> neg \<and> 2 ^ 63 \<le> un then (2 ^ 63 - 1, Some ErrRange)
              else if neg \<and> 2 ^ 63 < un then (- (2 ^ 63), Some ErrRange)
              else (if neg then - int un else int un, None))"

lemma digit_char_props [simp]:
  assumes "d < 10"
  shows "is_digit (digit_char d)" and "digit_val (digit_char d) = d"
  using assms by (auto simp: is_digit_def digit_val_def digit_char_def)

lemma dec_of_nat_digits: "\<forall>c \<in> set (dec_of_nat n). is_digit c"
proof (induction n rule: dec_of_nat.induct)
  case (1 n)
  then show ?case by (cases "n < 10") (auto simp: dec_of_nat.simps [of n])
qed

lemma dec_of_nat_nonempty [simp]: "dec_of_nat n \<noteq> []"
  by (subst dec_of_nat.simps) simp

lemma parse_digits_append:
  "parse_digits n (xs @ ys) =
     (case parse_digits n xs of (m, None) \<Rightarrow> parse_digits m ys | r \<Rightarrow> r)"
  by (induction n xs rule: parse_digits.induct) auto

lemma parse_digits_dec_of_nat:
  "n \<le> max_uint64 \<Longrightarrow> parse_digits 0 (dec_of_nat n) = (n, None)"
proof (induction n rule: dec_of_nat.induct)
  case (1 n)
  show ?case
  proof (cases "n < 10")
    case True
    with 1 show ?thesis by (simp add: dec_of_nat.simps [of n])
  next
    case False
    with 1 have IH: "parse_digits 0 (dec_of_nat (n div 10)) = (n div 10, None)"
      by (simp add: div_le_dividend le_trans [of "n div 10" n max_uint64])
    with False 1 show ?thesis
      by (simp add: dec_of_nat.simps [of n] parse_digits_append)
  qed
qed

lemma digit_not_sign: "is_digit c \<Longrightarrow> c \<noteq> CHR ''+'' \<and> c \<noteq> CHR ''-''"
  by (auto simp: is_digit_def)

text \<open>Printing and reading back a machine integer is the identity.\<close>

lemma Atoi_Itoa: "- (2 ^ 63) \<le> i \<Longrightarrow> i < 2 ^ 63 \<Longrightarrow> Atoi (Itoa i) = (i, None)"
proof (cases "i < 0")
  case True
  assume "- (2 ^ 63) \<le> i"
  with True show ?thesis
    by (simp add: Itoa_def Atoi_def ParseUint_def parse_digits_dec_of_nat max_uint64_def nat_le_iff)
next
  case False
  assume "i < 2 ^ 63"
  obtain c cs where d: "dec_of_nat (nat i) = c # cs" and "is_digit c"
    using dec_of_nat_digits [of "nat i"] dec_of_nat_nonempty [of "nat i"]
    by (cases "dec_of_nat (nat i)") auto
  then have "c \<noteq> CHR ''+''" "c \<noteq> CHR ''-''" by (auto dest: digit_not_sign)
  moreover have "parse_digits 0 (c # cs) = (nat i, None)"
    using parse_digits_dec_of_nat [of "nat i"] d \<open>i < 2 ^ 63\<close> by (simp add: max_uint64_def)
  ultimately show ?thesis
    using False \<open>i < 2 ^ 63\<close>
    by (simp add: Itoa_def Atoi_def ParseUint_def d del: parse_digits.simps)
qed

subsection \<open>strings\<close>

definition HasPrefix :: "string \<Rightarrow> string \<Rightarrow> bool" where
  "HasPrefix s pre \<longleftrightarrow> take (length pre) s = pre"

fun Contains :: "string \<Rightarrow> string \<Rightarrow> bool" where
  "Contains [] sub = (sub = [])"
| "Contains (c # cs) sub = (HasPrefix (c # cs) sub \<or> Contains cs sub)"

text \<open>Split on a single byte, and the index of a byte.\<close>

fun SplitByte :: "char \<Rightarrow> string \<Rightarrow> string list" where
  "SplitByte sep [] = [[]]"
| "SplitByte sep (c # cs) =
     (if c = sep then [] # SplitByte sep cs
      else case SplitByte sep cs of [] \<Rightarrow> [[c]] | f # fs \<Rightarrow> (c # f) # fs)"

fun IndexByte :: "string \<Rightarrow> char \<Rightarrow> nat option" where
  "IndexByte [] b = None"
| "IndexByte (c # cs) b = (if c = b then Some 0 else map_option Suc (IndexByte cs b))"

fun Join :: "string list \<Rightarrow> string \<Rightarrow> string" where
  "Join [] sep = []"
| "Join [x] sep = x"
| "Join (x # xs) sep = x @ sep @ Join xs sep"

definition is_space :: "char \<Rightarrow> bool" where
  "is_space c \<longleftrightarrow> c = CHR '' '' \<or> (9 \<le> (of_char c :: nat) \<and> (of_char c :: nat) \<le> 13)"

function Fields :: "string \<Rightarrow> string list" where
  "Fields [] = []"
| "Fields (c # cs) =
     (if is_space c then Fields cs
      else (c # takeWhile (\<lambda>x. \<not> is_space x) cs) # Fields (dropWhile (\<lambda>x. \<not> is_space x) cs))"
  by pat_completeness auto
termination
  by (relation "measure length") (auto simp: length_dropWhile_le less_Suc_eq_le)

definition TrimSpace :: "string \<Rightarrow> string" where
  "TrimSpace s = rev (dropWhile is_space (rev (dropWhile is_space s)))"

lemma HasPrefix_append [simp]: "HasPrefix (pre @ s) pre"
  by (simp add: HasPrefix_def)

lemma HasPrefix_iff: "HasPrefix s pre \<longleftrightarrow> (\<exists>t. s = pre @ t)"
  by (auto simp: HasPrefix_def) (metis append_take_drop_id)

lemma Contains_iff: "Contains s sub \<longleftrightarrow> (\<exists>a b. s = a @ sub @ b)"
proof (induction s)
  case (Cons c cs)
  have "(\<exists>a b. c # cs = a @ sub @ b) \<longleftrightarrow> (\<exists>b. c # cs = sub @ b) \<or> (\<exists>a b. cs = a @ sub @ b)"
    (is "?l \<longleftrightarrow> ?r")
  proof
    assume ?l
    then obtain a b where ab: "c # cs = a @ sub @ b" by blast
    show ?r
    proof (cases a)
      case Nil with ab show ?thesis by auto
    next
      case (Cons x xs) with ab show ?thesis by auto
    qed
  next
    assume ?r
    then show ?l
    proof
      assume "\<exists>b. c # cs = sub @ b" then show ?l by (metis append_Nil)
    next
      assume "\<exists>a b. cs = a @ sub @ b" then show ?l by (metis append_Cons)
    qed
  qed
  with Cons show ?case by (simp add: HasPrefix_iff)
qed auto

lemma SplitByte_nonempty [simp]: "SplitByte sep s \<noteq> []"
  by (induction s) (auto split: list.splits)

lemma SplitByte_no_sep: "sep \<notin> set s \<Longrightarrow> SplitByte sep s = [s]"
  by (induction s) auto

lemma SplitByte_append_sep: "SplitByte sep (s @ sep # t) = SplitByte sep s @ SplitByte sep t"
  by (induction s) (auto split: list.splits)

lemma SplitByte_fields: "f \<in> set (SplitByte sep s) \<Longrightarrow> sep \<notin> set f"
  by (induction s arbitrary: f) (auto split: list.splits if_splits)

text \<open>Splitting is inverse to joining: the fields, joined with the separator, give the string back.\<close>

lemma Join_Cons: "xs \<noteq> [] \<Longrightarrow> Join (x # xs) sep = x @ sep @ Join xs sep"
  by (cases xs) auto

lemma Join_SplitByte: "Join (SplitByte sep s) [sep] = s"
proof (induction s)
  case (Cons c cs)
  obtain f fs where "SplitByte sep cs = f # fs" by (cases "SplitByte sep cs") auto
  with Cons show ?case by (cases fs) (auto simp: Join_Cons)
qed simp

lemma IndexByte_Some: "IndexByte s b = Some i \<Longrightarrow> s = take i s @ b # drop (Suc i) s \<and> b \<notin> set (take i s)"
  by (induction s arbitrary: i) (auto split: if_splits)

lemma IndexByte_append: "b \<notin> set k \<Longrightarrow> IndexByte (k @ b # v) b = Some (length k)"
  by (induction k) auto

lemma IndexByte_None: "IndexByte s b = None \<longleftrightarrow> b \<notin> set s"
  by (induction s) auto

end
