(* ===== verification/GoNet.thy ===== *)
theory GoNet
  imports GoStd
begin

text \<open>
  The part of Go's net package the program uses: IP addresses (4 or 16 bytes, the empty list
  for nil), their comparison, printing and parsing, hardware addresses, masks and networks.
\<close>

type_synonym IP = bytes
type_synonym HardwareAddr = bytes

subsection \<open>Addresses\<close>

definition v4InV6Prefix :: bytes where
  "v4InV6Prefix = replicate 10 0 @ [255, 255]"

definition IPv4 :: "byte \<Rightarrow> byte \<Rightarrow> byte \<Rightarrow> byte \<Rightarrow> IP" where
  "IPv4 a b c d = v4InV6Prefix @ [a, b, c, d]"

definition IPv4zero :: IP where "IPv4zero = IPv4 0 0 0 0"

definition IPv4bcast :: IP where "IPv4bcast = IPv4 255 255 255 255"

definition To4 :: "IP \<Rightarrow> IP" where
  "To4 ip =
     (if length ip = 4 then ip
      else if length ip = 16 \<and> take 12 ip = v4InV6Prefix then drop 12 ip
      else [])"

definition IP_Equal :: "IP \<Rightarrow> IP \<Rightarrow> bool" where
  "IP_Equal ip x =
     (if length ip = length x then ip = x
      else if length ip = 4 \<and> length x = 16 then take 12 x = v4InV6Prefix \<and> ip = drop 12 x
      else if length ip = 16 \<and> length x = 4 then take 12 ip = v4InV6Prefix \<and> drop 12 ip = x
      else False)"

lemma length_To4: "length (To4 ip) = 4 \<or> To4 ip = []"
  by (auto simp: To4_def)

lemma To4_4 [simp]: "length ip = 4 \<Longrightarrow> To4 ip = ip"
  by (simp add: To4_def)

lemma To4_PutUint32 [simp]: "To4 (PutUint32 v) = PutUint32 v"
  by simp

lemma To4_To4 [simp]: "To4 (To4 ip) = To4 ip"
  by (auto simp: To4_def)

lemma To4_IPv4 [simp]: "To4 (IPv4 a b c d) = [a, b, c, d]"
  by (simp add: To4_def IPv4_def v4InV6Prefix_def)

lemma To4_mapped [simp]: "length p = 4 \<Longrightarrow> To4 (v4InV6Prefix @ p) = p"
  by (simp add: To4_def v4InV6Prefix_def)

lemma IP_Equal_refl [simp]: "IP_Equal ip ip"
  by (simp add: IP_Equal_def)

lemma IP_Equal_sym: "IP_Equal a b \<Longrightarrow> IP_Equal b a"
  by (auto simp: IP_Equal_def split: if_splits)

lemma IP_Equal_same_length: "length a = length b \<Longrightarrow> IP_Equal a b \<longleftrightarrow> a = b"
  by (simp add: IP_Equal_def)

text \<open>Equality of addresses of either form is equality of their four bytes, where they have them.\<close>

lemma IP_Equal_To4:
  assumes "To4 a \<noteq> []" and "To4 b \<noteq> []"
  shows "IP_Equal a b \<longleftrightarrow> To4 a = To4 b"
proof -
  have split16: "x = y" if "length x = 16" "length y = 16" "take 12 x = v4InV6Prefix"
    "take 12 y = v4InV6Prefix" "drop 12 x = drop 12 y" for x y :: bytes
    using that by (metis append_take_drop_id)
  from assms show ?thesis
    by (auto simp: To4_def IP_Equal_def split: if_splits intro: split16)
qed

subsection \<open>Printing\<close>

definition hex_char :: "nat \<Rightarrow> char" where
  "hex_char n = (if n < 10 then char_of (48 + n) else char_of (87 + n))"

definition hex2 :: "byte \<Rightarrow> string" where
  "hex2 b = [hex_char (unat b div 16), hex_char (unat b mod 16)]"

fun HardwareAddr_String :: "HardwareAddr \<Rightarrow> string" where
  "HardwareAddr_String [] = []"
| "HardwareAddr_String [b] = hex2 b"
| "HardwareAddr_String (b # bs) = hex2 b @ '':'' @ HardwareAddr_String bs"

lemma hex_char_inject: "m < 16 \<Longrightarrow> n < 16 \<Longrightarrow> hex_char m = hex_char n \<longleftrightarrow> m = n"
  by (auto simp: hex_char_def char_of_eq_iff bit_0 take_bit_eq_mod split: if_splits)

lemma hex2_inject: "hex2 a = hex2 b \<longleftrightarrow> a = b"
proof
  assume "hex2 a = hex2 b"
  moreover have "unat a div 16 < 16" "unat b div 16 < 16"
    using unsigned_less [of a, where ?'a = nat] unsigned_less [of b, where ?'a = nat] by auto
  ultimately have "unat a div 16 = unat b div 16" "unat a mod 16 = unat b mod 16"
    by (auto simp: hex2_def hex_char_inject)
  then have "unat a = unat b" by (metis div_mult_mod_eq)
  then show "a = b" by (simp add: unsigned_word_eqI)
qed simp

lemma length_hex2 [simp]: "length (hex2 b) = 2"
  by (simp add: hex2_def)

lemma HardwareAddr_String_Cons:
  "HardwareAddr_String (b # bs) = hex2 b @ (if bs = [] then [] else '':'' @ HardwareAddr_String bs)"
  by (cases bs) auto

text \<open>Two hardware addresses print alike only if they are the same: the lease table's key is exact.\<close>

lemma HardwareAddr_String_inject: "HardwareAddr_String a = HardwareAddr_String b \<longleftrightarrow> a = b"
proof
  show "HardwareAddr_String a = HardwareAddr_String b \<Longrightarrow> a = b"
  proof (induction a arbitrary: b)
    case Nil
    then show ?case by (cases b) (auto simp: HardwareAddr_String_Cons hex2_def)
  next
    case (Cons x xs)
    then obtain y ys where b: "b = y # ys" by (cases b) (auto simp: HardwareAddr_String_Cons hex2_def)
    from Cons.prems have "hex2 x = hex2 y"
      and rest: "(if xs = [] then [] else '':'' @ HardwareAddr_String xs) =
            (if ys = [] then [] else '':'' @ HardwareAddr_String ys)"
      unfolding b HardwareAddr_String_Cons by (simp_all only: append_eq_append_conv length_hex2 simp_thms)
    from rest Cons.IH [of ys] have "xs = ys" by (auto split: if_splits)
    with \<open>hex2 x = hex2 y\<close> b show ?case by (simp add: hex2_inject)
  qed
qed simp

definition ipv4_string :: "bytes \<Rightarrow> string" where
  "ipv4_string p = Join (map (\<lambda>b. dec_of_nat (unat b)) p) ''.''"

fun hex_of_nat :: "nat \<Rightarrow> string" where
  "hex_of_nat n = (if n < 16 then [hex_char n] else hex_of_nat (n div 16) @ [hex_char (n mod 16)])"

declare hex_of_nat.simps [simp del]

definition groups16 :: "bytes \<Rightarrow> nat list" where
  "groups16 p = map (\<lambda>i. unat (p ! (2 * i)) * 256 + unat (p ! (2 * i + 1))) [0..<8]"

text \<open>The start and length of the longest run of zero groups (the first one among equals).\<close>

fun zero_run :: "nat \<Rightarrow> nat list \<Rightarrow> nat \<times> nat \<Rightarrow> nat \<times> nat" where
  "zero_run i [] best = best"
| "zero_run i (g # gs) best =
     (let n = length (takeWhile (\<lambda>x. x = 0) (g # gs))
      in zero_run (Suc i) gs (if snd best < n then (i, n) else best))"

definition ipv6_string :: "bytes \<Rightarrow> string" where
  "ipv6_string p =
     (let gs = groups16 p; (e0, n) = zero_run 0 gs (0, 0)
      in if n < 2 then Join (map hex_of_nat gs) '':''
         else Join (map hex_of_nat (take e0 gs)) '':'' @ ''::'' @
              Join (map hex_of_nat (drop (e0 + n) gs)) '':'')"

definition IP_String :: "IP \<Rightarrow> string" where
  "IP_String p =
     (if p = [] then ''<nil>''
      else if To4 p \<noteq> [] then ipv4_string (To4 p)
      else if length p \<noteq> 16 then CHR ''?'' # concat (map hex2 p)
      else ipv6_string p)"

subsection \<open>Parsing\<close>

text \<open>Decimal and hexadecimal prefix parsers: value, bytes consumed, whether they succeeded.\<close>

fun dtoi_loop :: "nat \<Rightarrow> nat \<Rightarrow> string \<Rightarrow> nat \<times> nat \<times> bool" where
  "dtoi_loop n i [] = (n, i, True)"
| "dtoi_loop n i (c # cs) =
     (if \<not> is_digit c then (n, i, True)
      else if 16777215 \<le> 10 * n + digit_val c then (16777215, i, False)
      else dtoi_loop (10 * n + digit_val c) (Suc i) cs)"

definition dtoi :: "string \<Rightarrow> nat \<times> nat \<times> bool" where
  "dtoi s = (case dtoi_loop 0 0 s of (n, i, ok) \<Rightarrow> if ok \<and> i = 0 then (0, 0, False) else (n, i, ok))"

definition xdigit :: "char \<Rightarrow> nat option" where
  "xdigit c = (let o' = of_char c :: nat in
     if 48 \<le> o' \<and> o' \<le> 57 then Some (o' - 48)
     else if 97 \<le> o' \<and> o' \<le> 102 then Some (o' - 87)
     else if 65 \<le> o' \<and> o' \<le> 70 then Some (o' - 55)
     else None)"

fun xtoi_loop :: "nat \<Rightarrow> nat \<Rightarrow> string \<Rightarrow> nat \<times> nat \<times> bool" where
  "xtoi_loop n i [] = (n, i, True)"
| "xtoi_loop n i (c # cs) =
     (case xdigit c of
        None \<Rightarrow> (n, i, True)
      | Some d \<Rightarrow> if 16777215 \<le> 16 * n + d then (0, i, False) else xtoi_loop (16 * n + d) (Suc i) cs)"

definition xtoi :: "string \<Rightarrow> nat \<times> nat \<times> bool" where
  "xtoi s = (case xtoi_loop 0 0 s of (n, i, ok) \<Rightarrow> if ok \<and> i = 0 then (0, 0, False) else (n, i, ok))"

fun parseIPv4_loop :: "nat \<Rightarrow> bool \<Rightarrow> string \<Rightarrow> (bytes \<times> string) option" where
  "parseIPv4_loop 0 first s = Some ([], s)"
| "parseIPv4_loop (Suc k) first s =
     (if s = [] then None
      else if \<not> first \<and> hd s \<noteq> CHR ''.'' then None
      else let s' = (if first then s else tl s); (n, c, ok) = dtoi s'
           in if \<not> ok \<or> 255 < n then None
              else map_option (\<lambda>(ps, t). (of_nat n # ps, t)) (parseIPv4_loop k False (drop c s')))"

definition parseIPv4 :: "string \<Rightarrow> IP" where
  "parseIPv4 s = (case parseIPv4_loop 4 True s of
      Some ([a, b, c, d], []) \<Rightarrow> IPv4 a b c d
    | _ \<Rightarrow> [])"

text \<open>
  The IPv6 loop: groups still allowed, the bytes so far, where the ellipsis was, the rest of the
  string. The result keeps the unread rest, which must be empty.
\<close>

fun parseIPv6_loop :: "nat \<Rightarrow> bytes \<Rightarrow> nat option \<Rightarrow> string \<Rightarrow> (bytes \<times> nat option \<times> string) option" where
  "parseIPv6_loop 0 acc el s = Some (acc, el, s)"
| "parseIPv6_loop (Suc k) acc el s =
     (let (n, c, ok) = xtoi s in
      if \<not> ok \<or> 65535 < n then None
      else if c < length s \<and> s ! c = CHR ''.'' then
        (if el = None \<and> length acc \<noteq> 12 then None
         else if 16 < length acc + 4 then None
         else if parseIPv4 s = [] then None
         else Some (acc @ drop 12 (parseIPv4 s), el, []))
      else let acc' = acc @ [of_nat (n div 256), of_nat n]; s1 = drop c s in
        if s1 = [] then Some (acc', el, [])
        else if hd s1 \<noteq> CHR '':'' \<or> length s1 = 1 then None
        else let s2 = tl s1 in
          if hd s2 = CHR '':'' then
            (if el \<noteq> None then None
             else if tl s2 = [] then Some (acc', Some (length acc'), [])
             else parseIPv6_loop k acc' (Some (length acc')) (tl s2))
          else parseIPv6_loop k acc' el s2)"

definition parseIPv6 :: "string \<Rightarrow> IP" where
  "parseIPv6 s =
     (let lead = take 2 s = ''::''; s' = (if lead then drop 2 s else s) in
      if lead \<and> s' = [] then replicate 16 0
      else case parseIPv6_loop 8 [] (if lead then Some 0 else None) s' of
          None \<Rightarrow> []
        | Some (acc, el, rest) \<Rightarrow>
            if rest \<noteq> [] then []
            else if length acc < 16 then
              (case el of None \<Rightarrow> []
               | Some e \<Rightarrow> take e acc @ replicate (16 - length acc) 0 @ drop e acc)
            else if el \<noteq> None then [] else acc)"

definition ParseIP :: "string \<Rightarrow> IP" where
  "ParseIP s = (case filter (\<lambda>c. c = CHR ''.'' \<or> c = CHR '':'') s of
      [] \<Rightarrow> []
    | c # _ \<Rightarrow> if c = CHR ''.'' then parseIPv4 s else parseIPv6 s)"

subsection \<open>Networks\<close>

record IPNet =
  net_IP :: IP
  net_Mask :: bytes

definition CIDRMask :: "nat \<Rightarrow> nat \<Rightarrow> bytes" where
  "CIDRMask ones bits = map (\<lambda>i. let k = min 8 (ones - 8 * i) in of_nat (256 - 2 ^ (8 - k))) [0..<bits div 8]"

definition IP_Mask :: "IP \<Rightarrow> bytes \<Rightarrow> IP" where
  "IP_Mask ip m0 =
     (let m = (if length m0 = 16 \<and> length ip = 4 \<and> take 12 m0 = replicate 12 255 then drop 12 m0 else m0);
          ip' = (if length m = 4 \<and> length ip = 16 \<and> take 12 ip = v4InV6Prefix then drop 12 ip else ip)
      in if length ip' \<noteq> length m then [] else map2 (AND) ip' m)"

definition ParseCIDR :: "string \<Rightarrow> (IP \<times> IPNet) option" where
  "ParseCIDR s = (case IndexByte s (CHR ''/'') of
      None \<Rightarrow> None
    | Some i \<Rightarrow>
        let addr = take i s; m0 = drop (Suc i) s; ip4 = parseIPv4 addr;
            iplen = (if ip4 = [] then 16 else 4);
            ip = (if ip4 = [] then parseIPv6 addr else ip4);
            (n, j, ok) = dtoi m0
        in if ip = [] \<or> \<not> ok \<or> j \<noteq> length m0 \<or> 8 * iplen < n then None
           else let m = CIDRMask n (8 * iplen)
                in Some (ip, \<lparr>net_IP = IP_Mask ip m, net_Mask = m\<rparr>))"

text \<open>The prefix length of a mask whose ones precede its zeros, else None.\<close>

fun simpleMaskLength :: "bytes \<Rightarrow> nat option" where
  "simpleMaskLength [] = Some 0"
| "simpleMaskLength (b # bs) =
     (if b = 255 then map_option (\<lambda>n. n + 8) (simpleMaskLength bs)
      else if (\<forall>x \<in> set bs. x = 0)
        then List.find (\<lambda>k. b = of_nat (256 - 2 ^ (8 - k))) [0..<8]
        else None)"

definition IPNet_String :: "IPNet \<Rightarrow> string" where
  "IPNet_String n =
     (let ip = (if To4 (net_IP n) = [] then net_IP n else To4 (net_IP n));
          m = (if length (net_Mask n) = 16 \<and> length ip = 4 then drop 12 (net_Mask n) else net_Mask n)
      in if (length ip \<noteq> 4 \<and> length ip \<noteq> 16) \<or> length m \<noteq> length ip then ''<nil>''
         else case simpleMaskLength m of
             None \<Rightarrow> IP_String ip @ ''/'' @ concat (map hex2 m)
           | Some l \<Rightarrow> IP_String ip @ ''/'' @ dec_of_nat l)"

subsection \<open>Reading back what was printed\<close>

lemma dtoi_loop_append:
  "dtoi_loop n i (xs @ ys) =
     (case dtoi_loop n i xs of (m, j, ok) \<Rightarrow>
        if ok \<and> j = i + length xs then dtoi_loop m j ys else (m, j, ok))"
  by (induction n i xs rule: dtoi_loop.induct) (auto split: prod.splits)

lemma dtoi_loop_dec:
  "n < 16777215 \<Longrightarrow> dtoi_loop 0 0 (dec_of_nat n) = (n, length (dec_of_nat n), True)"
proof (induction n rule: dec_of_nat.induct)
  case (1 n)
  show ?case
  proof (cases "n < 10")
    case True
    then show ?thesis by (simp add: dec_of_nat.simps [of n])
  next
    case False
    with 1 have IH: "dtoi_loop 0 0 (dec_of_nat (n div 10)) = (n div 10, length (dec_of_nat (n div 10)), True)"
      by simp
    from False have "dec_of_nat n = dec_of_nat (n div 10) @ [digit_char (n mod 10)]"
      by (simp add: dec_of_nat.simps [of n])
    with IH 1 show ?thesis by (simp add: dtoi_loop_append)
  qed
qed

lemma dtoi_dec:
  assumes "n < 16777215" and "rest = [] \<or> \<not> is_digit (hd rest)"
  shows "dtoi (dec_of_nat n @ rest) = (n, length (dec_of_nat n), True)"
  using assms dtoi_loop_dec [of n]
  by (cases rest) (auto simp: dtoi_def dtoi_loop_append)

lemma unat_byte_bound: "unat (b :: byte) < 256"
  using unsigned_less [of b, where ?'a = nat] by simp

lemma parseIPv4_loop_octet:
  assumes "rest = [] \<or> \<not> is_digit (hd rest)"
  shows "parseIPv4_loop (Suc k) True (dec_of_nat (unat b) @ rest) =
      map_option (\<lambda>(ps, t). (b # ps, t)) (parseIPv4_loop k False rest)"
    and "parseIPv4_loop (Suc k) False (CHR ''.'' # dec_of_nat (unat b) @ rest) =
      map_option (\<lambda>(ps, t). (b # ps, t)) (parseIPv4_loop k False rest)"
  using dtoi_dec [of "unat b" rest] assms unat_byte_bound [of b] by simp_all

lemma parseIPv4_ipv4_string: "parseIPv4 (ipv4_string [a, b, c, d]) = IPv4 a b c d"
proof -
  have four: "4 = Suc (Suc (Suc (Suc 0)))" by simp
  have dot: "\<not> is_digit (CHR ''.'')" by (simp add: is_digit_def)
  have last: "parseIPv4_loop (Suc k) False (CHR ''.'' # dec_of_nat (unat d)) =
      map_option (\<lambda>(ps, t). (d # ps, t)) (parseIPv4_loop k False [])" for k
    using parseIPv4_loop_octet(2) [of "[]"] by simp
  show ?thesis
    unfolding parseIPv4_def ipv4_string_def four
    by (simp add: parseIPv4_loop_octet dot last del: parseIPv4_loop.simps(2))
qed

lemma ParseIP_ipv4_string:
  assumes "length p = 4"
  shows "ParseIP (ipv4_string p) = v4InV6Prefix @ p"
proof -
  obtain a b c d where p: "p = [a, b, c, d]"
    using assms by (auto simp: numeral_eq_Suc length_Suc_conv)
  have nodot: "filter (\<lambda>c. c = CHR ''.'' \<or> c = CHR '':'') (dec_of_nat n) = []" for n
    using dec_of_nat_digits [of n] by (auto simp: filter_empty_conv is_digit_def)
  show ?thesis
    using parseIPv4_ipv4_string [of a b c d]
    by (simp add: ParseIP_def p ipv4_string_def nodot IPv4_def)
qed

text \<open>An IPv4 address survives printing and parsing, in the 16-byte form the parser gives.\<close>

lemma ParseIP_IP_String:
  assumes "To4 ip \<noteq> []"
  shows "IP_Equal (ParseIP (IP_String ip)) ip" and "To4 (ParseIP (IP_String ip)) = To4 ip"
proof -
  have len: "length (To4 ip) = 4" and "ip \<noteq> []" using assms length_To4 [of ip] by (auto simp: To4_def)
  with assms have p: "ParseIP (IP_String ip) = v4InV6Prefix @ To4 ip"
    by (simp add: IP_String_def ParseIP_ipv4_string)
  then show t: "To4 (ParseIP (IP_String ip)) = To4 ip"
    using len by simp
  with assms show "IP_Equal (ParseIP (IP_String ip)) ip" by (simp add: IP_Equal_To4)
qed

text \<open>So does a network written as address and prefix length.\<close>

lemma ParseCIDR_print:
  assumes "n \<le> 32"
  shows "ParseCIDR (ipv4_string [a, b, c, d] @ CHR ''/'' # dec_of_nat n) =
     Some (IPv4 a b c d, \<lparr>net_IP = IP_Mask (IPv4 a b c d) (CIDRMask n 32), net_Mask = CIDRMask n 32\<rparr>)"
proof -
  have "CHR ''/'' \<notin> set (dec_of_nat m)" for m
    using dec_of_nat_digits [of m] by (auto simp: is_digit_def)
  then have "CHR ''/'' \<notin> set (ipv4_string [a, b, c, d])" by (simp add: ipv4_string_def)
  then have i: "IndexByte (ipv4_string [a, b, c, d] @ CHR ''/'' # dec_of_nat n) (CHR ''/'') = Some (length (ipv4_string [a, b, c, d]))"
    by (rule IndexByte_append)
  have "IPv4 a b c d \<noteq> []" by (simp add: IPv4_def)
  with assms dtoi_dec [of n "[]"] show ?thesis
    by (simp add: ParseCIDR_def i parseIPv4_ipv4_string Let_def)
qed

end
