(* ===== verification/Dhcp4.thy ===== *)
theory Dhcp4
  imports GoNet
begin

text \<open>
  The DHCP packet library (\<^verbatim>\<open>krolaw/dhcp4\<close>): \<^verbatim>\<open>packet.go\<close> and \<^verbatim>\<open>helpers.go\<close>. A packet is its
  bytes; a method that writes into the packet returns the new bytes; \<^term>\<open>None\<close> is the
  run-time panic of an index past the end of the packet.
\<close>

type_synonym OptionCode = byte
type_synonym MessageType = byte
type_synonym Packet = bytes
type_synonym Options = "OptionCode \<rightharpoonup> bytes"

record DhcpOption =
  Code :: OptionCode
  Value :: bytes

subsection \<open>Codes\<close>

definition BootRequest :: byte where "BootRequest = 1"
definition BootReply :: byte where "BootReply = 2"

definition Discover :: MessageType where "Discover = 1"
definition Offer :: MessageType where "Offer = 2"
definition Request :: MessageType where "Request = 3"
definition Decline :: MessageType where "Decline = 4"
definition ACK :: MessageType where "ACK = 5"
definition NAK :: MessageType where "NAK = 6"
definition Release :: MessageType where "Release = 7"
definition Inform :: MessageType where "Inform = 8"

definition End :: OptionCode where "End = 255"
definition Pad :: OptionCode where "Pad = 0"
definition OptionSubnetMask :: OptionCode where "OptionSubnetMask = 1"
definition OptionRouter :: OptionCode where "OptionRouter = 3"
definition OptionDomainNameServer :: OptionCode where "OptionDomainNameServer = 6"
definition OptionPerformRouterDiscovery :: OptionCode where "OptionPerformRouterDiscovery = 31"
definition OptionRequestedIPAddress :: OptionCode where "OptionRequestedIPAddress = 50"
definition OptionIPAddressLeaseTime :: OptionCode where "OptionIPAddressLeaseTime = 51"
definition OptionDHCPMessageType :: OptionCode where "OptionDHCPMessageType = 53"
definition OptionServerIdentifier :: OptionCode where "OptionServerIdentifier = 54"
definition OptionParameterRequestList :: OptionCode where "OptionParameterRequestList = 55"

lemmas message_codes = Discover_def Offer_def Request_def Decline_def ACK_def NAK_def Release_def Inform_def

lemmas option_codes = End_def Pad_def OptionSubnetMask_def OptionRouter_def OptionDomainNameServer_def
  OptionPerformRouterDiscovery_def OptionRequestedIPAddress_def OptionIPAddressLeaseTime_def
  OptionDHCPMessageType_def OptionServerIdentifier_def OptionParameterRequestList_def

text \<open>
  The generated \<^verbatim>\<open>String\<close> method of MessageType. The index is a byte, so that type 0 wraps to 255
  and panics; the types above 8 print as a number.
\<close>

definition MessageType_name :: string where
  "MessageType_name = ''DiscoverOfferRequestDeclineACKNAKReleaseInform''"

definition MessageType_index :: "nat list" where
  "MessageType_index = [0, 8, 13, 20, 27, 30, 33, 40, 46]"

definition MessageType_String :: "MessageType \<Rightarrow> string option" where
  "MessageType_String m =
     (let i = m - 1 in
      if i + 1 \<ge> of_nat (length MessageType_index)
      then Some (''MessageType('' @ dec_of_nat (unat (i + 1)) @ '')'')
      else do {
        lo \<leftarrow> index MessageType_index (unat i);
        hi \<leftarrow> index MessageType_index (unat (i + 1));
        slice lo hi MessageType_name
      })"

subsection \<open>Reading a packet\<close>

definition OpCode :: "Packet \<Rightarrow> byte option" where "OpCode p = index p 0"
definition HType :: "Packet \<Rightarrow> byte option" where "HType p = index p 1"
definition HLen :: "Packet \<Rightarrow> byte option" where "HLen p = index p 2"
definition Hops :: "Packet \<Rightarrow> byte option" where "Hops p = index p 3"
definition XId :: "Packet \<Rightarrow> bytes option" where "XId p = slice 4 8 p"
definition Secs :: "Packet \<Rightarrow> bytes option" where "Secs p = slice 8 10 p"
definition Flags :: "Packet \<Rightarrow> bytes option" where "Flags p = slice 10 12 p"
definition CIAddr :: "Packet \<Rightarrow> IP option" where "CIAddr p = slice 12 16 p"
definition YIAddr :: "Packet \<Rightarrow> IP option" where "YIAddr p = slice 16 20 p"
definition SIAddr :: "Packet \<Rightarrow> IP option" where "SIAddr p = slice 20 24 p"
definition GIAddr :: "Packet \<Rightarrow> IP option" where "GIAddr p = slice 24 28 p"

definition CHAddr :: "Packet \<Rightarrow> HardwareAddr option" where
  "CHAddr p = do {
     hLen \<leftarrow> HLen p;
     let hLen = (if hLen > 16 then 16 else hLen);
     slice 28 (unat (28 + hLen)) p
   }"

definition trimNull :: "bytes \<Rightarrow> bytes" where
  "trimNull d = takeWhile (\<lambda>v. v \<noteq> 0) d"

definition SName :: "Packet \<Rightarrow> bytes option" where "SName p = map_option trimNull (slice 44 108 p)"
definition File :: "Packet \<Rightarrow> bytes option" where "File p = map_option trimNull (slice 108 236 p)"
definition Cookie :: "Packet \<Rightarrow> bytes option" where "Cookie p = slice 236 240 p"

definition PacketOptions :: "Packet \<Rightarrow> bytes" where
  "PacketOptions p = (if 240 < length p then drop 240 p else [])"

definition Broadcast :: "Packet \<Rightarrow> bool option" where
  "Broadcast p = do { f \<leftarrow> Flags p; b \<leftarrow> index f 0; Some (b > 127) }"

subsection \<open>Writing into a packet\<close>

definition SetBroadcast :: "bool \<Rightarrow> Packet \<Rightarrow> Packet option" where
  "SetBroadcast broadcast p = do {
     b \<leftarrow> Broadcast p;
     if b \<noteq> broadcast then set_index 10 (p ! 10 XOR 128) p else Some p
   }"

definition SetOpCode :: "byte \<Rightarrow> Packet \<Rightarrow> Packet option" where "SetOpCode c p = set_index 0 c p"

definition SetCHAddr :: "HardwareAddr \<Rightarrow> Packet \<Rightarrow> Packet option" where
  "SetCHAddr a p = do { p \<leftarrow> copy_to 28 44 a p; set_index 2 (of_nat (length a)) p }"

definition SetHType :: "byte \<Rightarrow> Packet \<Rightarrow> Packet option" where "SetHType h p = set_index 1 h p"
definition SetCookie :: "bytes \<Rightarrow> Packet \<Rightarrow> Packet option" where "SetCookie cookie p = copy_to 236 240 cookie p"
definition SetHops :: "byte \<Rightarrow> Packet \<Rightarrow> Packet option" where "SetHops hops p = set_index 3 hops p"
definition SetXId :: "bytes \<Rightarrow> Packet \<Rightarrow> Packet option" where "SetXId xId p = copy_to 4 8 xId p"
definition SetSecs :: "bytes \<Rightarrow> Packet \<Rightarrow> Packet option" where "SetSecs secs p = copy_to 8 10 secs p"
definition SetFlags :: "bytes \<Rightarrow> Packet \<Rightarrow> Packet option" where "SetFlags flags p = copy_to 10 12 flags p"
definition SetCIAddr :: "IP \<Rightarrow> Packet \<Rightarrow> Packet option" where "SetCIAddr ip p = copy_to 12 16 (To4 ip) p"
definition SetYIAddr :: "IP \<Rightarrow> Packet \<Rightarrow> Packet option" where "SetYIAddr ip p = copy_to 16 20 (To4 ip) p"
definition SetSIAddr :: "IP \<Rightarrow> Packet \<Rightarrow> Packet option" where "SetSIAddr ip p = copy_to 20 24 (To4 ip) p"
definition SetGIAddr :: "IP \<Rightarrow> Packet \<Rightarrow> Packet option" where "SetGIAddr ip p = copy_to 24 28 (To4 ip) p"

definition SetSName :: "bytes \<Rightarrow> Packet \<Rightarrow> Packet option" where
  "SetSName sName p = do {
     p \<leftarrow> copy_to 44 108 sName p;
     if length sName < 64 then set_index (44 + length sName) 0 p else Some p
   }"

definition SetFile :: "bytes \<Rightarrow> Packet \<Rightarrow> Packet option" where
  "SetFile file p = do {
     p \<leftarrow> copy_to 108 236 file p;
     if length file < 128 then set_index (108 + length file) 0 p else Some p
   }"

subsection \<open>Options\<close>

text \<open>The loop of ParseOptions over the option bytes, with the map built so far.\<close>

fun parse_options_loop :: "bytes \<Rightarrow> Options \<Rightarrow> Options" where
  "parse_options_loop (c # l # rest) options =
     (if c = End then options
      else if c = Pad then parse_options_loop (l # rest) options
      else if length rest < unat l then options
      else parse_options_loop (drop (unat l) rest) (options(c \<mapsto> take (unat l) rest)))"
| "parse_options_loop _ options = options"

definition ParseOptions :: "Packet \<Rightarrow> Options" where
  "ParseOptions p = parse_options_loop (PacketOptions p) Map.empty"

definition NewPacket :: "byte \<Rightarrow> Packet option" where
  "NewPacket opCode = do {
     p \<leftarrow> SetOpCode opCode (replicate 241 0);
     p \<leftarrow> SetHType 1 p;
     p \<leftarrow> SetCookie [99, 130, 83, 99] p;
     set_index 240 End p
   }"

definition AddOption :: "OptionCode \<Rightarrow> bytes \<Rightarrow> Packet \<Rightarrow> Packet option" where
  "AddOption o' value p =
     (if p = [] then None else Some (butlast p @ [o', of_nat (length value)] @ value @ [End]))"

definition StripOptions :: "Packet \<Rightarrow> Packet option" where
  "StripOptions p = map_option (\<lambda>h. h @ [End]) (slice 0 240 p)"

fun AddOptions :: "DhcpOption list \<Rightarrow> Packet \<Rightarrow> Packet option" where
  "AddOptions [] p = Some p"
| "AddOptions (x # xs) p = do { p \<leftarrow> AddOption (Code x) (Value x) p; AddOptions xs p }"

definition PadToMinSize :: "Packet \<Rightarrow> Packet" where
  "PadToMinSize p = (if length p < 272 then p @ replicate (272 - length p) 0 else p)"

definition RequestPacket ::
  "MessageType \<Rightarrow> HardwareAddr \<Rightarrow> IP \<Rightarrow> bytes \<Rightarrow> bool \<Rightarrow> DhcpOption list \<Rightarrow> Packet option" where
  "RequestPacket mt chAddr cIAddr xId broadcast options = do {
     p \<leftarrow> NewPacket BootRequest;
     p \<leftarrow> SetCHAddr chAddr p;
     p \<leftarrow> SetXId xId p;
     p \<leftarrow> (if cIAddr \<noteq> [] then SetCIAddr cIAddr p else Some p);
     p \<leftarrow> SetBroadcast broadcast p;
     p \<leftarrow> AddOption OptionDHCPMessageType [mt] p;
     p \<leftarrow> AddOptions options p;
     Some (PadToMinSize p)
   }"

text \<open>Durations are nanoseconds; the division by a second truncates towards zero.\<close>

definition Second :: int where "Second = 1000000000"

definition OptionsLeaseTime :: "int \<Rightarrow> bytes" where
  "OptionsLeaseTime d = PutUint32 (word_of_int (sgn d * (\<bar>d\<bar> div Second)))"

definition ReplyPacket ::
  "Packet \<Rightarrow> MessageType \<Rightarrow> IP \<Rightarrow> IP \<Rightarrow> int \<Rightarrow> DhcpOption list \<Rightarrow> Packet option" where
  "ReplyPacket req mt serverId yIAddr leaseDuration options = do {
     p \<leftarrow> NewPacket BootReply;
     xid \<leftarrow> XId req;
     p \<leftarrow> SetXId xid p;
     fl \<leftarrow> Flags req;
     p \<leftarrow> SetFlags fl p;
     p \<leftarrow> SetYIAddr yIAddr p;
     gi \<leftarrow> GIAddr req;
     p \<leftarrow> SetGIAddr gi p;
     ch \<leftarrow> CHAddr req;
     p \<leftarrow> SetCHAddr ch p;
     p \<leftarrow> AddOption OptionDHCPMessageType [mt] p;
     p \<leftarrow> AddOption OptionServerIdentifier serverId p;
     p \<leftarrow> (if 0 < leaseDuration
           then AddOption OptionIPAddressLeaseTime (OptionsLeaseTime leaseDuration) p else Some p);
     p \<leftarrow> AddOptions options p;
     Some (PadToMinSize p)
   }"

subsection \<open>Helpers\<close>

text \<open>
  SelectOrder walks the requested codes; SelectOrderOrAll walks the map itself when no list was
  sent (nil), in an order the Go run time chooses: the argument \<^term>\<open>ks\<close>, a listing of the keys.
\<close>

definition range_order :: "Options \<Rightarrow> OptionCode list \<Rightarrow> bool" where
  "range_order o' ks \<longleftrightarrow> distinct ks \<and> set ks = dom o'"

fun SelectOrder :: "Options \<Rightarrow> bytes \<Rightarrow> DhcpOption list" where
  "SelectOrder o' [] = []"
| "SelectOrder o' (v # order) =
     (case o' v of
        Some data \<Rightarrow> \<lparr>Code = v, Value = data\<rparr> # SelectOrder o' order
      | None \<Rightarrow> SelectOrder o' order)"

definition SelectOrderOrAll :: "OptionCode list \<Rightarrow> Options \<Rightarrow> bytes option \<Rightarrow> DhcpOption list" where
  "SelectOrderOrAll ks o' order =
     (case order of
        None \<Rightarrow> map (\<lambda>i. \<lparr>Code = i, Value = the (o' i)\<rparr>) ks
      | Some ord \<Rightarrow> SelectOrder o' ord)"

definition IPRange :: "IP \<Rightarrow> IP \<Rightarrow> int option" where
  "IPRange start stop = do {
     s \<leftarrow> Uint32 (To4 stop);
     t \<leftarrow> Uint32 (To4 start);
     Some (uint s - uint t + 1)
   }"

definition IPAdd :: "IP \<Rightarrow> int \<Rightarrow> IP option" where
  "IPAdd start add = do { s \<leftarrow> Uint32 (To4 start); Some (PutUint32 (s + word_of_int add)) }"

fun ip_less_loop :: "bytes \<Rightarrow> bytes \<Rightarrow> bool option" where
  "ip_less_loop [] b = Some False"
| "ip_less_loop (x # xs) [] = None"
| "ip_less_loop (x # xs) (y # ys) = (if x \<noteq> y then Some (x < y) else ip_less_loop xs ys)"

definition IPLess :: "IP \<Rightarrow> IP \<Rightarrow> bool option" where
  "IPLess a b = ip_less_loop (To4 a) (To4 b)"

definition IPInRange :: "IP \<Rightarrow> IP \<Rightarrow> IP \<Rightarrow> bool option" where
  "IPInRange start stop ip = do {
     l \<leftarrow> IPLess ip start;
     if l then Some False else map_option Not (IPLess stop ip)
   }"

definition JoinIPs :: "IP list \<Rightarrow> bytes" where
  "JoinIPs ips = concat (map To4 ips)"

subsection \<open>The layout of what the library builds\<close>


lemma NewPacket_eq:
  "NewPacket c = Some ([c, 1, 0, 0] @ replicate 232 0 @ [99, 130, 83, 99, End])"
proof -
  have r: "replicate 241 0 = [0, 0, 0, 0] @ replicate 232 0 @ [0, 0, 0, 0] @ [0 :: byte]"
    by (rule nth_equalityI) (auto simp: nth_append nth_Cons' split: if_splits)
  show ?thesis
    unfolding NewPacket_def SetOpCode_def SetHType_def SetCookie_def r
    using copy_to_window [of "[c, 1, 0, 0] @ replicate 232 0" 236 "[0,0,0,0]" 240 "[99,130,83,99]" "[0]"]
    by (simp add: set_index_def list_update_append)
qed


definition opt_bytes :: "DhcpOption list \<Rightarrow> bytes" where
  "opt_bytes xs = concat (map (\<lambda>x. [Code x, of_nat (length (Value x))] @ Value x) xs)"

definition put_options :: "DhcpOption list \<Rightarrow> Options \<Rightarrow> Options" where
  "put_options xs m = foldl (\<lambda>m x. m(Code x \<mapsto> Value x)) m xs"

definition encodable :: "DhcpOption \<Rightarrow> bool" where
  "encodable x \<longleftrightarrow> Code x \<noteq> End \<and> Code x \<noteq> Pad \<and> length (Value x) < 256"

lemma AddOptions_append: "AddOptions xs (b @ [e]) = Some (b @ opt_bytes xs @ [if xs = [] then e else End])"
proof (induction xs arbitrary: b e)
  case (Cons x xs)
  have "AddOption (Code x) (Value x) (b @ [e]) = Some ((b @ [Code x, of_nat (length (Value x))] @ Value x) @ [End])"
    by (simp add: AddOption_def)
  then show ?case using Cons.IH [of "b @ [Code x, of_nat (length (Value x))] @ Value x" End]
    by (simp add: opt_bytes_def)
qed (simp add: opt_bytes_def)

lemma parse_options_loop_opt_bytes:
  "list_all encodable xs \<Longrightarrow>
     parse_options_loop (opt_bytes xs @ End # rest) m = put_options xs m"
proof (induction xs arbitrary: m)
  case Nil
  show ?case by (cases rest) (simp_all add: opt_bytes_def put_options_def)
next
  case (Cons x xs)
  have l: "unat (of_nat (length (Value x)) :: byte) = length (Value x)"
    using Cons.prems by (simp add: encodable_def unat_of_nat)
  have "opt_bytes (x # xs) @ End # rest =
      Code x # of_nat (length (Value x)) # Value x @ opt_bytes xs @ End # rest"
    by (simp add: opt_bytes_def)
  then show ?case using Cons l by (simp add: encodable_def put_options_def)
qed

lemma put_options_apply:
  "put_options xs m c = (case map_of (rev (map (\<lambda>x. (Code x, Value x)) xs)) c of None \<Rightarrow> m c | Some v \<Rightarrow> Some v)"
  unfolding put_options_def
  by (induction xs arbitrary: m) (auto simp: map_add_def split: option.splits)

lemma put_options_append: "put_options (xs @ ys) m = put_options ys (put_options xs m)"
  by (simp add: put_options_def)

lemma put_options_notin: "c \<notin> Code ` set xs \<Longrightarrow> put_options xs m c = m c"
  unfolding put_options_def by (induction xs arbitrary: m) auto

definition reply_header :: "bytes \<Rightarrow> bytes \<Rightarrow> bytes \<Rightarrow> bytes \<Rightarrow> bytes \<Rightarrow> bytes" where
  "reply_header xid fl y gi ch =
     [BootReply, 1, of_nat (length ch), 0] @ xid @ [0, 0] @ fl @ replicate 4 0 @
     (y @ replicate (4 - length y) 0) @ replicate 4 0 @ gi @ (ch @ replicate (16 - length ch) 0) @
     replicate 192 0 @ [99, 130, 83, 99]"

definition reply_options :: "MessageType \<Rightarrow> IP \<Rightarrow> int \<Rightarrow> DhcpOption list \<Rightarrow> DhcpOption list" where
  "reply_options mt serverId d options =
     [\<lparr>Code = OptionDHCPMessageType, Value = [mt]\<rparr>, \<lparr>Code = OptionServerIdentifier, Value = serverId\<rparr>] @
     (if 0 < d then [\<lparr>Code = OptionIPAddressLeaseTime, Value = OptionsLeaseTime d\<rparr>] else []) @ options"

lemma length_reply_header [simp]:
  "length xid = 4 \<Longrightarrow> length fl = 2 \<Longrightarrow> length y \<le> 4 \<Longrightarrow> length gi = 4 \<Longrightarrow> length ch \<le> 16 \<Longrightarrow>
    length (reply_header xid fl y gi ch) = 240"
  by (simp add: reply_header_def)

lemma reply_header_writes:
  assumes len: "length xid = 4" "length fl = 2" "length gi = 4" "length ch \<le> 16" and y: "length (To4 y) \<le> 4"
  shows "do { p \<leftarrow> NewPacket BootReply;
        p \<leftarrow> SetXId xid p; p \<leftarrow> SetFlags fl p; p \<leftarrow> SetYIAddr y p; p \<leftarrow> SetGIAddr gi p; SetCHAddr ch p }
     = Some (reply_header xid fl (To4 y) gi ch @ [End])"
proof -
  define Z where "Z n = replicate n (0 :: byte)" for n
  have Zl [simp]: "length (Z n) = n" for n by (simp add: Z_def)
  have Zd [simp]: "drop m (Z n) = Z (n - m)" for m n by (simp add: Z_def)
  have r: "replicate 232 (0::byte) = Z 4 @ Z 2 @ Z 2 @ Z 4 @ Z 4 @ Z 4 @ Z 4 @ Z 16 @ Z 192"
    by (simp add: Z_def flip: replicate_add)
  have gi4: "To4 gi = gi" using len by simp
  let ?tail = "[99, 130, 83, 99, End] :: bytes"
  have 1: "SetXId xid ([BootReply, 1, 0, 0] @ Z 4 @ Z 2 @ Z 2 @ Z 4 @ Z 4 @ Z 4 @ Z 4 @ Z 16 @ Z 192 @ ?tail)
      = Some ([BootReply, 1, 0, 0] @ xid @ Z 2 @ Z 2 @ Z 4 @ Z 4 @ Z 4 @ Z 4 @ Z 16 @ Z 192 @ ?tail)"
    unfolding SetXId_def
    by (subst copy_to_window) (use len in \<open>simp_all add: Z_def\<close>)
  have 2: "SetFlags fl ([BootReply, 1, 0, 0] @ xid @ Z 2 @ Z 2 @ Z 4 @ Z 4 @ Z 4 @ Z 4 @ Z 16 @ Z 192 @ ?tail)
      = Some ([BootReply, 1, 0, 0] @ xid @ Z 2 @ fl @ Z 4 @ Z 4 @ Z 4 @ Z 4 @ Z 16 @ Z 192 @ ?tail)"
    unfolding SetFlags_def
    using copy_to_window [of "[BootReply, 1, 0, 0] @ xid @ Z 2" 10 "Z 2" 12 fl] len by (simp add: Z_def)
  have 3: "SetYIAddr y ([BootReply, 1, 0, 0] @ xid @ Z 2 @ fl @ Z 4 @ Z 4 @ Z 4 @ Z 4 @ Z 16 @ Z 192 @ ?tail)
      = Some ([BootReply, 1, 0, 0] @ xid @ Z 2 @ fl @ Z 4 @ (To4 y @ Z (4 - length (To4 y))) @ Z 4 @ Z 4 @ Z 16 @ Z 192 @ ?tail)"
    unfolding SetYIAddr_def
    using copy_to_window [of "[BootReply, 1, 0, 0] @ xid @ Z 2 @ fl @ Z 4" 16 "Z 4" 20 "To4 y"] len y by simp
  have 4: "SetGIAddr gi ([BootReply, 1, 0, 0] @ xid @ Z 2 @ fl @ Z 4 @ (To4 y @ Z (4 - length (To4 y))) @ Z 4 @ Z 4 @ Z 16 @ Z 192 @ ?tail)
      = Some ([BootReply, 1, 0, 0] @ xid @ Z 2 @ fl @ Z 4 @ (To4 y @ Z (4 - length (To4 y))) @ Z 4 @ gi @ Z 16 @ Z 192 @ ?tail)"
    unfolding SetGIAddr_def gi4
    using copy_to_window [of "[BootReply, 1, 0, 0] @ xid @ Z 2 @ fl @ Z 4 @ (To4 y @ Z (4 - length (To4 y))) @ Z 4" 24 "Z 4" 28 gi] len y
    by (simp add: Z_def)
  have 5: "SetCHAddr ch ([BootReply, 1, 0, 0] @ xid @ Z 2 @ fl @ Z 4 @ (To4 y @ Z (4 - length (To4 y))) @ Z 4 @ gi @ Z 16 @ Z 192 @ ?tail)
      = Some (reply_header xid fl (To4 y) gi ch @ [End])"
    unfolding SetCHAddr_def
    using copy_to_window [of "[BootReply, 1, 0, 0] @ xid @ Z 2 @ fl @ Z 4 @ (To4 y @ Z (4 - length (To4 y))) @ Z 4 @ gi" 28 "Z 16" 44 ch "Z 192 @ ?tail"] len y
    by (simp add: set_index_def reply_header_def Z_def numeral_2_eq_2)
  show ?thesis
    unfolding NewPacket_eq r append_assoc bind.bind_lunit
    by (simp only: 1 2 3 4 5 bind.bind_lunit)
qed


lemma packet_reads:
  assumes "240 \<le> length req"
  obtains xid fl gi ch where "XId req = Some xid" "Flags req = Some fl" "GIAddr req = Some gi" "CHAddr req = Some ch"
    and "length xid = 4" "length fl = 2" "length gi = 4" "length ch \<le> 16"
proof -
  have r: "\<exists>x. slice lo hi req = Some x \<and> length x = hi - lo" if "lo \<le> hi" "hi \<le> 240" for lo hi
    using that assms by (auto simp: slice_def)
  obtain h where h: "HLen req = Some h" using assms by (auto simp: HLen_def index_def)
  define n where "n = (if h > 16 then 16 else h)"
  have "n \<le> 16" by (auto simp: n_def not_less)
  then have n: "unat n \<le> 16" by (simp add: word_le_nat_alt)
  then have u: "unat (28 + n) = 28 + unat n" by (subst unat_add_lem [THEN iffD1]) auto
  have "CHAddr req = slice 28 (28 + unat n) req"
    using h by (simp add: CHAddr_def u n_def [symmetric])
  with r [of 28 "28 + unat n"] n obtain ch where "CHAddr req = Some ch" "length ch \<le> 16" by auto
  with r [of 4 8] r [of 10 12] r [of 24 28] that show ?thesis
    by (auto simp: XId_def Flags_def GIAddr_def)
qed

lemma ReplyPacket_eq:
  assumes "XId req = Some xid" "Flags req = Some fl" "GIAddr req = Some gi" "CHAddr req = Some ch"
    and len: "length xid = 4" "length fl = 2" "length gi = 4" "length ch \<le> 16"
  shows "ReplyPacket req mt sid y d opts =
    Some (PadToMinSize (reply_header xid fl (To4 y) gi ch @ opt_bytes (reply_options mt sid d opts) @ [End]))"
proof -
  have y: "length (To4 y) \<le> 4" using length_To4 [of y] by auto
  define K where "K p = do {
     p \<leftarrow> AddOption OptionDHCPMessageType [mt] p;
     p \<leftarrow> AddOption OptionServerIdentifier sid p;
     p \<leftarrow> (if 0 < d then AddOption OptionIPAddressLeaseTime (OptionsLeaseTime d) p else Some p);
     p \<leftarrow> AddOptions opts p;
     Some (PadToMinSize p) }" for p
  have "ReplyPacket req mt sid y d opts =
     Option.bind (do { p \<leftarrow> NewPacket BootReply;
        p \<leftarrow> SetXId xid p; p \<leftarrow> SetFlags fl p; p \<leftarrow> SetYIAddr y p; p \<leftarrow> SetGIAddr gi p; SetCHAddr ch p }) K"
    by (simp add: ReplyPacket_def K_def [abs_def] assms)
  also have "\<dots> = K (reply_header xid fl (To4 y) gi ch @ [End])"
    by (simp only: reply_header_writes [OF len y] bind.bind_lunit)
  also have "\<dots> = map_option PadToMinSize (AddOptions (reply_options mt sid d opts) (reply_header xid fl (To4 y) gi ch @ [End]))"
    by (auto simp: K_def reply_options_def AddOption_def map_conv_bind_option comp_def)
  finally show ?thesis by (simp add: AddOptions_append)
qed

lemma drop_reply: "length hdr = 240 \<Longrightarrow> PacketOptions (PadToMinSize (hdr @ b @ [End])) = b @ End # replicate (272 - (241 + length b)) 0"
  by (simp add: PacketOptions_def PadToMinSize_def)

lemma slice_PadToMinSize: "hi \<le> length p \<Longrightarrow> slice lo hi (PadToMinSize p) = slice lo hi p"
  by (auto simp: PadToMinSize_def slice_def)

lemma slice_append_left: "hi \<le> length p \<Longrightarrow> slice lo hi (p @ q) = slice lo hi p"
  by (auto simp: slice_def)

lemma reply_header_fields:
  assumes "length xid = 4" "length fl = 2" "length y \<le> 4" "length gi = 4" "length ch \<le> 16"
  shows "index (reply_header xid fl y gi ch) 0 = Some BootReply"
    and "index (reply_header xid fl y gi ch) 2 = Some (of_nat (length ch))"
    and "slice 4 8 (reply_header xid fl y gi ch) = Some xid"
    and "slice 10 12 (reply_header xid fl y gi ch) = Some fl"
    and "slice 16 20 (reply_header xid fl y gi ch) = Some (y @ replicate (4 - length y) 0)"
    and "slice 24 28 (reply_header xid fl y gi ch) = Some gi"
    and "slice 28 (28 + length ch) (reply_header xid fl y gi ch) = Some ch"
  using assms by (auto simp: index_def slice_def reply_header_def)

lemma CHAddr_header:
  assumes "length h = 240" and "index h 2 = Some (of_nat (length ch))" and "length ch \<le> 16"
    and "slice 28 (28 + length ch) h = Some ch"
  shows "CHAddr (PadToMinSize (h @ b @ [End])) = Some ch"
proof -
  have l: "unat (of_nat (length ch) :: byte) = length ch" using assms(3) by (simp add: unat_of_nat)
  have u: "unat (28 + of_nat (length ch) :: byte) = 28 + length ch"
    using assms(3) l by (subst unat_add_lem [THEN iffD1]) auto
  have "HLen (PadToMinSize (h @ b @ [End])) = Some (of_nat (length ch))"
    using assms(1,2) by (auto simp: HLen_def index_def PadToMinSize_def nth_append split: if_splits)
  moreover have "\<not> (16 < (of_nat (length ch) :: byte))" using assms(3) l by (simp add: word_less_nat_alt)
  ultimately show ?thesis
    using assms by (simp add: CHAddr_def u slice_PadToMinSize slice_append_left)
qed

lemma CHAddr_reply:
  assumes len: "length xid = 4" "length fl = 2" "length y \<le> 4" "length gi = 4" "length ch \<le> 16"
  shows "CHAddr (PadToMinSize (reply_header xid fl y gi ch @ b @ [End])) = Some ch"
  using len by (intro CHAddr_header length_reply_header reply_header_fields)

text \<open>
  A reply answers its request: it is a BOOTP reply with the request's transaction id, flags,
  relay address and hardware address, of at least the minimum size.
\<close>

definition answers :: "Packet \<Rightarrow> Packet \<Rightarrow> bool" where
  "answers req res \<longleftrightarrow> OpCode res = Some BootReply \<and> XId res = XId req \<and> Flags res = Flags req \<and>
     GIAddr res = GIAddr req \<and> CHAddr res = CHAddr req \<and> 272 \<le> length res"

lemma ReplyPacket_total:
  assumes req: "240 \<le> length req"
  shows "\<exists>p. ReplyPacket req mt serverId yIAddr d options = Some p \<and> answers req p
      \<and> YIAddr p = Some (To4 yIAddr @ replicate (4 - length (To4 yIAddr)) 0)"
proof -
  obtain xid fl gi ch where r: "XId req = Some xid" "Flags req = Some fl" "GIAddr req = Some gi" "CHAddr req = Some ch"
    and len: "length xid = 4" "length fl = 2" "length gi = 4" "length ch \<le> 16"
    using packet_reads [OF req] .
  have y4: "length (To4 yIAddr) \<le> 4" using length_To4 [of yIAddr] by auto
  let ?h = "reply_header xid fl (To4 yIAddr) gi ch"
  let ?p = "PadToMinSize (?h @ opt_bytes (reply_options mt serverId d options) @ [End])"
  have h: "length ?h = 240" using len y4 by simp
  note f = reply_header_fields [OF len(1,2) y4 len(3,4)]
  have "OpCode ?p = Some BootReply"
    using f(1) h by (auto simp: OpCode_def index_def PadToMinSize_def nth_append)
  moreover have "XId ?p = Some xid" "Flags ?p = Some fl" "GIAddr ?p = Some gi"
    and yi: "YIAddr ?p = Some (To4 yIAddr @ replicate (4 - length (To4 yIAddr)) 0)"
    using f(3-6) h
    by (simp_all add: XId_def Flags_def GIAddr_def YIAddr_def slice_PadToMinSize slice_append_left)
  moreover have "CHAddr ?p = Some ch" by (rule CHAddr_reply [OF len(1,2) y4 len(3,4)])
  moreover have "272 \<le> length ?p" by (simp add: PadToMinSize_def)
  ultimately have "answers req ?p" by (simp add: answers_def r)
  with yi show ?thesis using ReplyPacket_eq [OF r len, of mt serverId yIAddr d options] by blast
qed

lemma ReplyPacket_options:
  assumes p: "ReplyPacket req mt serverId yIAddr d options = Some p" and req: "240 \<le> length req"
    and "length serverId < 256" and "list_all encodable options"
  shows "ParseOptions p = put_options (reply_options mt serverId d options) Map.empty"
proof -
  obtain xid fl gi ch where r: "XId req = Some xid" "Flags req = Some fl" "GIAddr req = Some gi" "CHAddr req = Some ch"
    and len: "length xid = 4" "length fl = 2" "length gi = 4" "length ch \<le> 16"
    using packet_reads [OF req] .
  have h: "length (reply_header xid fl (To4 yIAddr) gi ch) = 240"
    using len length_To4 [of yIAddr] by auto
  have enc: "list_all encodable (reply_options mt serverId d options)"
    using assms(3,4) by (simp add: reply_options_def encodable_def option_codes OptionsLeaseTime_def)
  from p have "p = PadToMinSize (reply_header xid fl (To4 yIAddr) gi ch @
      opt_bytes (reply_options mt serverId d options) @ [End])"
    by (simp add: ReplyPacket_eq [OF r len])
  then show ?thesis
    unfolding ParseOptions_def using drop_reply [OF h] parse_options_loop_opt_bytes [OF enc] by simp
qed

text \<open>
  C15 (ReplyPacket_roundtrip): a reply built for any request of at least 240 bytes is well formed and is read back as
  it was meant: the request's transaction id, flags, relay and hardware address are echoed, the
  offered address is in place, the size is at least the BOOTP minimum, and the option parser
  returns the message type, the server, the lease time and the selected options.
\<close>

theorem ReplyPacket_roundtrip:
  assumes "240 \<le> length req" and "To4 yIAddr \<noteq> []" and "length serverId < 256" and "list_all encodable options"
  shows "\<exists>p. ReplyPacket req mt serverId yIAddr d options = Some p
      \<and> OpCode p = Some BootReply \<and> XId p = XId req \<and> Flags p = Flags req
      \<and> GIAddr p = GIAddr req \<and> CHAddr p = CHAddr req \<and> 272 \<le> length p
      \<and> YIAddr p = Some (To4 yIAddr)
      \<and> ParseOptions p = put_options (reply_options mt serverId d options) Map.empty"
proof -
  have "length (To4 yIAddr) = 4" using assms(2) length_To4 [of yIAddr] by simp
  then show ?thesis
    using ReplyPacket_total [OF assms(1), of mt serverId yIAddr d options]
      ReplyPacket_options [OF _ assms(1,3,4), of mt yIAddr d]
    by (auto simp: answers_def)
qed

theorem ReplyPacket_roundtrip_witness:
  "\<exists>p. ReplyPacket (replicate 240 0) Offer [192, 168, 101, 2] [192, 168, 101, 3] (24 * 3600 * Second) [] = Some p
      \<and> YIAddr p = Some [192, 168, 101, 3]
      \<and> ParseOptions p OptionDHCPMessageType = Some [Offer]
      \<and> ParseOptions p OptionIPAddressLeaseTime = Some (PutUint32 86400)"
  using ReplyPacket_roundtrip [of "replicate 240 0" "[192, 168, 101, 3]" "[192, 168, 101, 2]" "[]" Offer "24 * 3600 * Second"]
  by (auto simp: reply_options_def put_options_def option_codes OptionsLeaseTime_def Second_def)

subsection \<open>Address arithmetic is arithmetic on 32-bit words\<close>

lemma IPLess_word: "IPLess (PutUint32 v) (PutUint32 w) = Some (v < w)"
proof -
  obtain a3 a2 a1 a0 where a: "PutUint32 v = [a3, a2, a1, a0]" by (simp add: PutUint32_def)
  obtain b3 b2 b1 b0 where b: "PutUint32 w = [b3, b2, b1, b0]" by (simp add: PutUint32_def)
  have v: "unat v = ((unat a3 * 256 + unat a2) * 256 + unat a1) * 256 + unat a0"
    using PutUint32_unat [of v] unsigned_less [of v, where ?'a = nat] be_digits [of "unat v"] unfolding a by simp
  have w: "unat w = ((unat b3 * 256 + unat b2) * 256 + unat b1) * 256 + unat b0"
    using PutUint32_unat [of w] unsigned_less [of w, where ?'a = nat] be_digits [of "unat w"] unfolding b by simp
  note bd = unat_byte_bound [of a0] unat_byte_bound [of a1] unat_byte_bound [of a2]
    unat_byte_bound [of b0] unat_byte_bound [of b1] unat_byte_bound [of b2]
  have "IPLess (PutUint32 v) (PutUint32 w) = ip_less_loop [a3, a2, a1, a0] [b3, b2, b1, b0]"
    unfolding IPLess_def a b by simp
  also have "\<dots> = Some (v < w)"
    using bd by (auto simp: word_less_nat_alt v w word_unat_eq_iff)
  finally show ?thesis .
qed

lemma IPAdd_word [simp]: "IPAdd (PutUint32 v) n = Some (PutUint32 (v + word_of_int n))"
  by (simp add: IPAdd_def)

lemma IPRange_word: "IPRange (PutUint32 v) (PutUint32 w) = Some (uint w - uint v + 1)"
  by (simp add: IPRange_def)

lemma IPInRange_word: "IPInRange (PutUint32 lo) (PutUint32 hi) (PutUint32 v) = Some (lo \<le> v \<and> v \<le> hi)"
  by (auto simp: IPInRange_def IPLess_word)

definition request_header :: "bytes \<Rightarrow> bool \<Rightarrow> bytes \<Rightarrow> bytes \<Rightarrow> bytes" where
  "request_header xid broadcast ci ch =
     [BootRequest, 1, of_nat (length ch), 0] @ xid @ [0, 0] @ [if broadcast then 128 else 0, 0] @
     (ci @ replicate (4 - length ci) 0) @ replicate 12 0 @ (ch @ replicate (16 - length ch) 0) @
     replicate 192 0 @ [99, 130, 83, 99]"

lemma length_request_header [simp]:
  "length xid = 4 \<Longrightarrow> length ci \<le> 4 \<Longrightarrow> length ch \<le> 16 \<Longrightarrow> length (request_header xid b ci ch) = 240"
  by (simp add: request_header_def)

lemma request_header_writes:
  assumes len: "length xid = 4" "length ch \<le> 16" and c: "length (To4 ci) \<le> 4"
  shows "do { p \<leftarrow> NewPacket BootRequest; p \<leftarrow> SetCHAddr ch p; p \<leftarrow> SetXId xid p;
        p \<leftarrow> (if ci \<noteq> [] then SetCIAddr ci p else Some p); SetBroadcast bc p }
     = Some (request_header xid bc (To4 ci) ch @ [End])"
proof -
  define Z where "Z n = replicate n (0 :: byte)" for n
  have Zl [simp]: "length (Z n) = n" for n by (simp add: Z_def)
  have Zd [simp]: "drop m (Z n) = Z (n - m)" for m n by (simp add: Z_def)
  have r: "replicate 232 (0::byte) = Z 4 @ Z 2 @ Z 2 @ Z 4 @ Z 12 @ Z 16 @ Z 192"
    by (simp add: Z_def flip: replicate_add)
  let ?tail = "[99, 130, 83, 99, End] :: bytes"
  let ?l = "of_nat (length ch) :: byte"
  let ?ch = "ch @ Z (16 - length ch)"
  let ?ci = "To4 ci @ Z (4 - length (To4 ci))"
  have 1: "SetCHAddr ch ([BootRequest, 1, 0, 0] @ Z 4 @ Z 2 @ Z 2 @ Z 4 @ Z 12 @ Z 16 @ Z 192 @ ?tail)
      = Some ([BootRequest, 1, ?l, 0] @ Z 4 @ Z 2 @ Z 2 @ Z 4 @ Z 12 @ ?ch @ Z 192 @ ?tail)"
    unfolding SetCHAddr_def
    using copy_to_window [of "[BootRequest, 1, 0, 0] @ Z 4 @ Z 2 @ Z 2 @ Z 4 @ Z 12" 28 "Z 16" 44 ch "Z 192 @ ?tail"] len
    by (simp add: set_index_def numeral_2_eq_2)
  have 2: "SetXId xid ([BootRequest, 1, ?l, 0] @ Z 4 @ Z 2 @ Z 2 @ Z 4 @ Z 12 @ ?ch @ Z 192 @ ?tail)
      = Some ([BootRequest, 1, ?l, 0] @ xid @ Z 2 @ Z 2 @ Z 4 @ Z 12 @ ?ch @ Z 192 @ ?tail)"
    unfolding SetXId_def
    by (subst copy_to_window) (use len in \<open>simp_all add: Z_def\<close>)
  have 3: "(if ci \<noteq> [] then SetCIAddr ci p else Some p) =
      Some ([BootRequest, 1, ?l, 0] @ xid @ Z 2 @ Z 2 @ ?ci @ Z 12 @ ?ch @ Z 192 @ ?tail)"
    if p: "p = [BootRequest, 1, ?l, 0] @ xid @ Z 2 @ Z 2 @ Z 4 @ Z 12 @ ?ch @ Z 192 @ ?tail" for p
    unfolding SetCIAddr_def
    using copy_to_window [of "[BootRequest, 1, ?l, 0] @ xid @ Z 2 @ Z 2" 12 "Z 4" 16 "To4 ci" "Z 12 @ ?ch @ Z 192 @ ?tail"] len c
    by (simp add: p To4_def)
  have fl: "slice 10 12 ([BootRequest, 1, ?l, 0] @ xid @ Z 2 @ Z 2 @ rest) = Some (Z 2)"
    and n: "([BootRequest, 1, ?l, 0] @ xid @ Z 2 @ Z 2 @ rest) ! 10 = 0"
    and u: "([BootRequest, 1, ?l, 0] @ xid @ Z 2 @ Z 2 @ rest)[10 := 128] = [BootRequest, 1, ?l, 0] @ xid @ Z 2 @ [128, 0] @ rest" for rest
    using len by (auto simp: slice_def Z_def nth_append list_update_append numeral_2_eq_2)
  have 4: "SetBroadcast bc ([BootRequest, 1, ?l, 0] @ xid @ Z 2 @ Z 2 @ ?ci @ Z 12 @ ?ch @ Z 192 @ ?tail)
      = Some (request_header xid bc (To4 ci) ch @ [End])"
    unfolding SetBroadcast_def Broadcast_def Flags_def fl
    using u [of "?ci @ Z 12 @ ?ch @ Z 192 @ ?tail"] n [of "?ci @ Z 12 @ ?ch @ Z 192 @ ?tail"] len
    by (auto simp: index_def set_index_def request_header_def Z_def numeral_2_eq_2)
  show ?thesis
    unfolding NewPacket_eq r append_assoc bind.bind_lunit
    by (simp only: 1 [unfolded append_assoc] 2 [unfolded append_assoc] 3 [OF refl, unfolded append_assoc]
        4 [unfolded append_assoc] bind.bind_lunit)
qed

lemma RequestPacket_eq:
  assumes len: "length xid = 4" "length ch \<le> 16"
  shows "RequestPacket mt ch ci xid bc opts =
    Some (PadToMinSize (request_header xid bc (To4 ci) ch @ opt_bytes (\<lparr>Code = OptionDHCPMessageType, Value = [mt]\<rparr> # opts) @ [End]))"
proof -
  have c: "length (To4 ci) \<le> 4" using length_To4 [of ci] by auto
  define K where "K p = do { p \<leftarrow> AddOption OptionDHCPMessageType [mt] p; p \<leftarrow> AddOptions opts p; Some (PadToMinSize p) }" for p
  have "RequestPacket mt ch ci xid bc opts =
     Option.bind (do { p \<leftarrow> NewPacket BootRequest; p \<leftarrow> SetCHAddr ch p; p \<leftarrow> SetXId xid p;
        p \<leftarrow> (if ci \<noteq> [] then SetCIAddr ci p else Some p); SetBroadcast bc p }) K"
    by (simp add: RequestPacket_def K_def [abs_def])
  also have "\<dots> = K (request_header xid bc (To4 ci) ch @ [End])"
    by (simp only: request_header_writes [OF len c] bind.bind_lunit)
  also have "\<dots> = map_option PadToMinSize (AddOptions (\<lparr>Code = OptionDHCPMessageType, Value = [mt]\<rparr> # opts) (request_header xid bc (To4 ci) ch @ [End]))"
    by (simp add: K_def map_conv_bind_option comp_def)
  finally show ?thesis by (simp add: AddOptions_append del: AddOptions.simps)
qed

lemma request_header_fields:
  assumes "length xid = 4" "length ci \<le> 4" "length ch \<le> 16"
  shows "index (request_header xid bc ci ch) 2 = Some (of_nat (length ch))"
    and "slice 4 8 (request_header xid bc ci ch) = Some xid"
    and "slice 10 12 (request_header xid bc ci ch) = Some [if bc then 128 else 0, 0]"
    and "slice 12 16 (request_header xid bc ci ch) = Some (ci @ replicate (4 - length ci) 0)"
    and "slice 28 (28 + length ch) (request_header xid bc ci ch) = Some ch"
  using assms by (auto simp: index_def slice_def request_header_def)

text \<open>
  C16 (ip_arithmetic): the byte-wise address helpers are the arithmetic and the order of 32-bit words: adding wraps
  modulo \<open>2\<^sup>3\<^sup>2\<close>, the byte loop of IPLess is the unsigned order, IPInRange is membership in the closed
  interval and IPRange its size.
\<close>

theorem ip_arithmetic:
  "IPAdd (PutUint32 v) n = Some (PutUint32 (v + word_of_int n))
   \<and> IPLess (PutUint32 v) (PutUint32 w) = Some (v < w)
   \<and> IPInRange (PutUint32 lo) (PutUint32 hi) (PutUint32 v) = Some (v \<in> {lo..hi})
   \<and> IPRange (PutUint32 lo) (PutUint32 hi) = Some (uint hi - uint lo + 1)"
  by (simp add: IPLess_word IPInRange_word IPRange_word)

end
