(* ===== verification/DhcpServer.thy ===== *)
theory DhcpServer
  imports Dhcp4
begin

text \<open>
  The DHCP server loop (\<^verbatim>\<open>krolaw/dhcp4/server.go\<close>) and the connection wrapper the program
  passes to it (\<^verbatim>\<open>netctrl/dhcpconn.go\<close>). The loop is one step per datagram; the handler it
  calls is an interface, stated as the locale \<open>dhcp_handler\<close>, whose laws the server's lemmas
  rest on and which the program's handler discharges in the theory BridgeDhcp.
\<close>

record UDPAddr =
  addr_IP :: IP
  addr_Port :: int
  addr_Zone :: string

text \<open>
  Host and port of an address, as \<^verbatim>\<open>net.SplitHostPort(addr.String())\<close> gives them: the address
  printed (nothing for nil), with its zone, and the port in decimal.
\<close>

definition SplitHostPort_String :: "UDPAddr \<Rightarrow> string \<times> string" where
  "SplitHostPort_String a =
     (let ip = (if addr_IP a = [] then [] else IP_String (addr_IP a))
      in (if addr_Zone a = [] then ip else ip @ ''%'' @ addr_Zone a, Itoa (addr_Port a)))"

subsection \<open>One turn of the loop\<close>

text \<open>
  What a datagram leads to: going on without writing, writing a packet to an address, or a crash
  because the handler panicked.
\<close>

datatype turn = Skip | Write Packet UDPAddr | Crash

type_synonym 'h dhcp_handler_fn =
  "'h \<Rightarrow> Packet \<Rightarrow> MessageType \<Rightarrow> Options \<Rightarrow> (Packet option \<times> 'h) option"

text \<open>The checks on a datagram before the handler sees it: size, hardware length, message type.\<close>

definition accept :: "bytes \<Rightarrow> (MessageType \<times> Options) option" where
  "accept req =
     (if length req < 240 then None
      else if req ! 2 > 16 then None
      else let options = ParseOptions req in
        case options OptionDHCPMessageType of
          Some [t] \<Rightarrow> if t < Discover \<or> Inform < t then None else Some (t, options)
        | _ \<Rightarrow> None)"

definition reply_addr :: "Packet \<Rightarrow> UDPAddr \<Rightarrow> UDPAddr option" where
  "reply_addr req addr =
     (let (ipStr, portStr) = SplitHostPort_String addr in do {
        b \<leftarrow> Broadcast req;
        Some (if IP_Equal (ParseIP ipStr) IPv4zero \<or> b
              then \<lparr>addr_IP = IPv4bcast, addr_Port = fst (Atoi portStr), addr_Zone = []\<rparr>
              else addr)
      })"

definition serve_datagram ::
  "'h dhcp_handler_fn \<Rightarrow> 'h \<Rightarrow> bytes \<Rightarrow> UDPAddr \<Rightarrow> turn \<times> 'h" where
  "serve_datagram handler h b addr =
     (let req = take 1500 b in
      case accept req of
        None \<Rightarrow> (Skip, h)
      | Some (reqType, options) \<Rightarrow>
          (case handler h req reqType options of
             None \<Rightarrow> (Crash, h)
           | Some (None, h') \<Rightarrow> (Skip, h')
           | Some (Some res, h') \<Rightarrow>
               (case reply_addr req addr of None \<Rightarrow> (Crash, h') | Some a \<Rightarrow> (Write res a, h'))))"

subsection \<open>The loop\<close>

text \<open>
  The connection: what \<^verbatim>\<open>ReadFrom\<close> returns next and whether \<^verbatim>\<open>WriteTo\<close> succeeds are inputs, one
  event per turn of the loop. \<^verbatim>\<open>Serve\<close> consumes events until one makes it return; the packets it
  wrote, in order, are the output. Running out of events is the loop still waiting.
\<close>

datatype 'e conn_event = ReadErr 'e | Datagram bytes UDPAddr "'e option"

datatype 'e serve_result = Waiting | Returned 'e | Crashed

fun Serve ::
  "'h dhcp_handler_fn \<Rightarrow> 'h \<Rightarrow> 'e conn_event list \<Rightarrow> (Packet \<times> UDPAddr) list \<times> 'h \<times> 'e serve_result" where
  "Serve handler h [] = ([], h, Waiting)"
| "Serve handler h (ReadErr e # es) = ([], h, Returned e)"
| "Serve handler h (Datagram b addr werr # es) =
     (case serve_datagram handler h b addr of
        (Write res a, h') \<Rightarrow>
          (case werr of
             Some e \<Rightarrow> ([(res, a)], h', Returned e)
           | None \<Rightarrow> let (out, r) = Serve handler h' es in ((res, a) # out, r))
      | (Crash, h') \<Rightarrow> ([], h', Crashed)
      | (Skip, h') \<Rightarrow> Serve handler h' es)"

subsection \<open>The connection of the bridge\<close>

text \<open>WriteTo of the limited-broadcast listener: the destination the datagram really goes to.\<close>

definition limited_broadcast_dest :: "IP \<Rightarrow> UDPAddr \<Rightarrow> UDPAddr" where
  "limited_broadcast_dest bcastAddr addr =
     (if IP_String (addr_IP addr) = IP_String IPv4bcast then addr\<lparr>addr_IP := bcastAddr\<rparr> else addr)"

text \<open>
  Where a reply goes. A client that asked for a broadcast reply, or that has
  no address yet (its datagram came from 0.0.0.0), is answered on the broadcast address of the
  bridge at the port it sent from; every other client is answered at its own address.
\<close>

theorem reply_destination:
  assumes b: "Broadcast req = Some b" and ip: "To4 (addr_IP addr) \<noteq> []" and z: "addr_Zone addr = []"
    and port: "0 \<le> addr_Port addr" "addr_Port addr < 65536" and nb: "To4 (addr_IP addr) \<noteq> [255, 255, 255, 255]"
  shows "map_option (limited_broadcast_dest bcastAddr) (reply_addr req addr) =
     Some (if b \<or> To4 (addr_IP addr) = [0, 0, 0, 0]
           then \<lparr>addr_IP = bcastAddr, addr_Port = addr_Port addr, addr_Zone = []\<rparr> else addr)"
proof -
  have nonempty: "addr_IP addr \<noteq> []" using ip by (auto simp: To4_def)
  then have hp: "SplitHostPort_String addr = (IP_String (addr_IP addr), Itoa (addr_Port addr))"
    using z by (simp add: SplitHostPort_String_def)
  have port': "fst (Atoi (Itoa (addr_Port addr))) = addr_Port addr"
    using port by (subst Atoi_Itoa) auto
  have t4: "To4 (ParseIP (IP_String (addr_IP addr))) = To4 (addr_IP addr)" by (rule ParseIP_IP_String(2) [OF ip])
  have zero: "IP_Equal (ParseIP (IP_String (addr_IP addr))) IPv4zero \<longleftrightarrow> To4 (addr_IP addr) = [0, 0, 0, 0]"
    using ip t4 by (subst IP_Equal_To4) (auto simp: IPv4zero_def)
  have str: "IP_String (addr_IP addr) \<noteq> IP_String IPv4bcast"
  proof
    assume "IP_String (addr_IP addr) = IP_String IPv4bcast"
    then have "To4 (addr_IP addr) = To4 IPv4bcast"
      using t4 ParseIP_IP_String(2) [of IPv4bcast] by (simp add: IPv4bcast_def)
    with nb show False by (simp add: IPv4bcast_def)
  qed
  show ?thesis
    using b hp port' zero str by (simp add: reply_addr_def limited_broadcast_dest_def)
qed

theorem reply_destination_witness:
  "map_option (limited_broadcast_dest [192, 168, 101, 255])
     (reply_addr (replicate 10 0 @ [128] @ replicate 300 0) \<lparr>addr_IP = [192, 168, 101, 9], addr_Port = 68, addr_Zone = []\<rparr>) =
     Some \<lparr>addr_IP = [192, 168, 101, 255], addr_Port = 68, addr_Zone = []\<rparr>"
proof -
  have b: "Broadcast (replicate 10 0 @ [128] @ replicate 300 0) = Some True"
    by (simp add: Broadcast_def Flags_def slice_def index_def)
  show ?thesis
    using reply_destination [OF b, of "\<lparr>addr_IP = [192, 168, 101, 9], addr_Port = 68, addr_Zone = []\<rparr>" "[192, 168, 101, 255]"]
    by simp
qed

subsection \<open>The handler's contract\<close>

text \<open>
  What the server relies on: a measure of the handler's state that a served datagram moves by at
  most one (\<open>inv n\<close> bounds the state after \<open>n\<close> datagrams), and that a reply carries the
  transaction id and the hardware address of its request.
\<close>

lemma accept_length: "accept req = Some x \<Longrightarrow> 240 \<le> length req"
  by (auto simp: accept_def split: if_splits)

text \<open>What a client's request looks like to the server: accepted, with exactly the options it put in.\<close>

lemma RequestPacket_accept:
  assumes len: "length xid = 4" "length ch \<le> 16" and enc: "list_all encodable opts"
    and small: "length (opt_bytes opts) \<le> 1200" and mt: "Discover \<le> mt" "mt \<le> Inform"
    and once: "OptionDHCPMessageType \<notin> Code ` set opts"
  shows "\<exists>b. RequestPacket mt ch ci xid broadcast opts = Some b \<and> take 1500 b = b
      \<and> accept b = Some (mt, put_options (\<lparr>Code = OptionDHCPMessageType, Value = [mt]\<rparr> # opts) Map.empty)
      \<and> XId b = Some xid \<and> CHAddr b = Some ch \<and> Broadcast b = Some broadcast
      \<and> CIAddr b = Some (To4 ci @ replicate (4 - length (To4 ci)) 0)"
proof -
  let ?h = "request_header xid broadcast (To4 ci) ch"
  let ?opts = "\<lparr>Code = OptionDHCPMessageType, Value = [mt]\<rparr> # opts"
  let ?b = "PadToMinSize (?h @ opt_bytes ?opts @ [End])"
  have c: "length (To4 ci) \<le> 4" using length_To4 [of ci] by auto
  have h: "length ?h = 240" using len c by simp
  note f = request_header_fields [OF len(1) c len(2), of broadcast]
  have encs: "list_all encodable ?opts" using enc by (simp add: encodable_def option_codes)
  have po: "ParseOptions ?b = put_options ?opts Map.empty"
    unfolding ParseOptions_def drop_reply [OF h] by (rule parse_options_loop_opt_bytes [OF encs])
  have "put_options ?opts Map.empty OptionDHCPMessageType = Some [mt]"
    using put_options_notin [OF once] by (simp add: put_options_def)
  moreover have "272 \<le> length ?b" by (simp add: PadToMinSize_def)
  moreover have two: "?b ! 2 = of_nat (length ch)"
    using f(1) h by (auto simp: index_def PadToMinSize_def nth_append split: if_splits)
  have "\<not> 16 < ?b ! 2" unfolding two using len(2) by (simp add: word_less_nat_alt unat_of_nat)
  ultimately have "accept ?b = Some (mt, put_options ?opts Map.empty)"
    using mt by (auto simp: accept_def po not_less)
  moreover have "length ?b \<le> 1500" using small h by (auto simp: PadToMinSize_def opt_bytes_def)
  then have "take 1500 ?b = ?b" by simp
  moreover have "XId ?b = Some xid" "Broadcast ?b = Some broadcast"
      "CIAddr ?b = Some (To4 ci @ replicate (4 - length (To4 ci)) 0)"
    using f(2-4) h by (auto simp: XId_def Flags_def CIAddr_def Broadcast_def slice_PadToMinSize slice_append_left index_def)
  moreover have "CHAddr ?b = Some ch" by (rule CHAddr_header [OF h f(1) len(2) f(5)])
  ultimately show ?thesis using RequestPacket_eq [OF len, of mt ci broadcast opts] by auto
qed

text \<open>
  The packet a client builds with \<^verbatim>\<open>RequestPacket\<close> is accepted by the server's checks,
  and the server reads back exactly what was put in: the message type, the options (the last one
  of each code), the transaction id, the hardware address, the client address and the broadcast flag.
\<close>

theorem request_roundtrip:
  assumes "length xid = 4" "length ch \<le> 16" and "list_all encodable opts"
    and "length (opt_bytes opts) \<le> 1200" and "Discover \<le> mt" "mt \<le> Inform"
    and "OptionDHCPMessageType \<notin> Code ` set opts"
  shows "\<exists>b. RequestPacket mt ch ci xid broadcast opts = Some b
      \<and> accept b = Some (mt, put_options (\<lparr>Code = OptionDHCPMessageType, Value = [mt]\<rparr> # opts) Map.empty)
      \<and> XId b = Some xid \<and> CHAddr b = Some ch \<and> Broadcast b = Some broadcast
      \<and> CIAddr b = Some (To4 ci @ replicate (4 - length (To4 ci)) 0)"
  using RequestPacket_accept [OF assms, of ci broadcast] by blast

theorem request_roundtrip_witness:
  "\<exists>b. RequestPacket Request [2, 0, 0, 0, 0, 1] [] [1, 2, 3, 4] True
         [\<lparr>Code = OptionRequestedIPAddress, Value = [192, 168, 101, 3]\<rparr>] = Some b
      \<and> accept b = Some (Request, [OptionDHCPMessageType \<mapsto> [Request], OptionRequestedIPAddress \<mapsto> [192, 168, 101, 3]])
      \<and> XId b = Some [1, 2, 3, 4] \<and> CHAddr b = Some [2, 0, 0, 0, 0, 1]"
  using request_roundtrip [of "[1, 2, 3, 4]" "[2, 0, 0, 0, 0, 1]"
      "[\<lparr>Code = OptionRequestedIPAddress, Value = [192, 168, 101, 3]\<rparr>]" Request "[]" True]
  by (auto simp: encodable_def opt_bytes_def option_codes message_codes put_options_def)

lemma Serve_append:
  "Serve handler h es = (out, h1, Waiting) \<Longrightarrow>
     Serve handler h (es @ es2) = (let (out2, r) = Serve handler h1 es2 in (out @ out2, r))"
proof (induction es arbitrary: h out)
  case Nil
  then show ?case by (auto split: prod.splits)
next
  case (Cons e es)
  then show ?case
    by (cases e) (auto split: turn.splits option.splits prod.splits)
qed

lemma reply_addr_total: "Broadcast req = Some b \<Longrightarrow> \<exists>a. reply_addr req addr = Some a"
  by (auto simp: reply_addr_def split: prod.splits)

lemma Serve_one:
  assumes "accept b = Some (t, opts)" "take 1500 b = b" "Broadcast b = Some bc" "handler h b t opts = Some (Some r, h')"
  shows "\<exists>a. Serve handler h [Datagram b addr None] = ([(r, a)], h', Waiting)"
  using assms reply_addr_total [of b bc addr] by (auto simp: serve_datagram_def)

text \<open>Either the handler was not asked (or panicked) and its state is unchanged, or it was.\<close>

lemma serve_datagram_cases:
  assumes "serve_datagram handler h b addr = (t, h')"
  obtains (unchanged) "h' = h" "\<And>res a. t \<noteq> Write res a"
    | (served) ty options r where "240 \<le> length (take 1500 b)" "handler h (take 1500 b) ty options = Some (r, h')"
        "\<And>res a. t = Write res a \<Longrightarrow> r = Some res"
proof (cases "accept (take 1500 b)")
  case None
  with assms unchanged show ?thesis by (simp add: serve_datagram_def)
next
  case (Some a)
  obtain ty options where a: "a = (ty, options)" by fastforce
  have len: "240 \<le> length (take 1500 b)" using Some by (rule accept_length)
  show ?thesis
  proof (cases "handler h (take 1500 b) ty options")
    case None
    with assms Some a unchanged show ?thesis by (simp add: serve_datagram_def)
  next
    case (Some x)
    obtain r h1 where x: "x = (r, h1)" by fastforce
    have "h' = h1" "\<And>res a. t = Write res a \<Longrightarrow> r = Some res"
      using assms Some \<open>accept (take 1500 b) = Some a\<close> a x
      by (auto simp: serve_datagram_def split: option.splits)
    with served [OF len, of ty options r] Some x show ?thesis by blast
  qed
qed

locale dhcp_handler =
  fixes handler :: "'h dhcp_handler_fn"
    and inv :: "nat \<Rightarrow> 'h \<Rightarrow> bool"
  assumes inv_mono: "inv n h \<Longrightarrow> inv (Suc n) h"
    and inv_serve: "inv n h \<Longrightarrow> 240 \<le> length req \<Longrightarrow> handler h req t options = Some (r, h') \<Longrightarrow> inv (Suc n) h'"
    and reply_answers: "inv n h \<Longrightarrow> 240 \<le> length req \<Longrightarrow> handler h req t options = Some (Some res, h') \<Longrightarrow> answers req res"
begin

lemma serve_datagram_inv:
  assumes "inv n h" and "serve_datagram handler h b addr = (t, h')"
  shows "inv (Suc n) h'"
  using assms(2)
proof (cases rule: serve_datagram_cases)
  case unchanged
  with assms(1) show ?thesis by (simp add: inv_mono)
next
  case served
  then show ?thesis by (intro inv_serve [OF assms(1)])
qed

lemma serve_datagram_answers:
  assumes "inv n h" and "serve_datagram handler h b addr = (Write res a, h')"
  shows "answers (take 1500 b) res"
  using assms(2)
proof (cases rule: serve_datagram_cases)
  case served
  then show ?thesis by (intro reply_answers [OF assms(1)]) simp_all
qed blast

text \<open>
  Along a run of the server, the handler's state stays within its bound, and every packet
  written answers a datagram that was read.
\<close>

lemma Serve_inv: "inv n h \<Longrightarrow> Serve handler h es = (out, h', r) \<Longrightarrow> \<exists>m \<le> n + length es. inv m h'"
proof (induction es arbitrary: n h out)
  case (Cons ev es)
  show ?case
  proof (cases ev)
    case (Datagram b addr werr)
    obtain t h1 where s: "serve_datagram handler h b addr = (t, h1)" by fastforce
    then have i: "inv (Suc n) h1" by (rule serve_datagram_inv [OF Cons.prems(1)])
    have stop: ?thesis if "h' = h1" using i that by (intro exI [of _ "Suc n"]) simp
    have go: ?thesis if "Serve handler h1 es = (out1, h', r)" for out1
      using Cons.IH [OF i that] by auto
    show ?thesis
    proof (cases t)
      case Skip
      show ?thesis by (rule go [of out]) (use Cons.prems(2) Datagram s Skip in simp)
    next
      case Crash
      show ?thesis by (rule stop) (use Cons.prems(2) Datagram s Crash in simp)
    next
      case (Write res a)
      show ?thesis
        using Cons.prems(2) Datagram s Write go stop by (cases werr) (auto split: prod.splits)
    qed
  qed (use Cons.prems in \<open>auto intro: exI [of _ n]\<close>)
qed auto

lemma Serve_answers:
  "inv n h \<Longrightarrow> Serve handler h es = (out, h', r) \<Longrightarrow> (res, a) \<in> set out \<Longrightarrow>
     \<exists>b addr werr. Datagram b addr werr \<in> set es \<and> answers (take 1500 b) res"
proof (induction es arbitrary: n h out)
  case (Cons ev es)
  show ?case
  proof (cases ev)
    case (Datagram b addr werr)
    obtain t h1 where s: "serve_datagram handler h b addr = (t, h1)" by fastforce
    then have i: "inv (Suc n) h1" by (rule serve_datagram_inv [OF Cons.prems(1)])
    have here: ?thesis if "t = Write res a'" for a'
      using serve_datagram_answers [OF Cons.prems(1) s [unfolded that]] Datagram by auto
    have later: ?thesis if "Serve handler h1 es = (out1, h', r)" "(res, a) \<in> set out1" for out1
      using Cons.IH [OF i that] by auto
    show ?thesis
    proof (cases t)
      case Skip
      show ?thesis by (rule later [of out]) (use Cons.prems(2,3) Datagram s Skip in simp_all)
    next
      case Crash
      with Cons.prems(2,3) Datagram s show ?thesis by auto
    next
      case (Write res' a')
      show ?thesis
        using Cons.prems(2,3) Datagram s Write here later by (cases werr) (auto split: prod.splits)
    qed
  qed (use Cons.prems in auto)
qed auto

end

end
