(* ===== verification/BridgeDhcp.thy ===== *)
theory BridgeDhcp
  imports DhcpServer
begin

text \<open>
  The program's own DHCP handler, \<^verbatim>\<open>ServeDHCP\<close> of \<^verbatim>\<open>netctrl/bridgeServices.go\<close>, and the state
  it keeps: the next free address and the lease table.
\<close>

record bridgeServices =
  bs_name :: string
  debug :: bool
  baseIP :: IP
  next_ip :: IP
  leases :: "string \<rightharpoonup> IP"
  bs_options :: Options

definition lease_duration :: int where
  "lease_duration = 24 * 3600 * Second"

text \<open>The bytes of a map entry; a missing entry is the nil slice.\<close>

definition opt_get :: "Options \<Rightarrow> OptionCode \<Rightarrow> bytes" where
  "opt_get options c = (case options c of Some v \<Rightarrow> v | None \<Rightarrow> [])"

subsection \<open>The handler\<close>

text \<open>
  The branch for a Request that is meant for this server. The first argument is the order in
  which the run time walks the option map (see \<^const>\<open>SelectOrderOrAll\<close>).
\<close>

definition serve_request ::
  "OptionCode list \<Rightarrow> bridgeServices \<Rightarrow> Packet \<Rightarrow> Options \<Rightarrow> (Packet option \<times> bridgeServices) option" where
  "serve_request ks h p options = do {
     let sel = SelectOrderOrAll ks (bs_options h) (options OptionParameterRequestList);
     reqIP \<leftarrow> IPAdd (opt_get options OptionRequestedIPAddress) 0;
     reqIP \<leftarrow> (if reqIP = [] then do { ci \<leftarrow> CIAddr p; IPAdd ci 0 } else Some reqIP);
     ch \<leftarrow> CHAddr p;
     if length reqIP = 4 \<and> \<not> IP_Equal reqIP IPv4zero \<and> IP_Equal reqIP (next_ip h) then do {
       n \<leftarrow> IPAdd (next_ip h) 1;
       let h = h\<lparr>next_ip := n, leases := (leases h)(HardwareAddr_String ch \<mapsto> reqIP)\<rparr>;
       r \<leftarrow> ReplyPacket p ACK (baseIP h) reqIP lease_duration sel;
       Some (Some r, h)
     } else case leases h (HardwareAddr_String ch) of
         Some ip \<Rightarrow>
           if IP_Equal ip reqIP then do {
             r \<leftarrow> ReplyPacket p ACK (baseIP h) reqIP lease_duration sel;
             Some (Some r, h)
           } else do { r \<leftarrow> ReplyPacket p NAK (baseIP h) [] 0 []; Some (Some r, h) }
       | None \<Rightarrow> do { r \<leftarrow> ReplyPacket p NAK (baseIP h) [] 0 []; Some (Some r, h) }
   }"

definition ServeDHCP ::
  "OptionCode list \<Rightarrow> bridgeServices \<Rightarrow> Packet \<Rightarrow> MessageType \<Rightarrow> Options \<Rightarrow> (Packet option \<times> bridgeServices) option" where
  "ServeDHCP ks h p msgType opts = do {
     _ \<leftarrow> (if debug h then do { _ \<leftarrow> MessageType_String msgType; ch \<leftarrow> CHAddr p; Some () } else Some ());
     let options = opts ++ bs_options h;
     if msgType = Discover then do {
       ch \<leftarrow> CHAddr p;
       let sel = SelectOrderOrAll ks (bs_options h) (options OptionParameterRequestList);
       r \<leftarrow> (case leases h (HardwareAddr_String ch) of
               Some ip \<Rightarrow> ReplyPacket p Offer (baseIP h) ip lease_duration sel
             | None \<Rightarrow> ReplyPacket p Offer (baseIP h) (next_ip h) lease_duration sel);
       Some (Some r, h)
     } else if msgType = Request then
       (case options OptionServerIdentifier of
          Some server \<Rightarrow> if \<not> IP_Equal server (baseIP h) then Some (None, h) else serve_request ks h p options
        | None \<Rightarrow> serve_request ks h p options)
     else Some (None, h)
   }"

text \<open>
  The handler as \<^verbatim>\<open>dhcpDNSRoutine\<close> of \<^verbatim>\<open>netctrl/main.go\<close> sets it up: the options it hands out, the
  first free address one past the server's own, no leases, and the broadcast address its
  connection rewrites to.
\<close>

definition dhcp_options :: "IP \<Rightarrow> Options" where
  "dhcp_options bridgeAddr =
     [OptionSubnetMask \<mapsto> [255, 255, 255, 0],
      OptionRouter \<mapsto> To4 bridgeAddr,
      OptionPerformRouterDiscovery \<mapsto> [0],
      OptionDomainNameServer \<mapsto> To4 bridgeAddr @ [8, 8, 8, 8]]"

definition dhcp_setup :: "string \<Rightarrow> bool \<Rightarrow> IP \<Rightarrow> IP \<Rightarrow> (bridgeServices \<times> IP) option" where
  "dhcp_setup name dbg bridgeAddr wlanAddr = do {
     next \<leftarrow> IPAdd wlanAddr 1;
     bcast \<leftarrow> IPAdd next 0;
     bcast \<leftarrow> set_index (length bcast - 1) 255 bcast;
     Some (\<lparr>bs_name = name, debug = dbg, baseIP = wlanAddr, next_ip = next,
            leases = Map.empty, bs_options = dhcp_options bridgeAddr\<rparr>, bcast)
   }"

lemma IPAdd_Some: "IPAdd ip n = Some x \<Longrightarrow> \<exists>v. x = PutUint32 (v + word_of_int n) \<and> Uint32 (To4 ip) = Some v"
  by (cases "Uint32 (To4 ip)") (auto simp: IPAdd_def)

lemma reply_answers_dest:
  "240 \<le> length req \<Longrightarrow> ReplyPacket req mt sid y d opts = Some res \<Longrightarrow> answers req res"
  using ReplyPacket_total [of req mt sid y d opts] by auto

text \<open>
  What a request can do to the handler: nothing, or bind the client to the next address and move
  on to the one after it.
\<close>

definition granted :: "bridgeServices \<Rightarrow> Packet \<Rightarrow> bridgeServices \<Rightarrow> bool" where
  "granted h p h' \<longleftrightarrow> (\<exists>ch reqIP n. CHAddr p = Some ch \<and> length reqIP = 4 \<and> IP_Equal reqIP (next_ip h) \<and>
     IPAdd (next_ip h) 1 = Some n \<and>
     h' = h\<lparr>next_ip := n, leases := (leases h)(HardwareAddr_String ch \<mapsto> reqIP)\<rparr>)"

lemma serve_request_effect:
  assumes "serve_request ks h p options = Some (r, h')"
  shows "h' = h \<or> granted h p h'"
    and "240 \<le> length p \<Longrightarrow> r = Some res \<Longrightarrow> answers p res"
proof -
  from assms show "h' = h \<or> granted h p h'"
    unfolding serve_request_def granted_def
    by (auto simp: Let_def bind_eq_Some_conv split: option.splits if_splits)
  assume "240 \<le> length p" "r = Some res"
  with assms show "answers p res"
    unfolding serve_request_def
    by (auto simp: Let_def bind_eq_Some_conv split: option.splits if_splits intro: reply_answers_dest)
qed

lemma ServeDHCP_effect:
  assumes "ServeDHCP ks h p t options = Some (r, h')"
  shows "h' = h \<or> (t = Request \<and> granted h p h')"
    and "240 \<le> length p \<Longrightarrow> r = Some res \<Longrightarrow> answers p res"
proof -
  from assms show "h' = h \<or> (t = Request \<and> granted h p h')"
    unfolding ServeDHCP_def
    by (auto simp: Let_def bind_eq_Some_conv split: option.splits if_splits dest: serve_request_effect(1))
  assume "240 \<le> length p" "r = Some res"
  with assms show "answers p res"
    unfolding ServeDHCP_def
    by (auto simp: Let_def bind_eq_Some_conv split: option.splits if_splits
        intro: reply_answers_dest dest: serve_request_effect(2))
qed

definition lease_inv :: "32 word \<Rightarrow> nat \<Rightarrow> bridgeServices \<Rightarrow> bool" where
  "lease_inv base n h \<longleftrightarrow> (\<exists>k \<le> n. baseIP h = PutUint32 base \<and> next_ip h = PutUint32 (base + 1 + of_nat k) \<and>
     (\<forall>c ip. leases h c = Some ip \<longrightarrow> (\<exists>j < k. ip = PutUint32 (base + 1 + of_nat j))) \<and>
     (k \<le> 2 ^ 32 \<longrightarrow> (\<forall>c d ip. leases h c = Some ip \<longrightarrow> leases h d = Some ip \<longrightarrow> c = d)))"

lemma of_nat_word32_inject:
  "j < k \<Longrightarrow> k < 2 ^ 32 \<Longrightarrow> (of_nat j :: 32 word) \<noteq> of_nat k"
  by (simp add: word_of_nat_eq_iff take_bit_eq_mod)


lemma lease_inv_mono: "lease_inv base n h \<Longrightarrow> lease_inv base (Suc n) h"
  unfolding lease_inv_def using le_SucI by blast

lemma lease_inv_granted:
  assumes inv: "lease_inv base n h" and g: "granted h p h'"
  shows "lease_inv base (Suc n) h'"
proof -
  from inv obtain k where k: "k \<le> n" and base: "baseIP h = PutUint32 base"
    and nxt: "next_ip h = PutUint32 (base + 1 + of_nat k)"
    and old: "\<And>c ip. leases h c = Some ip \<Longrightarrow> \<exists>j < k. ip = PutUint32 (base + 1 + of_nat j)"
    and inj: "\<And>c d ip. k \<le> 2 ^ 32 \<Longrightarrow> leases h c = Some ip \<Longrightarrow> leases h d = Some ip \<Longrightarrow> c = d"
    unfolding lease_inv_def by blast
  from g obtain ch where h': "h' = h\<lparr>next_ip := PutUint32 (base + 1 + of_nat (Suc k)),
      leases := (leases h)(HardwareAddr_String ch \<mapsto> next_ip h)\<rparr>"
    by (auto simp: granted_def nxt IP_Equal_same_length algebra_simps)
  have new: "\<exists>j < Suc k. ip = PutUint32 (base + 1 + of_nat j)" if "leases h' c = Some ip" for c ip
  proof (cases "c = HardwareAddr_String ch")
    case True
    with that nxt show ?thesis by (auto simp: h')
  next
    case False
    with that old [of c ip] show ?thesis by (auto simp: h' intro: less_SucI)
  qed
  have fresh: "ip \<noteq> next_ip h" if le: "Suc k \<le> 2 ^ 32" and c: "leases h c = Some ip" for c ip
  proof -
    from old [OF c] obtain j where j: "j < k" and ip: "ip = PutUint32 (base + 1 + of_nat j)" by blast
    from j le have "(of_nat j :: 32 word) \<noteq> of_nat k" by (intro of_nat_word32_inject) auto
    then show ?thesis by (simp add: ip nxt)
  qed
  have uniq: "c = d" if "Suc k \<le> 2 ^ 32" "leases h' c = Some ip" "leases h' d = Some ip" for c d ip
    using that inj [of c ip d] fresh [of c ip] fresh [of d ip] unfolding h' by (simp split: if_splits)
  have "baseIP h' = PutUint32 base" "next_ip h' = PutUint32 (base + 1 + of_nat (Suc k))"
    using base by (simp_all add: h')
  with k new uniq show ?thesis
    unfolding lease_inv_def by (intro exI [of _ "Suc k"]) blast
qed

lemma lease_inv_serve:
  "lease_inv base n h \<Longrightarrow> ServeDHCP ks h p t options = Some (r, h') \<Longrightarrow> lease_inv base (Suc n) h'"
  using ServeDHCP_effect(1) [of ks h p t options r h'] lease_inv_granted lease_inv_mono by blast

interpretation bridge: dhcp_handler "ServeDHCP ks" "lease_inv base" for ks base
  by unfold_locales (auto intro: lease_inv_mono lease_inv_serve dest: ServeDHCP_effect(2))

lemma lease_inv_setup:
  "dhcp_setup name dbg bridgeAddr (PutUint32 base) = Some (h, bcast) \<Longrightarrow> lease_inv base 0 h"
  by (auto simp: dhcp_setup_def lease_inv_def bind_eq_Some_conv)

text \<open>What the handler keeps of its set-up, and the options it hands out.\<close>

lemma ServeDHCP_frame:
  "ServeDHCP ks h p t options = Some (r, h') \<Longrightarrow>
     bs_options h' = bs_options h \<and> baseIP h' = baseIP h \<and> debug h' = debug h \<and> bs_name h' = bs_name h"
  by (drule ServeDHCP_effect(1)) (auto simp: granted_def)

definition handler_ok :: "OptionCode list \<Rightarrow> bridgeServices \<Rightarrow> bool" where
  "handler_ok ks h \<longleftrightarrow> range_order (bs_options h) ks \<and> length (baseIP h) = 4 \<and>
     (\<exists>bridgeAddr. bs_options h = dhcp_options bridgeAddr)"

lemma dhcp_options_dom:
  "dhcp_options b c = Some v \<Longrightarrow> c \<in> {OptionSubnetMask, OptionRouter, OptionPerformRouterDiscovery, OptionDomainNameServer}
     \<and> length v \<le> 8"
  using length_To4 [of b] by (auto simp: dhcp_options_def split: if_splits)

lemma SelectOrder_in: "x \<in> set (SelectOrder o' ord) \<Longrightarrow> o' (Code x) = Some (Value x)"
  by (induction ord) (auto split: option.splits)

lemma SelectOrderOrAll_in:
  "range_order o' ks \<Longrightarrow> x \<in> set (SelectOrderOrAll ks o' ord) \<Longrightarrow> o' (Code x) = Some (Value x)"
  by (auto simp: SelectOrderOrAll_def range_order_def split: option.splits dest: SelectOrder_in)

lemma selected_encodable:
  assumes "handler_ok ks h" and "x \<in> set (SelectOrderOrAll ks (bs_options h) ord)"
  shows "encodable x" and "Code x \<noteq> OptionDHCPMessageType" and "Code x \<noteq> OptionServerIdentifier"
    and "Code x \<noteq> OptionIPAddressLeaseTime"
proof -
  from assms obtain b where "dhcp_options b (Code x) = Some (Value x)"
    unfolding handler_ok_def using SelectOrderOrAll_in by metis
  from dhcp_options_dom [OF this] show "encodable x" and "Code x \<noteq> OptionDHCPMessageType"
    and "Code x \<noteq> OptionServerIdentifier" and "Code x \<noteq> OptionIPAddressLeaseTime"
    by (auto simp: encodable_def option_codes)
qed

text \<open>The reply to a request, as a client reads it: message type, server and address.\<close>

lemma bridge_reply:
  assumes ok: "handler_ok ks h" and req: "240 \<le> length p" and ip: "length ip = 4"
  obtains r where "ReplyPacket p mt (baseIP h) ip lease_duration (SelectOrderOrAll ks (bs_options h) ord) = Some r"
    and "answers p r" and "YIAddr r = Some ip"
    and "ParseOptions r OptionDHCPMessageType = Some [mt]"
    and "ParseOptions r OptionServerIdentifier = Some (baseIP h)"
    and "ParseOptions r OptionIPAddressLeaseTime = Some (PutUint32 86400)"
proof -
  let ?sel = "SelectOrderOrAll ks (bs_options h) ord"
  obtain r where r: "ReplyPacket p mt (baseIP h) ip lease_duration ?sel = Some r" "answers p r"
    and y: "YIAddr r = Some ip"
    using ReplyPacket_total [OF req, of mt "baseIP h" ip lease_duration ?sel] ip by auto
  have enc: "list_all encodable ?sel" using selected_encodable(1) [OF ok] by (auto simp: list_all_iff)
  have len: "length (baseIP h) < 256" using ok by (simp add: handler_ok_def)
  note po = ReplyPacket_options [OF r(1) req len enc]
  have no: "OptionDHCPMessageType \<notin> Code ` set ?sel" "OptionServerIdentifier \<notin> Code ` set ?sel"
      "OptionIPAddressLeaseTime \<notin> Code ` set ?sel"
    using selected_encodable(2-4) [OF ok] by (metis image_iff)+
  have pos: "0 < lease_duration" "OptionsLeaseTime lease_duration = PutUint32 86400"
    by (simp_all add: lease_duration_def Second_def OptionsLeaseTime_def)
  have "reply_options mt (baseIP h) lease_duration ?sel = take 3 (reply_options mt (baseIP h) lease_duration ?sel) @ ?sel"
    using pos by (simp add: reply_options_def)
  then have "ParseOptions r c = put_options (take 3 (reply_options mt (baseIP h) lease_duration ?sel)) Map.empty c"
    if "c \<notin> Code ` set ?sel" for c
    using put_options_notin [OF that] po put_options_append by metis
  with no pos have "ParseOptions r OptionDHCPMessageType = Some [mt]"
    "ParseOptions r OptionServerIdentifier = Some (baseIP h)"
    "ParseOptions r OptionIPAddressLeaseTime = Some (PutUint32 86400)"
    by (simp_all add: reply_options_def put_options_def option_codes)
  with r y that show ?thesis by blast
qed


lemma IPAdd_0:
  assumes "length ip = 4"
  shows "IPAdd ip 0 = Some ip"
proof -
  obtain v where v: "Uint32 ip = Some v"
    using assms by (auto simp: Uint32_def numeral_eq_Suc length_Suc_conv)
  then have "ip = PutUint32 v"
    using assms by (auto simp: Uint32_Some_iff)
  then show ?thesis by simp
qed

lemma CHAddr_total: "240 \<le> length p \<Longrightarrow> \<exists>ch. CHAddr p = Some ch"
  using packet_reads by metis

lemma known_types: "MessageType_String Discover = Some ''Discover''" "MessageType_String Request = Some ''Request''"
  by code_simp+

lemma handler_option_free:
  "handler_ok ks h \<Longrightarrow> (opts ++ bs_options h) OptionRequestedIPAddress = opts OptionRequestedIPAddress"
  "handler_ok ks h \<Longrightarrow> (opts ++ bs_options h) OptionServerIdentifier = opts OptionServerIdentifier"
  "handler_ok ks h \<Longrightarrow> (opts ++ bs_options h) OptionParameterRequestList = opts OptionParameterRequestList"
  by (auto simp: handler_ok_def map_add_def dhcp_options_def option_codes)

lemma serve_discover:
  assumes ok: "handler_ok ks h" and p: "240 \<le> length p" "CHAddr p = Some ch"
    and ip: "ip = (case leases h (HardwareAddr_String ch) of Some ip \<Rightarrow> ip | None \<Rightarrow> next_ip h)" "length ip = 4"
  obtains r where "ServeDHCP ks h p Discover opts = Some (Some r, h)"
    and "answers p r" and "YIAddr r = Some ip" and "ParseOptions r OptionDHCPMessageType = Some [Offer]"
    and "ParseOptions r OptionServerIdentifier = Some (baseIP h)"
proof -
  obtain r where r: "ReplyPacket p Offer (baseIP h) ip lease_duration
        (SelectOrderOrAll ks (bs_options h) (opts OptionParameterRequestList)) = Some r"
    and "answers p r" "YIAddr r = Some ip" "ParseOptions r OptionDHCPMessageType = Some [Offer]"
      "ParseOptions r OptionServerIdentifier = Some (baseIP h)"
    using bridge_reply [OF ok p(1) ip(2), of Offer "opts OptionParameterRequestList"] by blast
  moreover have "ServeDHCP ks h p Discover opts = Some (Some r, h)"
    using r ip(1) p(2) unfolding ServeDHCP_def
    by (simp add: known_types handler_option_free(3) [OF ok] split: option.splits)
  ultimately show ?thesis using that by blast
qed

definition for_us :: "bridgeServices \<Rightarrow> Options \<Rightarrow> bool" where
  "for_us h opts \<longleftrightarrow> (case opts OptionServerIdentifier of None \<Rightarrow> True | Some s \<Rightarrow> IP_Equal s (baseIP h))"

lemma ServeDHCP_request:
  assumes ok: "handler_ok ks h" and p: "240 \<le> length p" "CHAddr p = Some ch" and us: "for_us h opts"
  shows "ServeDHCP ks h p Request opts = serve_request ks h p (opts ++ bs_options h)"
proof -
  have "Request \<noteq> Discover" by (simp add: Discover_def Request_def)
  with us p(2) show ?thesis unfolding ServeDHCP_def for_us_def
    by (simp add: known_types handler_option_free(2) [OF ok] split: option.splits)
qed

lemma serve_request_next:
  assumes ok: "handler_ok ks h" and p: "240 \<le> length p" "CHAddr p = Some ch" and us: "for_us h opts"
    and ip: "opts OptionRequestedIPAddress = Some (next_ip h)" "next_ip h = PutUint32 v" "v \<noteq> 0"
  obtains r where "ServeDHCP ks h p Request opts = Some (Some r,
        h\<lparr>next_ip := PutUint32 (v + 1), leases := (leases h)(HardwareAddr_String ch \<mapsto> next_ip h)\<rparr>)"
    and "answers p r" and "YIAddr r = Some (next_ip h)" and "ParseOptions r OptionDHCPMessageType = Some [ACK]"
    and "ParseOptions r OptionServerIdentifier = Some (baseIP h)"
proof -
  let ?h = "h\<lparr>next_ip := PutUint32 (v + 1), leases := (leases h)(HardwareAddr_String ch \<mapsto> next_ip h)\<rparr>"
  have ok': "handler_ok ks ?h" using ok by (simp add: handler_ok_def)
  have l: "length (next_ip h) = 4" using ip(2) by simp
  obtain r where r: "ReplyPacket p ACK (baseIP h) (next_ip h) lease_duration
        (SelectOrderOrAll ks (bs_options h) (opts OptionParameterRequestList)) = Some r"
    and "answers p r" "YIAddr r = Some (next_ip h)" "ParseOptions r OptionDHCPMessageType = Some [ACK]"
      "ParseOptions r OptionServerIdentifier = Some (baseIP h)"
    using bridge_reply [OF ok p(1) l, of ACK "opts OptionParameterRequestList"] by blast
  moreover have "\<not> IP_Equal (next_ip h) IPv4zero"
    using ip(2,3) IP_Equal_To4 [of "next_ip h" IPv4zero] by (auto simp: IPv4zero_def PutUint32_zero_iff PutUint32_nonempty)
  then have "ServeDHCP ks h p Request opts = Some (Some r, ?h)"
    using r p(2) ip unfolding ServeDHCP_request [OF ok p us] serve_request_def
    by (simp add: opt_get_def handler_option_free [OF ok] IPAdd_0 [OF l])
  ultimately show ?thesis using that by blast
qed

lemma serve_request_other:
  assumes ok: "handler_ok ks h" and p: "240 \<le> length p" "CHAddr p = Some ch" and us: "for_us h opts"
    and ip: "opts OptionRequestedIPAddress = Some ip" "length ip = 4" "length (next_ip h) = 4" "ip \<noteq> next_ip h"
    and l: "\<And>ip'. leases h (HardwareAddr_String ch) = Some ip' \<Longrightarrow> length ip' = 4 \<and> ip' \<noteq> ip"
  obtains r where "ServeDHCP ks h p Request opts = Some (Some r, h)"
    and "answers p r" and "YIAddr r = Some [0, 0, 0, 0]" and "ParseOptions r OptionDHCPMessageType = Some [NAK]"
proof -
  obtain r where r: "ReplyPacket p NAK (baseIP h) [] 0 [] = Some r" "answers p r" "YIAddr r = Some [0, 0, 0, 0]"
    using ReplyPacket_total [OF p(1), of NAK "baseIP h" "[]" 0 "[]"] by (auto simp: To4_def numeral_eq_Suc)
  have "length (baseIP h) < 256" using ok by (simp add: handler_ok_def)
  from ReplyPacket_options [OF r(1) p(1) this] have "ParseOptions r OptionDHCPMessageType = Some [NAK]"
    by (simp add: reply_options_def put_options_def option_codes)
  moreover have "ServeDHCP ks h p Request opts = Some (Some r, h)"
    using r(1) p(2) ip l unfolding ServeDHCP_request [OF ok p us] serve_request_def
    by (auto simp: opt_get_def handler_option_free [OF ok] IPAdd_0 IP_Equal_same_length split: option.splits)
  ultimately show ?thesis using r that by blast
qed

text \<open>
  C10 (dhcp_exchange): the whole exchange. A client without a lease that sends Discover is offered the next free
  address; its Request for that address, addressed to this server or to none, is acknowledged
  with the same address and recorded in the lease table; a later Discover of the same client is
  offered that address again.
\<close>

theorem dhcp_exchange:
  assumes ok: "handler_ok ks h"
    and inv: "lease_inv base n h"
    and nz: "next_ip h \<noteq> [0, 0, 0, 0]"
    and new: "leases h (HardwareAddr_String ch) = None"
    and p: "240 \<le> length p" "CHAddr p = Some ch" and q: "240 \<le> length q" "CHAddr q = Some ch"
    and us: "for_us h opts" and req: "opts OptionRequestedIPAddress = Some (next_ip h)"
  shows "\<exists>offer ack offer' h'.
     ServeDHCP ks h p Discover dopts = Some (Some offer, h)
     \<and> answers p offer \<and> ParseOptions offer OptionDHCPMessageType = Some [Offer] \<and> YIAddr offer = Some (next_ip h)
     \<and> ServeDHCP ks h q Request opts = Some (Some ack, h')
     \<and> answers q ack \<and> ParseOptions ack OptionDHCPMessageType = Some [ACK] \<and> YIAddr ack = Some (next_ip h)
     \<and> leases h' = (leases h)(HardwareAddr_String ch \<mapsto> next_ip h)
     \<and> ServeDHCP ks h' p Discover dopts = Some (Some offer', h') \<and> YIAddr offer' = Some (next_ip h)"
proof -
  from inv obtain v where v: "next_ip h = PutUint32 v" by (auto simp: lease_inv_def)
  with nz have v0: "v \<noteq> 0" by (simp add: PutUint32_zero_iff)
  have l4: "length (next_ip h) = 4" using v by simp
  obtain offer where o: "ServeDHCP ks h p Discover dopts = Some (Some offer, h)"
      "answers p offer" "YIAddr offer = Some (next_ip h)" "ParseOptions offer OptionDHCPMessageType = Some [Offer]"
    using serve_discover [OF ok p, of "next_ip h" dopts] new l4 by auto
  let ?h = "h\<lparr>next_ip := PutUint32 (v + 1), leases := (leases h)(HardwareAddr_String ch \<mapsto> next_ip h)\<rparr>"
  obtain ack where a: "ServeDHCP ks h q Request opts = Some (Some ack, ?h)"
      "answers q ack" "YIAddr ack = Some (next_ip h)" "ParseOptions ack OptionDHCPMessageType = Some [ACK]"
    using serve_request_next [OF ok q us req v v0] by blast
  have ok': "handler_ok ks ?h" using ok by (simp add: handler_ok_def)
  obtain offer' where "ServeDHCP ks ?h p Discover dopts = Some (Some offer', ?h)" "YIAddr offer' = Some (next_ip h)"
    using serve_discover [OF ok' p, of "next_ip h" dopts] l4 by auto
  with o a show ?thesis by auto
qed

lemma handler_ok_setup:
  "dhcp_setup name dbg bridgeAddr (PutUint32 base) = Some (h, bcast) \<Longrightarrow>
     range_order (dhcp_options bridgeAddr) ks \<Longrightarrow> handler_ok ks h"
  by (auto simp: dhcp_setup_def bind_eq_Some_conv handler_ok_def)

lemma range_order_example: "range_order (dhcp_options b) [1, 3, 31, 6]"
  by (auto simp: range_order_def dhcp_options_def option_codes)

text \<open>
  C12 (renewal_crashes): a client that renews its lease sends a Request without the requested-address option and
  its own address in \<^verbatim>\<open>ciaddr\<close>. \<^verbatim>\<open>IPAdd\<close> is applied to the missing option before the fallback to
  \<^verbatim>\<open>ciaddr\<close> is reached, reads four bytes of nil and panics: such a datagram crashes the server.
\<close>

theorem renewal_crashes:
  assumes "handler_ok ks h" and "accept (take 1500 b) = Some (Request, opts)" and "for_us h opts"
    and "opts OptionRequestedIPAddress = None"
  shows "Serve (ServeDHCP ks) h (Datagram b addr werr # es) = ([], h, Crashed)"
proof -
  have len: "240 \<le> length (take 1500 b)" using assms(2) by (rule accept_length)
  then obtain ch where ch: "CHAddr (take 1500 b) = Some ch" using CHAddr_total by blast
  have "ServeDHCP ks h (take 1500 b) Request opts = None"
    using assms(4) unfolding ServeDHCP_request [OF assms(1) len ch assms(3)] serve_request_def
    by (simp add: opt_get_def handler_option_free [OF assms(1)] IPAdd_def To4_def Uint32_def)
  then show ?thesis using assms(2) by (simp add: serve_datagram_def)
qed

theorem renewal_crashes_witness:
  "\<exists>h bcast b. dhcp_setup ''box'' False [192, 168, 101, 1] [192, 168, 101, 2] = Some (h, bcast)
     \<and> RequestPacket Request [2, 0, 0, 0, 0, 1] [192, 168, 101, 7] [1, 2, 3, 4] False [] = Some b
     \<and> Serve (ServeDHCP [1, 3, 31, 6]) h [Datagram b \<lparr>addr_IP = [192, 168, 101, 7], addr_Port = 68, addr_Zone = []\<rparr> None]
       = ([], h, Crashed :: string serve_result)"
proof -
  obtain h bcast where h: "dhcp_setup ''box'' False [192, 168, 101, 1] [192, 168, 101, 2] = Some (h, bcast)"
    and hd: "h = \<lparr>bs_name = ''box'', debug = False, baseIP = [192, 168, 101, 2], next_ip = [192, 168, 101, 3],
       leases = Map.empty, bs_options = dhcp_options [192, 168, 101, 1]\<rparr>"
    by (simp add: dhcp_setup_def IPAdd_def Uint32_def To4_def PutUint32_def set_index_def)
  have base: "[192, 168, 101, 2] = PutUint32 0xC0A86502" by (simp add: PutUint32_def)
  have ok: "handler_ok [1, 3, 31, 6] h"
    using h range_order_example unfolding base by (rule handler_ok_setup)
  let ?b = "PadToMinSize (request_header [1, 2, 3, 4] False [192, 168, 101, 7] [2, 0, 0, 0, 0, 1] @
     opt_bytes [\<lparr>Code = OptionDHCPMessageType, Value = [Request]\<rparr>] @ [End])"
  have b: "RequestPacket Request [2, 0, 0, 0, 0, 1] [192, 168, 101, 7] [1, 2, 3, 4] False [] = Some ?b"
    by (simp add: RequestPacket_eq)
  have acc: "accept (take 1500 ?b) = Some (Request, [OptionDHCPMessageType \<mapsto> [Request]])"
    by code_simp
  have us: "for_us h [OptionDHCPMessageType \<mapsto> [Request]]" by (simp add: for_us_def option_codes)
  have none: "[OptionDHCPMessageType \<mapsto> [Request]] OptionRequestedIPAddress = None" by (simp add: option_codes)
  show ?thesis using h b renewal_crashes [OF ok acc us none] by blast
qed

definition client_addr :: UDPAddr where
  "client_addr = \<lparr>addr_IP = [0, 0, 0, 0], addr_Port = 68, addr_Zone = []\<rparr>"

abbreviation greedy :: bytes where "greedy \<equiv> [2, 0, 0, 0, 0, 1]"

lemma request_next_step:
  assumes ok: "handler_ok ks h" and nxt: "next_ip h = PutUint32 v" "v \<noteq> 0"
  obtains b out h' where "Serve (ServeDHCP ks) h [Datagram b client_addr None :: 'e conn_event] = (out, h', Waiting)"
    and "handler_ok ks h'" and "next_ip h' = PutUint32 (v + 1)"
    and "\<And>c. c \<noteq> HardwareAddr_String greedy \<Longrightarrow> leases h' c = leases h c"
    and "leases h' (HardwareAddr_String greedy) = Some (next_ip h)" and "out \<noteq> []"
proof -
  let ?ch = greedy
  let ?h' = "h\<lparr>next_ip := PutUint32 (v + 1), leases := (leases h)(HardwareAddr_String ?ch \<mapsto> next_ip h)\<rparr>"
  let ?o = "[\<lparr>Code = OptionRequestedIPAddress, Value = next_ip h\<rparr>]"
  have enc: "list_all encodable ?o" "length (opt_bytes ?o) \<le> 1200" "OptionDHCPMessageType \<notin> Code ` set ?o"
    using nxt by (auto simp: encodable_def option_codes opt_bytes_def)
  have mt: "Discover \<le> Request" "Request \<le> Inform" by (simp_all add: message_codes)
  obtain b where b: "take 1500 b = b" "CHAddr b = Some ?ch" "Broadcast b = Some True"
    and acc: "accept b = Some (Request, put_options (\<lparr>Code = OptionDHCPMessageType, Value = [Request]\<rparr> # ?o) Map.empty)"
    using RequestPacket_accept [of "[1, 2, 3, 4]" ?ch ?o Request "[]" True] enc mt by auto
  let ?opts = "put_options (\<lparr>Code = OptionDHCPMessageType, Value = [Request]\<rparr> # ?o) Map.empty"
  have len: "240 \<le> length b" using acc by (rule accept_length)
  have us: "for_us h ?opts" and req: "?opts OptionRequestedIPAddress = Some (next_ip h)"
    by (simp_all add: for_us_def put_options_def option_codes)
  obtain r where r: "ServeDHCP ks h b Request ?opts = Some (Some r,
        ?h')"
    using serve_request_next [OF ok len b(2) us req nxt] by blast
  from Serve_one [where handler = "ServeDHCP ks" and addr = client_addr, OF acc b(1,3) r] obtain a
    where s: "Serve (ServeDHCP ks) h [Datagram b client_addr None :: 'e conn_event] = ([(r, a)], ?h', Waiting)" by blast
  have "handler_ok ks ?h'" using ok by (simp add: handler_ok_def)
  then show ?thesis by (rule that [OF s]) simp_all
qed

lemma pool_run:
  assumes "handler_ok ks h" and "next_ip h = PutUint32 v" and "unat v + n < 2 ^ 32" and "v \<noteq> 0"
  shows "\<exists>(es :: 'e conn_event list) out h'. length es = n \<and> Serve (ServeDHCP ks) h es = (out, h', Waiting)
      \<and> handler_ok ks h' \<and> next_ip h' = PutUint32 (v + of_nat n)
      \<and> (\<forall>c. c \<noteq> HardwareAddr_String greedy \<longrightarrow> leases h' c = leases h c)"
  using assms(3)
proof (induction n)
  case 0
  show ?case using assms by (intro exI [of _ "[]"]) simp
next
  case (Suc n)
  then obtain es :: "'e conn_event list" and out h1 where es: "length es = n" "Serve (ServeDHCP ks) h es = (out, h1, Waiting)"
    and ok1: "handler_ok ks h1" and n1: "next_ip h1 = PutUint32 (v + of_nat n)"
    and l1: "\<And>c. c \<noteq> HardwareAddr_String greedy \<Longrightarrow> leases h1 c = leases h c" by auto
  have "v + of_nat n \<noteq> 0"
  proof
    assume "v + of_nat n = 0"
    then have "unat v + n = 0"
      using Suc.prems unat_word_ariths(1) [of v "of_nat n"] by (simp add: unat_of_nat)
    with assms(4) show False by (simp add: unat_0_iff)
  qed
  then obtain b out2 h2 where "Serve (ServeDHCP ks) h1 [Datagram b client_addr None :: 'e conn_event] = (out2, h2, Waiting)"
    and "handler_ok ks h2" and "next_ip h2 = PutUint32 (v + of_nat n + 1)"
    and "\<And>c. c \<noteq> HardwareAddr_String greedy \<Longrightarrow> leases h2 c = leases h1 c"
    using request_next_step [OF ok1 n1] by metis
  then show ?case using es l1 Serve_append [OF es(2), of "[Datagram b client_addr None]"]
    by (intro exI [of _ "es @ [Datagram b client_addr None]"] exI [of _ "out @ out2"] exI [of _ h2])
      (simp add: add.assoc add.commute)
qed


lemma PutUint32_eq_iff_unat: "length p = 4 \<Longrightarrow> map unat p = map unat (PutUint32 v) \<longleftrightarrow> p = PutUint32 v"
  by (simp add: inj_map_eq_map inj_def word_unat_eq_iff)

text \<open>The address the set-up computes for broadcasts is the last one of the next address's block of 256.\<close>

lemma setup_bcast:
  assumes st: "dhcp_setup name dbg bridgeAddr (PutUint32 base) = Some (h, bcast)" and r: "unat base mod 256 < 255"
  shows "bcast = PutUint32 (base + 1 + of_nat (254 - unat base mod 256))"
    and "unat (base + 1) + (254 - unat base mod 256) < 2 ^ 32" and "base + 1 \<noteq> 0"
proof -
  let ?m = "unat base"
  have b: "?m < 2 ^ 32" using unsigned_less [of base, where ?'a = nat] by simp
  have "?m \<noteq> 4294967295"
  proof
    assume "?m = 4294967295"
    with r show False by simp
  qed
  with b have m1: "?m + 1 < 2 ^ 32" by simp
  then have one: "unat (base + 1) = ?m + 1"
    using unat_word_ariths(1) [of base 1] by simp
  have q: "?m = 256 * (?m div 256) + ?m mod 256" by simp
  have s: "?m + 1 + (254 - ?m mod 256) = 256 * (?m div 256) + 255" using r q by linarith
  have q24: "?m div 256 < 2 ^ 24" using b by simp
  then have v32: "256 * (?m div 256) + 255 < 2 ^ 32" by simp
  have "base + 1 + of_nat (254 - ?m mod 256) = of_nat (?m + 1 + (254 - ?m mod 256))" by simp
  then have v: "unat (base + 1 + of_nat (254 - ?m mod 256)) = 256 * (?m div 256) + 255"
    unfolding s using v32 by (simp only: unat_of_nat) simp
  have "(m + 1) div 256 = m div 256" if "m mod 256 < 255" for m :: nat
    using that by (simp add: div_Suc mod_Suc)
  from this [OF r] have "(?m + 1) div 256 = ?m div 256" .
  then have d: "(?m + 1) div 2 ^ 8 = ?m div 256" "(256 * (?m div 256) + 255) div 2 ^ 8 = ?m div 256"
    by simp_all
  have up: "x div 2 ^ 24 = x div 2 ^ 8 div 2 ^ 16" "x div 2 ^ 16 = x div 2 ^ 8 div 2 ^ 8" for x :: nat
    by (simp_all flip: div_mult2_eq)
  from st have "bcast = (PutUint32 (base + 1))[3 := 255]"
    by (auto simp: dhcp_setup_def bind_eq_Some_conv set_index_def)
  moreover have "map unat ((PutUint32 (base + 1))[3 := 255]) = map unat (PutUint32 (base + 1 + of_nat (254 - ?m mod 256)))"
    unfolding map_update PutUint32_unat one v up d by simp
  ultimately show "bcast = PutUint32 (base + 1 + of_nat (254 - unat base mod 256))"
    by (simp add: PutUint32_eq_iff_unat)
  show "unat (base + 1) + (254 - unat base mod 256) < 2 ^ 32" unfolding one s by (rule v32)
  show "base + 1 \<noteq> 0" using one by (metis add_is_0 one_neq_zero unat_0_iff)
qed


text \<open>The handler of the example configuration, for the concrete instances below.\<close>

definition example_handler :: bridgeServices where
  "example_handler = \<lparr>bs_name = ''box'', debug = False, baseIP = PutUint32 0xC0A86502, next_ip = PutUint32 0xC0A86503,
     leases = Map.empty, bs_options = dhcp_options [192, 168, 101, 1]\<rparr>"

lemma example_setup:
  "dhcp_setup ''box'' False [192, 168, 101, 1] (PutUint32 0xC0A86502) = Some (example_handler, [192, 168, 101, 255])"
  by (simp add: dhcp_setup_def example_handler_def set_index_def) (simp add: PutUint32_def)

text \<open>
  C13 (broadcast_address_offered): the pool has no upper end. Whatever the server's address, unless it ends in 255,
  there is a run of the server that ends with the bridge's own broadcast address being offered
  to a client as its address.
\<close>

theorem broadcast_address_offered:
  assumes st: "dhcp_setup name dbg bridgeAddr (PutUint32 base) = Some (h, bcast)"
    and ks: "range_order (dhcp_options bridgeAddr) ks" and r: "unat base mod 256 < 255"
  shows "\<exists>(es :: 'e conn_event list) out h' res a. Serve (ServeDHCP ks) h es = (out, h', Waiting) \<and> (res, a) \<in> set out
     \<and> ParseOptions res OptionDHCPMessageType = Some [Offer] \<and> YIAddr res = Some bcast"
proof -
  have ok: "handler_ok ks h" using st ks by (rule handler_ok_setup)
  have n: "next_ip h = PutUint32 (base + 1)" and nl: "leases h = Map.empty"
    using st by (auto simp: dhcp_setup_def bind_eq_Some_conv)
  obtain es :: "'e conn_event list" and out h1 where es: "Serve (ServeDHCP ks) h es = (out, h1, Waiting)"
    and ok1: "handler_ok ks h1" and n1: "next_ip h1 = bcast"
    and l1: "\<And>c. c \<noteq> HardwareAddr_String greedy \<Longrightarrow> leases h1 c = None"
    using pool_run [OF ok n setup_bcast(2,3) [OF st r]] setup_bcast(1) [OF st r] nl by auto
  let ?ch = "[2, 0, 0, 0, 0, 2] :: bytes"
  have mt: "Discover \<le> Discover" "Discover \<le> Inform" by (simp_all add: message_codes)
  obtain b where b: "take 1500 b = b" "CHAddr b = Some ?ch" "Broadcast b = Some True"
    and acc: "accept b = Some (Discover, put_options [\<lparr>Code = OptionDHCPMessageType, Value = [Discover]\<rparr>] Map.empty)"
    using RequestPacket_accept [of "[1, 2, 3, 4]" ?ch "[]" Discover "[]" True] mt by (auto simp: opt_bytes_def)
  have len: "240 \<le> length b" using acc by (rule accept_length)
  have "HardwareAddr_String ?ch \<noteq> HardwareAddr_String greedy"
    by (simp only: HardwareAddr_String_inject) simp
  then have ip: "next_ip h1 = (case leases h1 (HardwareAddr_String ?ch) of Some ip \<Rightarrow> ip | None \<Rightarrow> next_ip h1)"
    by (simp add: l1)
  have l4: "length (next_ip h1) = 4" using n1 setup_bcast(1) [OF st r] by simp
  obtain res where res: "ServeDHCP ks h1 b Discover (put_options [\<lparr>Code = OptionDHCPMessageType, Value = [Discover]\<rparr>] Map.empty) = Some (Some res, h1)"
    and o: "YIAddr res = Some bcast" "ParseOptions res OptionDHCPMessageType = Some [Offer]"
    using serve_discover [OF ok1 len b(2) ip l4] n1 by metis
  from Serve_one [where handler = "ServeDHCP ks" and addr = client_addr, OF acc b(1,3) res] obtain a
    where s: "Serve (ServeDHCP ks) h1 [Datagram b client_addr None :: 'e conn_event] = ([(res, a)], h1, Waiting)" by blast
  from Serve_append [OF es, of "[Datagram b client_addr None]"] s
  have "Serve (ServeDHCP ks) h (es @ [Datagram b client_addr None]) = (out @ [(res, a)], h1, Waiting)" by simp
  with o show ?thesis by (meson in_set_conv_decomp)
qed


theorem broadcast_address_offered_witness:
  "\<exists>(es :: nat conn_event list) out h' res a. Serve (ServeDHCP [1, 3, 31, 6]) example_handler es = (out, h', Waiting)
     \<and> (res, a) \<in> set out \<and> ParseOptions res OptionDHCPMessageType = Some [Offer] \<and> YIAddr res = Some [192, 168, 101, 255]"
  using broadcast_address_offered [OF example_setup range_order_example] by simp

text \<open>
  C9 (leases_distinct): no address is given out twice. After any run of the server from its set-up, of fewer than
  \<open>2\<^sup>3\<^sup>2 - 1\<close> datagrams, two clients never hold the same address, no client holds the server's own
  address, and the next address to be offered is held by nobody.
\<close>

theorem leases_distinct:
  assumes "dhcp_setup name dbg bridgeAddr (PutUint32 base) = Some (h, bcast)"
    and "Serve (ServeDHCP ks) h es = (out, h', r)" and "length es < 2 ^ 32 - 1"
    and l: "leases h' c = Some ip"
  shows "(leases h' d = Some ip \<longrightarrow> c = d) \<and> ip \<noteq> baseIP h' \<and> ip \<noteq> next_ip h'"
proof -
  obtain m where m: "m \<le> length es" "lease_inv base m h'"
    using bridge.Serve_inv [OF lease_inv_setup [OF assms(1)] assms(2)] by auto
  then obtain k where k: "k \<le> m" and base: "baseIP h' = PutUint32 base"
    and nxt: "next_ip h' = PutUint32 (base + 1 + of_nat k)"
    and old: "\<And>c ip. leases h' c = Some ip \<Longrightarrow> \<exists>j < k. ip = PutUint32 (base + 1 + of_nat j)"
    and inj: "\<And>c d ip. k \<le> 2 ^ 32 \<Longrightarrow> leases h' c = Some ip \<Longrightarrow> leases h' d = Some ip \<Longrightarrow> c = d"
    unfolding lease_inv_def by blast
  from k m assms(3) have small: "k < 2 ^ 32 - 1" by linarith
  have "leases h' d = Some ip \<longrightarrow> c = d" using inj small l by simp
  moreover obtain j where j: "j < k" and ip: "ip = PutUint32 (base + 1 + of_nat j)" using old l by blast
  moreover have "(of_nat j :: 32 word) \<noteq> of_nat k" using j small by (intro of_nat_word32_inject) auto
  moreover have "(of_nat 0 :: 32 word) \<noteq> of_nat (Suc j)" using j small by (intro of_nat_word32_inject) auto
  ultimately show "(leases h' d = Some ip \<longrightarrow> c = d) \<and> ip \<noteq> baseIP h' \<and> ip \<noteq> next_ip h'" by (auto simp: ip base nxt add.commute add.assoc)
qed

theorem leases_distinct_witness:
  "\<exists>(es :: nat conn_event list) out h'. Serve (ServeDHCP [1, 3, 31, 6]) example_handler es = (out, h', Waiting)
     \<and> leases h' (HardwareAddr_String greedy) = Some (PutUint32 0xC0A86503)
     \<and> PutUint32 0xC0A86503 \<noteq> baseIP h' \<and> PutUint32 0xC0A86503 \<noteq> next_ip h'"
proof -
  have ok: "handler_ok [1, 3, 31, 6] example_handler" by (rule handler_ok_setup [OF example_setup range_order_example])
  have n: "next_ip example_handler = PutUint32 0xC0A86503" by (simp add: example_handler_def)
  have nz: "(0xC0A86503 :: 32 word) \<noteq> 0" by simp
  obtain b out h' where s: "Serve (ServeDHCP [1, 3, 31, 6]) example_handler [Datagram b client_addr None :: nat conn_event] = (out, h', Waiting)"
    and l: "leases h' (HardwareAddr_String greedy) = Some (PutUint32 0xC0A86503)"
    by (rule request_next_step [where 'e = nat, OF ok n nz], unfold n)
  have "length [Datagram b client_addr None :: nat conn_event] < 2 ^ 32 - 1" by simp
  from leases_distinct [OF example_setup s this l] s l show ?thesis by blast
qed

lemma lease_inv_length:
  "lease_inv base n h \<Longrightarrow> length (next_ip h) = 4"
  "lease_inv base n h \<Longrightarrow> leases h c = Some ip \<Longrightarrow> length ip = 4"
  unfolding lease_inv_def by force+

text \<open>
  C11 (request_refused): a Request for an address that is neither the next free one nor the client's own lease is
  refused with NAK, offers no address and leaves the lease table unchanged.
\<close>

theorem request_refused:
  assumes "handler_ok ks h" and "lease_inv base n h" and "240 \<le> length p" and "CHAddr p = Some ch" and "for_us h opts"
    and "opts OptionRequestedIPAddress = Some ip" "length ip = 4" and "ip \<noteq> next_ip h"
    and "leases h (HardwareAddr_String ch) \<noteq> Some ip"
  shows "\<exists>r. ServeDHCP ks h p Request opts = Some (Some r, h) \<and> answers p r
     \<and> ParseOptions r OptionDHCPMessageType = Some [NAK] \<and> YIAddr r = Some [0, 0, 0, 0]"
proof -
  have lease4: "length ip' = 4 \<and> ip' \<noteq> ip" if "leases h (HardwareAddr_String ch) = Some ip'" for ip'
    using lease_inv_length(2) [OF assms(2) that] assms(9) that by auto
  show ?thesis
    by (rule serve_request_other [OF assms(1,3-7) lease_inv_length(1) [OF assms(2)] assms(8) lease4]) blast+
qed

theorem request_refused_witness:
  "\<exists>p r opts. ServeDHCP [1, 3, 31, 6] example_handler p Request opts = Some (Some r, example_handler)
     \<and> opts OptionRequestedIPAddress = Some [10, 0, 0, 1]
     \<and> ParseOptions r OptionDHCPMessageType = Some [NAK] \<and> YIAddr r = Some [0, 0, 0, 0]"
proof -
  have ok: "handler_ok [1, 3, 31, 6] example_handler" by (rule handler_ok_setup [OF example_setup range_order_example])
  have inv: "lease_inv 0xC0A86502 0 example_handler" by (rule lease_inv_setup [OF example_setup])
  obtain ch where len: "240 \<le> length (replicate 240 0 :: bytes)" and ch: "CHAddr (replicate 240 0) = Some ch"
    using CHAddr_total [of "replicate 240 0"] by auto
  have us: "for_us example_handler [OptionRequestedIPAddress \<mapsto> [10, 0, 0, 1]]" by (simp add: for_us_def option_codes)
  have ne: "[10, 0, 0, 1] \<noteq> next_ip example_handler" by (simp add: example_handler_def PutUint32_def)
  have "leases example_handler (HardwareAddr_String ch) \<noteq> Some [10, 0, 0, 1]" by (simp add: example_handler_def)
  from request_refused [OF ok inv len ch us _ _ ne this] show ?thesis by force
qed

text \<open>
  C14 (replies_answer_requests): every packet the server writes is a reply to a datagram it read: same transaction id, flags,
  relay address and hardware address, whatever the sequence of datagrams.
\<close>

theorem replies_answer_requests:
  assumes "dhcp_setup name dbg bridgeAddr (PutUint32 base) = Some (h, bcast)"
    and "Serve (ServeDHCP ks) h es = (out, h', r)" and "(res, a) \<in> set out"
  shows "\<exists>b addr werr. Datagram b addr werr \<in> set es \<and> answers (take 1500 b) res"
  using bridge.Serve_answers [OF lease_inv_setup [OF assms(1)] assms(2,3)] .


theorem replies_answer_requests_witness:
  "\<exists>(es :: nat conn_event list) out h' res a b addr werr. Serve (ServeDHCP [1, 3, 31, 6]) example_handler es = (out, h', Waiting)
     \<and> (res, a) \<in> set out \<and> Datagram b addr werr \<in> set es \<and> answers (take 1500 b) res"
proof -
  have ok: "handler_ok [1, 3, 31, 6] example_handler" by (rule handler_ok_setup [OF example_setup range_order_example])
  have n: "next_ip example_handler = PutUint32 0xC0A86503" by (simp add: example_handler_def)
  have nz: "(0xC0A86503 :: 32 word) \<noteq> 0" by simp
  obtain b out h' where s: "Serve (ServeDHCP [1, 3, 31, 6]) example_handler [Datagram b client_addr None :: nat conn_event] = (out, h', Waiting)"
    and "out \<noteq> []"
    by (rule request_next_step [where 'e = nat, OF ok n nz])
  then obtain res a where m: "(res, a) \<in> set out" by (cases out) auto
  from replies_answer_requests [OF example_setup s m] s m show ?thesis by blast
qed

theorem dhcp_exchange_witness:
  "\<exists>offer ack offer' h'.
     ServeDHCP [1, 3, 31, 6] example_handler (replicate 240 0) Discover Map.empty = Some (Some offer, example_handler)
     \<and> YIAddr offer = Some [192, 168, 101, 3]
     \<and> ServeDHCP [1, 3, 31, 6] example_handler (replicate 240 0) Request [OptionRequestedIPAddress \<mapsto> [192, 168, 101, 3]] = Some (Some ack, h')
     \<and> YIAddr ack = Some [192, 168, 101, 3] \<and> ParseOptions ack OptionDHCPMessageType = Some [ACK]
     \<and> ServeDHCP [1, 3, 31, 6] h' (replicate 240 0) Discover Map.empty = Some (Some offer', h') \<and> YIAddr offer' = Some [192, 168, 101, 3]"
proof -
  have ok: "handler_ok [1, 3, 31, 6] example_handler" by (rule handler_ok_setup [OF example_setup range_order_example])
  have inv: "lease_inv 0xC0A86502 0 example_handler" by (rule lease_inv_setup [OF example_setup])
  have n: "next_ip example_handler = [192, 168, 101, 3]" by (simp add: example_handler_def PutUint32_def)
  obtain ch where len: "240 \<le> length (replicate 240 0 :: bytes)" and ch: "CHAddr (replicate 240 0) = Some ch"
    using CHAddr_total [of "replicate 240 0"] by auto
  have us: "for_us example_handler [OptionRequestedIPAddress \<mapsto> [192, 168, 101, 3]]" by (simp add: for_us_def option_codes)
  have new: "leases example_handler (HardwareAddr_String ch) = None" by (simp add: example_handler_def)
  have nz: "next_ip example_handler \<noteq> [0, 0, 0, 0]" by (simp add: n)
  from dhcp_exchange [OF ok inv nz new len ch len ch us, of Map.empty] show ?thesis by (auto simp: n)
qed

end
