(* ===== verification/GoMonad.thy ===== *)
theory GoMonad
  imports Prelude "HOL-Library.State_Monad"
begin

text \<open>
  The code with effects, as state transformers. A call ends with a value, with an
  \<^verbatim>\<open>error\<close>, with a run-time panic, or it has not ended (a goroutine that waits for a channel).
  \<open>must\<close> is the statement \<^verbatim>\<open>x, err := m; if err != nil { return err }\<close>, \<open>catch\<close> the general
  inspection of an error, \<open>with_defer\<close> the deferred call, which also runs when the body panics.

  The triple \<open>triple P m Q E\<close> has one postcondition for the value that is returned and one for
  every other end. Its rules are in the collection \<open>hoare_intro\<close>; \<open>run_simps\<close> evaluates a
  program on a state.
\<close>

named_theorems hoare_intro \<open>rules of the Hoare calculus\<close>
named_theorems keeps_intro \<open>programs that keep an assertion\<close>
named_theorems returns_intro \<open>programs that return or stop with an error or a panic\<close>
named_theorems run_simps \<open>evaluation of a program on a state\<close>

datatype gopanic = IndexOutOfRange | NilDereference | TypeAssertion | ClosedChannel | PanicCall

datatype 'e stop = Error 'e | Panic gopanic | Blocked

datatype ('e, 'a) outcome = Ok 'a | Stop "'e stop"

type_synonym ('s, 'e, 'a) go = "('s, ('e, 'a) outcome) state"

abbreviation Err :: "'e \<Rightarrow> ('e, 'a) outcome" where
  "Err e \<equiv> Stop (Error e)"

abbreviation Panicked :: "gopanic \<Rightarrow> ('e, 'a) outcome" where
  "Panicked p \<equiv> Stop (Panic p)"

definition ok :: "'a \<Rightarrow> ('s, 'e, 'a) go" where
  "ok x = State_Monad.return (Ok x)"

definition halt :: "'e stop \<Rightarrow> ('s, 'e, 'a) go" where
  "halt e = State_Monad.return (Stop e)"

abbreviation throw :: "'e \<Rightarrow> ('s, 'e, 'a) go" where
  "throw e \<equiv> halt (Error e)"

definition must :: "('s, 'e, 'a) go \<Rightarrow> ('a \<Rightarrow> ('s, 'e, 'b) go) \<Rightarrow> ('s, 'e, 'b) go" where
  "must m k = do { r \<leftarrow> m; (case r of Ok x \<Rightarrow> k x | Stop e \<Rightarrow> halt e) }"

definition catch :: "('s, 'e, 'a) go \<Rightarrow> ('a \<Rightarrow> ('s, 'f, 'b) go) \<Rightarrow> ('e \<Rightarrow> ('s, 'f, 'b) go) \<Rightarrow> ('s, 'f, 'b) go" where
  "catch m k h = do { r \<leftarrow> m;
     (case r of Ok x \<Rightarrow> k x | Err e \<Rightarrow> h e | Panicked p \<Rightarrow> halt (Panic p) | Stop Blocked \<Rightarrow> halt Blocked) }"

definition with_defer :: "('s, 'f, unit) go \<Rightarrow> ('s, 'e, 'a) go \<Rightarrow> ('s, 'e, 'a) go" where
  "with_defer d m = do { r \<leftarrow> m; (case r of Stop Blocked \<Rightarrow> halt Blocked | _ \<Rightarrow> do { _ \<leftarrow> d; State_Monad.return r }) }"

definition gets :: "('s \<Rightarrow> 'a) \<Rightarrow> ('s, 'e, 'a) go" where
  "gets f = State (\<lambda>s. (Ok (f s), s))"

definition modify :: "('s \<Rightarrow> 's) \<Rightarrow> ('s, 'e, unit) go" where
  "modify f = State (\<lambda>s. (Ok (), f s))"

text \<open>A panic of a pure function, inside a program.\<close>

definition or_panic :: "gopanic \<Rightarrow> 'a option \<Rightarrow> ('s, 'e, 'a) go" where
  "or_panic p v = (case v of Some x \<Rightarrow> ok x | None \<Rightarrow> halt (Panic p))"

definition of_sum :: "'e + 'a \<Rightarrow> ('s, 'e, 'a) go" where
  "of_sum v = (case v of Inl e \<Rightarrow> throw e | Inr x \<Rightarrow> ok x)"

text \<open>A system call of the world outside, one that cannot fail, and a program that acts on one half of the state.\<close>

definition syscall :: "('w \<Rightarrow> ('e + 'a) \<times> 'w) \<Rightarrow> ('w, 'e, 'a) go" where
  "syscall f = State (\<lambda>w. case f w of (Inl e, w') \<Rightarrow> (Err e, w') | (Inr x, w') \<Rightarrow> (Ok x, w'))"

definition syscall_total :: "('w \<Rightarrow> 'a \<times> 'w) \<Rightarrow> ('w, 'e, 'a) go" where
  "syscall_total f = State (\<lambda>w. case f w of (x, w') \<Rightarrow> (Ok x, w'))"

definition in_world :: "('w, 'e, 'a) go \<Rightarrow> ('c \<times> 'w, 'e, 'a) go" where
  "in_world m = State (\<lambda>(c, w). case run_state m w of (r, w') \<Rightarrow> (r, (c, w')))"

subsection \<open>Evaluation\<close>

lemma run_ok [run_simps]: "run_state (ok x) s = (Ok x, s)"
  by (simp add: ok_def)

lemma run_halt [run_simps]: "run_state (halt e) s = (Stop e, s)"
  by (simp add: halt_def)

lemma run_must [run_simps]: "run_state (must m k) s =
    (case run_state m s of (Ok x, s') \<Rightarrow> run_state (k x) s' | (Stop e, s') \<Rightarrow> (Stop e, s'))"
  by (auto simp: must_def run_halt split: prod.splits outcome.splits)

lemma run_catch [run_simps]: "run_state (catch m k h) s =
    (case run_state m s of (Ok x, s') \<Rightarrow> run_state (k x) s' | (Err e, s') \<Rightarrow> run_state (h e) s'
     | (Panicked p, s') \<Rightarrow> (Panicked p, s') | (Stop Blocked, s') \<Rightarrow> (Stop Blocked, s'))"
  by (auto simp: catch_def run_halt split: prod.splits outcome.splits stop.splits)

lemma run_defer [run_simps]: "run_state (with_defer d m) s =
    (case run_state m s of (Stop Blocked, s') \<Rightarrow> (Stop Blocked, s') | (r, s') \<Rightarrow> (r, snd (run_state d s')))"
  by (auto simp: with_defer_def run_halt split: prod.splits outcome.splits stop.splits)

lemma run_gets [run_simps]: "run_state (gets f) s = (Ok (f s), s)"
  by (simp add: gets_def)

lemma run_modify [run_simps]: "run_state (modify f) s = (Ok (), f s)"
  by (simp add: modify_def)

lemma run_or_panic [run_simps]: "run_state (or_panic p v) s =
    ((case v of Some x \<Rightarrow> Ok x | None \<Rightarrow> Panicked p), s)"
  by (simp add: or_panic_def run_ok run_halt split: option.splits)

lemma run_of_sum [run_simps]: "run_state (of_sum v) s = ((case v of Inl e \<Rightarrow> Err e | Inr x \<Rightarrow> Ok x), s)"
  by (simp add: of_sum_def run_ok run_halt split: sum.splits)

lemma run_syscall [run_simps]: "run_state (syscall f) w =
    (case f w of (Inl e, w') \<Rightarrow> (Err e, w') | (Inr x, w') \<Rightarrow> (Ok x, w'))"
  by (simp add: syscall_def)

lemma run_syscall_total [run_simps]: "run_state (syscall_total f) w = (case f w of (x, w') \<Rightarrow> (Ok x, w'))"
  by (simp add: syscall_total_def)

lemma run_in_world [run_simps]: "run_state (in_world m) (c, w) =
    (case run_state m w of (r, w') \<Rightarrow> (r, (c, w')))"
  by (simp add: in_world_def)

subsection \<open>Hoare triples\<close>

definition triple :: "('s \<Rightarrow> bool) \<Rightarrow> ('s, 'e, 'a) go \<Rightarrow> ('a \<Rightarrow> 's \<Rightarrow> bool) \<Rightarrow> ('e stop \<Rightarrow> 's \<Rightarrow> bool) \<Rightarrow> bool" where
  "triple P m Q E \<longleftrightarrow> (\<forall>s. P s \<longrightarrow> (case run_state m s of (Ok x, s') \<Rightarrow> Q x s' | (Stop e, s') \<Rightarrow> E e s'))"

lemma tripleI: "(\<And>s. P s \<Longrightarrow> case run_state m s of (Ok x, s') \<Rightarrow> Q x s' | (Stop e, s') \<Rightarrow> E e s') \<Longrightarrow> triple P m Q E"
  by (simp add: triple_def)

lemma triple_Ok: "triple P m Q E \<Longrightarrow> P s \<Longrightarrow> run_state m s = (Ok x, s') \<Longrightarrow> Q x s'"
  by (auto simp: triple_def)

lemma triple_Stop: "triple P m Q E \<Longrightarrow> P s \<Longrightarrow> run_state m s = (Stop e, s') \<Longrightarrow> E e s'"
  by (auto simp: triple_def)

lemma triple_conseq:
  "triple P' m Q' E' \<Longrightarrow> (\<And>s. P s \<Longrightarrow> P' s) \<Longrightarrow> (\<And>x s. Q' x s \<Longrightarrow> Q x s)
    \<Longrightarrow> (\<And>e s. E' e s \<Longrightarrow> E e s) \<Longrightarrow> triple P m Q E"
  unfolding triple_def by (fastforce split: prod.splits outcome.splits)

lemma triple_ok [hoare_intro]: "(\<And>s. P s \<Longrightarrow> Q x s) \<Longrightarrow> triple P (ok x) Q E"
  by (simp add: triple_def run_simps)

lemma triple_halt [hoare_intro]: "(\<And>s. P s \<Longrightarrow> E e s) \<Longrightarrow> triple P (halt e) Q E"
  by (simp add: triple_def run_simps)

lemma triple_must:
  "triple P m Q E \<Longrightarrow> (\<And>x. triple (Q x) (k x) R E) \<Longrightarrow> triple P (must m k) R E"
  unfolding triple_def run_simps by (fastforce split: prod.splits outcome.splits)

lemma triple_catch:
  assumes "triple P m Q (\<lambda>e s. case e of Error x \<Rightarrow> H x s | _ \<Rightarrow> E (map_stop (\<lambda>_. undefined) e) s)"
    and "\<And>x. triple (Q x) (k x) R E" and "\<And>x. triple (H x) (h x) R E"
  shows "triple P (catch m k h) R E"
  unfolding triple_def run_simps
proof (intro allI impI)
  fix s assume "P s"
  with assms(1) have m: "case run_state m s of (Ok x, s') \<Rightarrow> Q x s' | (Stop e, s') \<Rightarrow>
      (case e of Error x \<Rightarrow> H x s' | _ \<Rightarrow> E (map_stop (\<lambda>_. undefined) e) s')"
    by (auto simp: triple_def)
  obtain r s' where r: "run_state m s = (r, s')" by fastforce
  show "case (case run_state m s of (Ok x, s') \<Rightarrow> run_state (k x) s' | (Err e, s') \<Rightarrow> run_state (h e) s'
     | (Panicked p, s') \<Rightarrow> (Panicked p, s') | (Stop Blocked, s') \<Rightarrow> (Stop Blocked, s')) of
       (Ok x, s') \<Rightarrow> R x s' | (Stop e, s') \<Rightarrow> E e s'"
  proof (cases r)
    case (Ok x)
    with m r assms(2) [of x] show ?thesis by (simp add: triple_def)
  next
    case (Stop e)
    with m r assms(3) show ?thesis by (cases e) (simp_all add: triple_def)
  qed
qed

lemma triple_if [hoare_intro]:
  "(b \<Longrightarrow> triple P m Q E) \<Longrightarrow> (\<not> b \<Longrightarrow> triple P n Q E) \<Longrightarrow> triple P (if b then m else n) Q E"
  by simp

lemma triple_option [hoare_intro]:
  "(v = None \<Longrightarrow> triple P m Q E) \<Longrightarrow> (\<And>x. v = Some x \<Longrightarrow> triple P (k x) Q E)
    \<Longrightarrow> triple P (case v of None \<Rightarrow> m | Some x \<Rightarrow> k x) Q E"
  by (cases v) auto

lemma triple_gets: "triple P (gets f) (\<lambda>x s. P s \<and> x = f s) E"
  by (simp add: triple_def run_simps)

lemma triple_modify: "(\<And>s. P s \<Longrightarrow> Q (f s)) \<Longrightarrow> triple P (modify f) (\<lambda>_. Q) E"
  by (simp add: triple_def run_simps)

lemma triple_or_panic: "(\<And>s. P s \<Longrightarrow> v = None \<Longrightarrow> E (Panic p) s) \<Longrightarrow>
    triple P (or_panic p v) (\<lambda>x s. P s \<and> v = Some x) E"
  by (simp add: triple_def run_simps split: option.splits)

lemma triple_in_world:
  assumes m: "\<And>c. triple (\<lambda>w. P (c, w)) m (\<lambda>x w. Q x (c, w)) (\<lambda>e w. E e (c, w))"
  shows "triple P (in_world m) Q E"
proof -
  have "case run_state (in_world m) (c, w) of (Ok x, s') \<Rightarrow> Q x s' | (Stop e, s') \<Rightarrow> E e s'"
    if "P (c, w)" for c w
    using m [of c] that by (cases "run_state m w") (auto simp: triple_def run_simps split: outcome.splits)
  then show ?thesis by (simp add: triple_def)
qed

lemma triple_defer:
  assumes "triple P m Q' E'" and "\<And>x s. Q' x s \<Longrightarrow> Q x (snd (run_state d s))"
    and "\<And>e s. E' e s \<Longrightarrow> e \<noteq> Blocked \<Longrightarrow> E e (snd (run_state d s))"
    and "\<And>s. E' Blocked s \<Longrightarrow> E Blocked s"
  shows "triple P (with_defer d m) Q E"
  using assms unfolding triple_def run_simps
  by (fastforce split: prod.splits outcome.splits stop.splits)

subsection \<open>Assertions that a program keeps\<close>

text \<open>The assertion holds at every end of the program, normal or not.\<close>

definition keeps :: "('s \<Rightarrow> bool) \<Rightarrow> ('s, 'e, 'a) go \<Rightarrow> bool" where
  "keeps I m \<longleftrightarrow> (\<forall>s. I s \<longrightarrow> I (snd (run_state m s)))"

lemma keepsD: "keeps I m \<Longrightarrow> I s \<Longrightarrow> run_state m s = (r, s') \<Longrightarrow> I s'"
  by (metis keeps_def snd_conv)

lemma keeps_triple: "keeps I m \<longleftrightarrow> triple I m (\<lambda>_. I) (\<lambda>_. I)"
proof -
  have "(case run_state m s of (Ok x, s') \<Rightarrow> I s' | (Stop e, s') \<Rightarrow> I s') = I (snd (run_state m s))" for s
    by (simp split: prod.splits outcome.splits)
  then show ?thesis by (simp add: keeps_def triple_def)
qed

lemma keeps_ok [keeps_intro]: "keeps I (ok x)"
  by (simp add: keeps_def run_simps)

lemma keeps_halt [keeps_intro]: "keeps I (halt e)"
  by (simp add: keeps_def run_simps)

lemma keeps_must [keeps_intro]: "keeps I m \<Longrightarrow> (\<And>x. keeps I (k x)) \<Longrightarrow> keeps I (must m k)"
  by (simp add: keeps_triple triple_must)

lemma keeps_catch [keeps_intro]:
  assumes "keeps I m" and "\<And>x. keeps I (k x)" and "\<And>e. keeps I (h e)"
  shows "keeps I (catch m k h)"
  unfolding keeps_def
proof (intro allI impI)
  fix s assume s: "I s"
  obtain r s' where r: "run_state m s = (r, s')" by fastforce
  with assms(1) s have s': "I s'" by (auto simp: keeps_def)
  show "I (snd (run_state (catch m k h) s))"
    using r s' assms(2,3) by (auto simp: run_simps keeps_def split: outcome.splits stop.splits)
qed

lemma keeps_with_defer [keeps_intro]:
  assumes "keeps I d" and "keeps I m"
  shows "keeps I (with_defer d m)"
  unfolding keeps_def
proof (intro allI impI)
  fix s assume s: "I s"
  obtain r s' where r: "run_state m s = (r, s')" by fastforce
  with assms(2) s have "I s'" by (auto simp: keeps_def)
  with r assms(1) show "I (snd (run_state (with_defer d m) s))"
    by (auto simp: run_simps keeps_def split: outcome.splits stop.splits)
qed

lemma keeps_if [keeps_intro]: "(b \<Longrightarrow> keeps I m) \<Longrightarrow> (\<not> b \<Longrightarrow> keeps I n) \<Longrightarrow> keeps I (if b then m else n)"
  by simp

lemma keeps_option [keeps_intro]:
  "(v = None \<Longrightarrow> keeps I m) \<Longrightarrow> (\<And>x. v = Some x \<Longrightarrow> keeps I (k x)) \<Longrightarrow> keeps I (case v of None \<Rightarrow> m | Some x \<Rightarrow> k x)"
  by (cases v) auto

lemma keeps_gets [keeps_intro]: "keeps I (gets f)"
  by (simp add: keeps_def run_simps)

lemma keeps_or_panic [keeps_intro]: "keeps I (or_panic p v)"
  by (simp add: keeps_def run_simps)

lemma keeps_of_sum [keeps_intro]: "keeps I (of_sum v)"
  by (simp add: keeps_def run_simps)

lemma keeps_modify [keeps_intro]: "(\<And>s. I s \<Longrightarrow> I (f s)) \<Longrightarrow> keeps I (modify f)"
  by (simp add: keeps_def run_simps)

lemma snd_run_syscall: "snd (run_state (syscall f) w) = snd (f w)"
  by (simp add: run_simps split: prod.splits sum.splits)

lemma keeps_syscall: "(\<And>w. I w \<Longrightarrow> I (snd (f w))) \<Longrightarrow> keeps I (syscall f)"
  by (simp add: keeps_def snd_run_syscall)

lemma keeps_syscall_total: "(\<And>w. I w \<Longrightarrow> I (snd (f w))) \<Longrightarrow> keeps I (syscall_total f)"
  by (simp add: keeps_def run_simps split: prod.splits) (metis snd_conv)

lemma snd_run_in_world: "snd (run_state (in_world m) (c, w)) = (c, snd (run_state m w))"
  by (simp add: run_simps split: prod.splits)

lemma keeps_in_world: "(\<And>c. keeps (\<lambda>w. I (c, w)) m) \<Longrightarrow> keeps I (in_world m)"
  by (simp add: keeps_def snd_run_in_world)

lemma triple_keeps_must:
  "keeps I m \<Longrightarrow> (\<And>x. triple I (k x) Q (\<lambda>_. I)) \<Longrightarrow> triple I (must m k) Q (\<lambda>_. I)"
  by (rule triple_must) (auto simp: keeps_triple)

lemma keeps_conj: "keeps I m \<Longrightarrow> keeps J m \<Longrightarrow> keeps (\<lambda>s. I s \<and> J s) m"
  by (simp add: keeps_def)

lemma triple_frame:
  "triple P m Q E \<Longrightarrow> keeps I m \<Longrightarrow> triple (\<lambda>s. P s \<and> I s) m (\<lambda>x s. Q x s \<and> I s) (\<lambda>e s. E e s \<and> I s)"
  unfolding triple_def keeps_def by (fastforce split: prod.splits outcome.splits)

subsection \<open>Programs that do not wait for ever\<close>

definition returns :: "('s, 'e, 'a) go \<Rightarrow> bool" where
  "returns m \<longleftrightarrow> (\<forall>s. fst (run_state m s) \<noteq> Stop Blocked)"

lemma returns_ok [returns_intro]: "returns (ok x)"
  by (simp add: returns_def run_simps)

lemma returns_halt [returns_intro]: "e \<noteq> Blocked \<Longrightarrow> returns (halt e)"
  by (simp add: returns_def run_simps)

lemma returns_must: "returns m \<Longrightarrow> (\<And>x s s'. run_state m s = (Ok x, s') \<Longrightarrow> returns (k x)) \<Longrightarrow> returns (must m k)"
  unfolding returns_def by (auto simp: run_simps split: prod.splits outcome.splits) (metis fst_conv)+

lemma returns_must_all [returns_intro]: "returns m \<Longrightarrow> (\<And>x. returns (k x)) \<Longrightarrow> returns (must m k)"
  by (rule returns_must)

lemma returns_catch [returns_intro]:
  assumes "returns m" and "\<And>x. returns (k x)" and "\<And>e. returns (h e)"
  shows "returns (catch m k h)"
  unfolding returns_def
proof
  fix s
  obtain r s' where r: "run_state m s = (r, s')" by fastforce
  with assms(1) have "r \<noteq> Stop Blocked" by (metis fst_conv returns_def)
  then show "fst (run_state (catch m k h) s) \<noteq> Stop Blocked"
    using r assms(2,3) by (auto simp: run_simps returns_def split: outcome.splits stop.splits)
qed

lemma returns_with_defer [returns_intro]:
  assumes "returns m" shows "returns (with_defer d m)"
  unfolding returns_def
proof
  fix s
  obtain r s' where r: "run_state m s = (r, s')" by fastforce
  with assms have "r \<noteq> Stop Blocked" by (metis fst_conv returns_def)
  with r show "fst (run_state (with_defer d m) s) \<noteq> Stop Blocked"
    by (auto simp: run_simps split: outcome.splits stop.splits)
qed

lemma returns_if [returns_intro]: "returns m \<Longrightarrow> returns n \<Longrightarrow> returns (if b then m else n)"
  by simp

lemma returns_option [returns_intro]:
  "returns m \<Longrightarrow> (\<And>x. returns (k x)) \<Longrightarrow> returns (case v of None \<Rightarrow> m | Some x \<Rightarrow> k x)"
  by (cases v) auto

lemma returns_gets [returns_intro]: "returns (gets f)"
  by (simp add: returns_def run_simps)

lemma returns_modify [returns_intro]: "returns (modify f)"
  by (simp add: returns_def run_simps)

lemma returns_or_panic [returns_intro]: "returns (or_panic p v)"
  by (simp add: returns_def run_simps split: option.splits)

lemma returns_syscall [returns_intro]: "returns (syscall f)"
  by (simp add: returns_def run_simps split: prod.splits sum.splits)

lemma returns_syscall_total [returns_intro]: "returns (syscall_total f)"
  by (simp add: returns_def run_simps split: prod.splits)

lemma returns_in_world [returns_intro]: "returns m \<Longrightarrow> returns (in_world m)"
  by (simp add: returns_def run_simps split: prod.splits) (metis fst_conv)

end
