(* ===== verification/DnsName.thy ===== *)
theory DnsName
  imports GoNet
begin
text \<open>
  Domain names of the DNS library (\<^verbatim>\<open>miekg/dns/msg.go\<close>): packing a name into a message, with or
  without compression, and unpacking one, following compression pointers. Offsets are natural
  numbers; a result is \<^term>\<open>None\<close> for a panic, and otherwise an error or a value. A
  message is the buffer that is written into, which packing returns.
\<close>

unbundle bit_operations_syntax

datatype dns_error = ErrBuf | ErrFqdn | ErrRdata | ErrLongDomain | ErrRcode | ErrExtendedRcode | ErrTruncated | DnsError string

type_synonym 'a packing = "(dns_error + 'a) option"

text \<open>The results of unpacking: the value, the offset after it, and the error.\<close>

type_synonym 'a unpacking = "('a \<times> nat \<times> dns_error option) option"

definition byte_of :: "char \<Rightarrow> byte" where
  "byte_of c = of_nat (of_char c)"

definition char_of_byte :: "byte \<Rightarrow> char" where
  "char_of_byte b = char_of (unat b)"

abbreviation bytes_of :: "string \<Rightarrow> bytes" where
  "bytes_of s \<equiv> map byte_of s"

abbreviation string_of_bytes :: "bytes \<Rightarrow> string" where
  "string_of_bytes bs \<equiv> map char_of_byte bs"

abbreviation dot :: byte where "dot \<equiv> 0x2E"
abbreviation backslash :: byte where "backslash \<equiv> 0x5C"

definition dns_isDigit :: "byte \<Rightarrow> bool" where
  "dns_isDigit b \<longleftrightarrow> 0x30 \<le> b \<and> b \<le> 0x39"

definition dddToByte :: "byte \<Rightarrow> byte \<Rightarrow> byte \<Rightarrow> byte" where
  "dddToByte a b c = (a - 0x30) * 100 + (b - 0x30) * 10 + (c - 0x30)"

definition maxCompressionOffset :: nat where "maxCompressionOffset = 2 * 2 ^ 13"
definition maxDomainNameWireOctets :: nat where "maxDomainNameWireOctets = 255"

subsection \<open>Packing\<close>

text \<open>Bytes written into a buffer from an offset on, and the loop that moves the rest of a name \<open>k\<close> places down.\<close>

definition write_at :: "nat \<Rightarrow> bytes \<Rightarrow> bytes \<Rightarrow> bytes" where
  "write_at off xs msg = take off msg @ xs @ drop (off + length xs) msg"

definition move_down :: "nat \<Rightarrow> nat \<Rightarrow> nat \<Rightarrow> bytes \<Rightarrow> bytes" where
  "move_down at k ls bs = take at bs @ take (ls - k - at) (drop (at + k) bs) @ drop (ls - k) bs"

text \<open>
  The variables of the loop of \<^verbatim>\<open>packDomainName\<close>. The name is unescaped in place in \<^verbatim>\<open>bs\<close>, whose first
  \<^verbatim>\<open>ls\<close> bytes count; \<^verbatim>\<open>roBs\<close> is the copy that the keys of the compression map are cut from.
\<close>

record pack_state =
  ps_i :: nat
  ps_ls :: nat
  ps_begin :: nat
  ps_bs :: bytes
  ps_roBs :: bytes
  ps_fresh :: bool
  ps_escaped :: bool
  ps_off :: nat
  ps_labels :: nat
  ps_msg :: "bytes option"
  ps_comp :: "(bytes \<rightharpoonup> nat) option"

definition pack_escape :: "nat \<Rightarrow> pack_state \<Rightarrow> dns_error + pack_state" where
  "pack_escape lenmsg s =
     (let i = ps_i s; bs = move_down i 1 (ps_ls s) (ps_bs s); ls = ps_ls s - 1 in
      if ps_off s + 1 > lenmsg then Inl ErrBuf
      else
        let (bs, ls) =
              (if i + 2 < ls \<and> dns_isDigit (bs ! i) \<and> dns_isDigit (bs ! (i + 1)) \<and> dns_isDigit (bs ! (i + 2))
               then (move_down (i + 1) 2 ls (bs[i := dddToByte (bs ! i) (bs ! (i + 1)) (bs ! (i + 2))]), ls - 2)
               else (bs, ls))
        in Inr (s\<lparr>ps_bs := bs, ps_ls := ls, ps_escaped := (bs ! i = dot), ps_fresh := False, ps_i := i + 1\<rparr>))"

text \<open>At the end of a label: the new state, and where to point to and from when the rest of the name is in the map.\<close>

definition pack_label :: "bool \<Rightarrow> nat \<Rightarrow> pack_state \<Rightarrow> dns_error + (pack_state \<times> (nat \<times> nat) option)" where
  "pack_label compress lenmsg s =
     (let i = ps_i s; n = i - ps_begin s; offset = ps_off s in
      if 0 < i \<and> ps_bs s ! (i - 1) = dot \<and> \<not> ps_escaped s then Inl ErrRdata
      else if n \<ge> 64 then Inl ErrRdata
      else if offset + 1 > lenmsg then Inl ErrBuf
      else if offset + 1 + n > lenmsg then Inl ErrBuf
      else
        let label = take n (drop (ps_begin s) (ps_bs s));
            s = s\<lparr>ps_msg := map_option (write_at offset (of_nat n # label)) (ps_msg s), ps_off := offset + 1 + n\<rparr>;
            s = (if compress \<and> \<not> ps_fresh s then s\<lparr>ps_roBs := ps_bs s, ps_fresh := True\<rparr> else s);
            key = drop (ps_begin s) (ps_roBs s);
            next = (\<lambda>comp. s\<lparr>ps_comp := comp, ps_labels := ps_labels s + 1, ps_begin := i + 1, ps_i := i + 1, ps_escaped := False\<rparr>)
        in case ps_comp s of
             None \<Rightarrow> Inr (next None, None)
           | Some m \<Rightarrow>
               if key = [dot] then Inr (next (Some m), None)
               else (case m key of
                       None \<Rightarrow> Inr (next (Some (if offset < maxCompressionOffset then m(key \<mapsto> offset) else m)), None)
                     | Some p \<Rightarrow> if compress then Inr (s, Some (p, offset)) else Inr (next (Some m), None)))"

lemma pack_escape_index: "pack_escape n s = Inr s' \<Longrightarrow> ps_i s' = ps_i s + 1 \<and> ps_ls s' \<le> ps_ls s - 1"
  by (auto simp: pack_escape_def Let_def split: if_splits)

lemma pack_label_index: "pack_label c n s = Inr (s', None) \<Longrightarrow> ps_i s' = ps_i s + 1 \<and> ps_ls s' = ps_ls s"
  by (auto simp: pack_label_def Let_def split: if_splits option.splits)

function pack_loop :: "bool \<Rightarrow> nat \<Rightarrow> pack_state \<Rightarrow> dns_error + (pack_state \<times> (nat \<times> nat) option)" where
  "pack_loop compress lenmsg s =
     (if ps_ls s \<le> ps_i s then Inr (s, None)
      else if ps_bs s ! ps_i s = backslash then
        (case pack_escape lenmsg s of Inl e \<Rightarrow> Inl e | Inr s \<Rightarrow> pack_loop compress lenmsg s)
      else if ps_bs s ! ps_i s = dot then
        (case pack_label compress lenmsg s of
           Inl e \<Rightarrow> Inl e
         | Inr (s, Some p) \<Rightarrow> Inr (s, Some p)
         | Inr (s, None) \<Rightarrow> pack_loop compress lenmsg s)
      else pack_loop compress lenmsg (s\<lparr>ps_i := ps_i s + 1, ps_escaped := False\<rparr>))"
  by pat_completeness auto
termination
  by (relation "measure (\<lambda>(_, _, s). ps_ls s - ps_i s)") (auto dest!: pack_escape_index pack_label_index)

declare pack_loop.simps [simp del]

definition packDomainName ::
  "string \<Rightarrow> bytes option \<Rightarrow> nat \<Rightarrow> (bytes \<rightharpoonup> nat) option \<Rightarrow> bool \<Rightarrow> (nat \<times> nat \<times> bytes option \<times> (bytes \<rightharpoonup> nat) option) packing" where
  "packDomainName s msg off compression compress =
     (let lenmsg = (case msg of None \<Rightarrow> 256 | Some m \<Rightarrow> length m) in
      if s = [] then Some (Inr (off, 0, msg, compression))
      else if msg \<noteq> None \<and> byte_of (last s) \<noteq> dot then Some (Inl ErrFqdn)
      else
        let bs = (if byte_of (last s) \<noteq> dot then bytes_of s @ [dot] else bytes_of s) in
        case pack_loop compress lenmsg \<lparr>ps_i = 0, ps_ls = length bs, ps_begin = 0, ps_bs = bs, ps_roBs = bs, ps_fresh = True,
               ps_escaped = False, ps_off = off, ps_labels = 0, ps_msg = msg, ps_comp = compression\<rparr> of
          Inl e \<Rightarrow> Some (Inl e)
        | Inr (st, ptr) \<Rightarrow>
            if ps_bs st = [dot] then Some (Inr (ps_off st, ps_labels st, ps_msg st, ps_comp st))
            else (case ptr of
                    Some (p, nameoffset) \<Rightarrow>
                      (case ps_msg st of
                         None \<Rightarrow> None
                       | Some m \<Rightarrow>
                           if nameoffset + 2 > length m then None
                           else Some (Inr (nameoffset + 2, ps_labels st,
                                  Some (write_at nameoffset (PutUint16 (of_nat p XOR 0xC000)) m), ps_comp st)))
                  | None \<Rightarrow>
                      Some (Inr (ps_off st + 1, ps_labels st,
                        map_option (\<lambda>m. if ps_off st < length m then write_at (ps_off st) [0] m else m) (ps_msg st), ps_comp st))))"

definition PackDomainName ::
  "string \<Rightarrow> bytes \<Rightarrow> nat \<Rightarrow> (bytes \<rightharpoonup> nat) option \<Rightarrow> bool \<Rightarrow> (nat \<times> bytes \<times> (bytes \<rightharpoonup> nat) option) packing" where
  "PackDomainName s msg off compression compress =
     map_option (map_sum id (\<lambda>(off1, _, m, comp). (off1, case m of Some m \<Rightarrow> m | None \<Rightarrow> msg, comp)))
       (packDomainName s (Some msg) off compression compress)"

subsection \<open>Unpacking\<close>

text \<open>A byte of a label as it is shown: some characters are escaped, bytes that cannot be printed are shown in decimal.\<close>

definition ddd :: "byte \<Rightarrow> bytes" where
  "ddd b = (let bufs = bytes_of (dec_of_nat (unat b)) in backslash # replicate (3 - length bufs) 0x30 @ bufs)"

definition escaped_chars :: "byte set" where
  "escaped_chars = {dot, 0x28, 0x29, 0x3B, 0x20, 0x40, 0x22, backslash}"

definition show_byte :: "byte \<Rightarrow> bytes" where
  "show_byte b = (if b \<in> escaped_chars then [backslash, b] else if b < 32 \<or> b \<ge> 127 then ddd b else [b])"

definition extra_len :: "byte \<Rightarrow> nat" where
  "extra_len b = (if b \<in> escaped_chars then 1 else if b < 32 \<or> b \<ge> 127 then 3 else 0)"

function unpack_loop :: "bytes \<Rightarrow> nat \<Rightarrow> nat \<Rightarrow> nat \<Rightarrow> bytes \<Rightarrow> nat \<Rightarrow> bytes unpacking" where
  "unpack_loop msg off off1 ptr s maxLen =
     (if off \<ge> length msg then Some ([], length msg, Some ErrBuf)
      else
        case index msg off of
          None \<Rightarrow> None
        | Some c \<Rightarrow>
            if c AND 0xC0 = 0 then
              if c = 0 then
                if s = [] then Some ([dot], if ptr = 0 then off + 1 else off1, None)
                else if length s \<ge> maxLen then Some (s, length msg, Some ErrLongDomain)
                else Some (s, if ptr = 0 then off + 1 else off1, None)
              else if off + 1 + unat c > length msg then Some ([], length msg, Some ErrBuf)
              else
                (case slice (off + 1) (off + 1 + unat c) msg of
                   None \<Rightarrow> None
                 | Some label \<Rightarrow>
                     unpack_loop msg (off + 1 + unat c) off1 ptr (s @ concat (map show_byte label) @ [dot])
                       (maxLen + sum_list (map extra_len label)))
            else if c AND 0xC0 = 0xC0 then
              if off + 1 \<ge> length msg then Some ([], length msg, Some ErrBuf)
              else
                (case index msg (off + 1) of
                   None \<Rightarrow> None
                 | Some c1 \<Rightarrow>
                     if ptr + 1 > 10 then Some ([], length msg, Some (DnsError ''too many compression pointers''))
                     else unpack_loop msg (unat (c XOR 0xC0) * 256 + unat c1) (if ptr = 0 then off + 2 else off1) (ptr + 1) s maxLen)
            else Some ([], length msg, Some ErrRdata))"
  by pat_completeness auto
termination
  by (relation "measures [\<lambda>(_, _, _, ptr, _, _). 11 - ptr, \<lambda>(msg, off, _, _, _, _). length msg - off]") auto

declare unpack_loop.simps [simp del]

definition UnpackDomainName :: "bytes \<Rightarrow> nat \<Rightarrow> string unpacking" where
  "UnpackDomainName msg off =
     map_option (\<lambda>(s, off1, err). (string_of_bytes s, off1, err)) (unpack_loop msg off 0 0 [] maxDomainNameWireOctets)"

subsection \<open>Bytes\<close>

lemma char_of_byte_of [simp]: "char_of_byte (byte_of c) = c"
proof -
  have "(of_char c :: nat) < 256" by (rule nat_of_char_less_256)
  then have "unat (of_nat (of_char c) :: byte) = of_char c" by (simp add: unat_of_nat)
  then show ?thesis by (simp add: char_of_byte_def byte_of_def)
qed

lemma byte_of_char_of [simp]: "byte_of (char_of_byte b) = b"
  using unat_byte_bound [of b] by (simp add: char_of_byte_def byte_of_def)

lemma string_of_bytes_of [simp]: "string_of_bytes (bytes_of s) = s"
  by (simp add: comp_def)

lemma bytes_of_string_of [simp]: "bytes_of (string_of_bytes bs) = bs"
  by (simp add: comp_def)

lemma bit_C0: "bit (0xC0 :: byte) k \<longleftrightarrow> k = 6 \<or> k = 7"
proof (cases "k < 8")
  case True
  then have "k = 0 \<or> k = 1 \<or> k = 2 \<or> k = 3 \<or> k = 4 \<or> k = 5 \<or> k = 6 \<or> k = 7" by linarith
  then show ?thesis by (elim disjE) simp_all
next
  case False
  then have "\<not> bit (0xC0 :: byte) k" using bit_imp_le_length [of "0xC0 :: byte" k] by auto
  with False show ?thesis by simp
qed

lemma no_top_bits: "c AND 0xC0 = 0 \<longleftrightarrow> unat (c :: byte) < 64"
proof -
  have b: "bit (c AND 0xC0) k \<longleftrightarrow> bit c k \<and> (k = 6 \<or> k = 7)" for k
    by (simp only: bit_and_iff bit_C0)
  have "c AND 0xC0 = 0 \<longleftrightarrow> \<not> bit c 6 \<and> \<not> bit c 7"
  proof
    assume "c AND 0xC0 = 0"
    then have "\<not> bit (c AND 0xC0) k" for k by simp
    then show "\<not> bit c 6 \<and> \<not> bit c 7" using b by blast
  next
    assume "\<not> bit c 6 \<and> \<not> bit c 7"
    then have "bit (c AND 0xC0) k = bit 0 k" for k using b [of k] by auto
    then show "c AND 0xC0 = 0" by (intro bit_eqI) blast
  qed
  also have "\<dots> \<longleftrightarrow> drop_bit 6 c = 0"
  proof
    assume n: "\<not> bit c 6 \<and> \<not> bit c 7"
    have "\<not> bit (drop_bit 6 c) k" for k
    proof
      assume k: "bit (drop_bit 6 c) k"
      then have "bit c (6 + k)" by (simp add: bit_drop_bit_eq)
      moreover from bit_imp_le_length [OF this] have "k = 0 \<or> k = 1" by auto
      ultimately show False using n by auto
    qed
    then show "drop_bit 6 c = 0" by (intro bit_eqI) simp
  next
    assume z: "drop_bit 6 c = 0"
    have "\<not> bit (drop_bit 6 c) 0" "\<not> bit (drop_bit 6 c) 1" by (simp_all only: z bit_0_eq) simp_all
    then show "\<not> bit c 6 \<and> \<not> bit c 7" by (simp add: bit_drop_bit_eq)
  qed
  also have "\<dots> \<longleftrightarrow> unat (drop_bit 6 c) = 0" by (metis neq0_conv unat_gt_0)
  also have "\<dots> \<longleftrightarrow> unat c div 2 ^ 6 = 0" by (simp only: unat_drop_bit)
  also have "\<dots> \<longleftrightarrow> unat c < 64" by (simp add: div_eq_0_iff)
  finally show ?thesis .
qed

lemma length_dec_of_byte: "n < 256 \<Longrightarrow> length (dec_of_nat n) \<le> 3"
proof -
  assume "n < 256"
  moreover have "length (dec_of_nat m) \<le> 1" if "m < 10" for m using that by (subst dec_of_nat.simps) simp
  moreover have "length (dec_of_nat m) \<le> 2" if "m < 100" for m
    using that calculation(2) [of "m div 10"] by (subst dec_of_nat.simps) (auto simp: less_mult_imp_div_less)
  ultimately show ?thesis by (subst dec_of_nat.simps) (auto simp: less_mult_imp_div_less)
qed

lemma length_ddd [simp]: "length (ddd b) = 4"
  using length_dec_of_byte [OF unat_byte_bound, of b] by (simp add: ddd_def Let_def)

lemma length_show_byte [simp]: "length (show_byte b) = 1 + extra_len b"
  by (simp add: show_byte_def extra_len_def)

subsection \<open>Labels\<close>

definition valid_label :: "bytes \<Rightarrow> bool" where
  "valid_label l \<longleftrightarrow> 0 < length l \<and> length l < 64"

definition labels_text :: "bytes list \<Rightarrow> bytes" where
  "labels_text L = concat (map (\<lambda>l. concat (map show_byte l) @ [dot]) L)"

definition name_text :: "bytes list \<Rightarrow> bytes" where
  "name_text L = (if L = [] then [dot] else labels_text L)"

text \<open>The bytes of a name in a message, and their number without the final zero.\<close>

definition wire :: "bytes list \<Rightarrow> bytes" where
  "wire L = concat (map (\<lambda>l. of_nat (length l) # l) L)"

definition wire_size :: "bytes list \<Rightarrow> nat" where
  "wire_size L = sum_list (map (\<lambda>l. length l + 1) L)"

lemma labels_text_simps [simp]:
  "labels_text [] = []" "labels_text (l # L) = concat (map show_byte l) @ dot # labels_text L"
  "labels_text (K @ L) = labels_text K @ labels_text L"
  by (simp_all add: labels_text_def)

lemma wire_size_simps [simp]:
  "wire_size [] = 0" "wire_size (l # L) = length l + 1 + wire_size L" "wire_size (K @ L) = wire_size K + wire_size L"
  by (simp_all add: wire_size_def)

lemma wire_simps [simp]: "wire [] = []" "wire (l # L) = of_nat (length l) # l @ wire L"
  by (simp_all add: wire_def)

lemma length_wire [simp]: "length (wire L) = wire_size L"
  by (induction L) simp_all

lemma length_show_bytes: "length (concat (map show_byte l)) = length l + sum_list (map extra_len l)"
  by (induction l) simp_all

lemma wire_size_le_text: "wire_size L \<le> length (labels_text L)"
  by (induction L) (simp_all add: length_show_bytes)

lemma labels_text_Nil [simp]: "labels_text L = [] \<longleftrightarrow> L = []"
  by (cases L) simp_all

subsection \<open>What unpacking returns\<close>

definition accepted :: "bytes \<Rightarrow> nat \<Rightarrow> nat \<Rightarrow> nat \<Rightarrow> bytes \<times> nat \<times> dns_error option \<Rightarrow> bool" where
  "accepted msg off off1 ptr r \<longleftrightarrow>
     (case r of (s, o1, err) \<Rightarrow> o1 \<le> length msg
        \<and> (err = None \<longrightarrow> (\<exists>L. s = name_text L \<and> list_all valid_label L \<and> wire_size L < 255)
             \<and> (if ptr = 0 then off < o1 else o1 = off1)))"

lemma unpack_loop_accepted:
  assumes "list_all valid_label L" and "s = labels_text L" and "maxLen + wire_size L = 255 + length s"
    and "ptr = 0 \<or> off1 \<le> length msg"
  shows "\<exists>r. unpack_loop msg off off1 ptr s maxLen = Some r \<and> accepted msg off off1 ptr r"
  using assms
proof (induction msg off off1 ptr s maxLen arbitrary: L rule: unpack_loop.induct)
  case (1 msg off off1 ptr s maxLen)
  show ?case
  proof (cases "off < length msg")
    case in_msg: True
    let ?c = "msg ! off"
    note c = index_in_range [OF in_msg]
    show ?thesis
    proof (cases "?c AND 0xC0 = 0")
      case short: True
      then have n: "unat ?c < 64" by (simp add: no_top_bits)
      show ?thesis
      proof (cases "?c = 0")
        case True
        have "wire_size L < 255" if "length s < maxLen" using that 1(5) by simp
        with True in_msg 1(3,4,6) show ?thesis
          by (subst unpack_loop.simps) (auto simp: c accepted_def name_text_def intro!: exI [of _ L])
      next
        case False
        then have pos: "0 < unat ?c" by (simp add: unat_gt_0)
        show ?thesis
        proof (cases "off + 1 + unat ?c > length msg")
          case True
          with in_msg short False show ?thesis by (subst unpack_loop.simps) (simp add: c accepted_def)
        next
          case fits: False
          define label where "label = take (unat ?c) (drop (off + 1) msg)"
          have len: "length label = unat ?c" using fits by (simp add: label_def)
          have sl: "slice (off + 1) (off + 1 + unat ?c) msg = Some label" using fits by (simp add: slice_def label_def)
          have v: "list_all valid_label (L @ [label])" using 1(3) n pos len by simp (simp add: valid_label_def)
          have t: "s @ concat (map show_byte label) @ [dot] = labels_text (L @ [label])" using 1(4) by simp
          have m: "maxLen + sum_list (map extra_len label) + wire_size (L @ [label])
              = 255 + length (s @ concat (map show_byte label) @ [dot])"
            using 1(5) by (simp add: length_show_bytes)
          from 1(1) [OF _ c short False fits sl v t m 1(6)] in_msg
          obtain r where r: "unpack_loop msg (off + 1 + unat ?c) off1 ptr (s @ concat (map show_byte label) @ [dot])
              (maxLen + sum_list (map extra_len label)) = Some r" "accepted msg (off + 1 + unat ?c) off1 ptr r" by auto
          have "unpack_loop msg off off1 ptr s maxLen = Some r"
            using in_msg short False fits r(1) sl by (subst unpack_loop.simps) (simp add: c)
          moreover have "accepted msg off off1 ptr r" using r(2) by (auto simp: accepted_def split: prod.splits if_splits)
          ultimately show ?thesis by blast
        qed
      qed
    next
      case long: False
      show ?thesis
      proof (cases "?c AND 0xC0 = 0xC0 \<and> off + 1 < length msg \<and> \<not> ptr + 1 > 10")
        case True
        then have "off + 1 < length msg" by simp
        note c1 = index_in_range [OF this]
        let ?off1 = "if ptr = 0 then off + 2 else off1"
        have o: "ptr + 1 = 0 \<or> ?off1 \<le> length msg" using True 1(6) by auto
        from 1(2) [OF _ c long _ _ c1 _ 1(3-5) o] True in_msg
        obtain r where r: "unpack_loop msg (unat (?c XOR 0xC0) * 256 + unat (msg ! (off + 1))) ?off1 (ptr + 1) s maxLen = Some r"
          "accepted msg (unat (?c XOR 0xC0) * 256 + unat (msg ! (off + 1))) ?off1 (ptr + 1) r" by (auto simp del: unpack_loop.simps)
        have "unpack_loop msg off off1 ptr s maxLen = Some r"
          using in_msg long True r(1) c1 by (subst unpack_loop.simps) (simp add: c)
        moreover have "accepted msg off off1 ptr r" using r(2) by (auto simp: accepted_def split: prod.splits if_splits)
        ultimately show ?thesis by blast
      next
        case False
        then show ?thesis using in_msg long
          by (subst unpack_loop.simps) (auto simp: c accepted_def index_in_range)
      qed
    qed
  qed (subst unpack_loop.simps, simp add: accepted_def)
qed

lemma unpack_loop_wire:
  assumes "list_all valid_label L" and "length (labels_text L) + length s < maxLen + sum_list (map extra_len (concat L))"
    and "s \<noteq> [] \<or> L \<noteq> []"
  shows "unpack_loop (pre @ wire L @ 0 # post) (length pre) off1 0 s maxLen
     = Some (s @ labels_text L, length pre + wire_size L + 1, None)"
  using assms
proof (induction L arbitrary: pre s maxLen)
  case Nil
  then show ?case by (subst unpack_loop.simps) (simp add: index_def)
next
  case (Cons l L)
  have l: "length l < 64" "l \<noteq> []" using Cons.prems(1) by (auto simp: valid_label_def)
  then have n: "unat (of_nat (length l) :: byte) = length l" by (simp add: unat_of_nat)
  then have z: "(of_nat (length l) :: byte) \<noteq> 0" using l(2) by (metis length_0_conv unat_0)
  have IH: "unpack_loop ((pre @ of_nat (length l) # l) @ wire L @ 0 # post) (length (pre @ of_nat (length l) # l)) off1 0
      (s @ concat (map show_byte l) @ [dot]) (maxLen + sum_list (map extra_len l))
    = Some ((s @ concat (map show_byte l) @ [dot]) @ labels_text L, length (pre @ of_nat (length l) # l) + wire_size L + 1, None)"
    using Cons.prems by (intro Cons.IH) (simp_all add: length_show_bytes)
  show ?case
    using IH l n z by (subst unpack_loop.simps) (simp add: index_def slice_def no_top_bits nth_append)
qed

subsection \<open>Packing a name that unpacking has shown\<close>

lemma byte_of_digit: "d < 10 \<Longrightarrow> byte_of (digit_char d) = of_nat (48 + d)"
  by (simp add: byte_of_def digit_char_def)

lemma ddd_digits:
  "ddd b = [backslash, of_nat (48 + unat b div 100), of_nat (48 + unat b div 10 mod 10), of_nat (48 + unat b mod 10)]"
proof -
  let ?n = "unat b"
  have one: "bytes_of (dec_of_nat m) = [of_nat (48 + m)]" if "m < 10" for m
    using that by (subst dec_of_nat.simps) (simp add: byte_of_digit)
  have two: "bytes_of (dec_of_nat m) = [of_nat (48 + m div 10), of_nat (48 + m mod 10)]" if "10 \<le> m" "m < 100" for m
    using that one [of "m div 10"] by (subst dec_of_nat.simps) (simp add: byte_of_digit)
  have three: "bytes_of (dec_of_nat m) = [of_nat (48 + m div 100), of_nat (48 + m div 10 mod 10), of_nat (48 + m mod 10)]" if "100 \<le> m" "m < 256" for m
    using that two [of "m div 10"] by (subst dec_of_nat.simps) (simp add: byte_of_digit div_mult2_eq [symmetric])
  consider "?n < 10" | "10 \<le> ?n" "?n < 100" | "100 \<le> ?n" using not_less by blast
  then show ?thesis
  proof cases
    case 3
    with three [of ?n] unat_byte_bound [of b] show ?thesis by (simp add: ddd_def Let_def)
  qed (use one [of ?n] two [of ?n] in \<open>simp_all add: ddd_def Let_def numeral_3_eq_3 numeral_2_eq_2\<close>)
qed

lemma dns_isDigit_digit: "d < 10 \<Longrightarrow> dns_isDigit (of_nat (48 + d))"
proof -
  assume "d < 10"
  then have "unat (of_nat (48 + d) :: byte) = 48 + d" by (subst unat_of_nat) simp
  with \<open>d < 10\<close> show ?thesis by (simp add: dns_isDigit_def word_le_nat_alt)
qed

lemma dddToByte_digits:
  "dddToByte (of_nat (48 + unat b div 100)) (of_nat (48 + unat b div 10 mod 10)) (of_nat (48 + unat b mod 10)) = b"
proof -
  have "unat b = unat b div 100 * 100 + unat b div 10 mod 10 * 10 + unat b mod 10"
  proof -
    define q where "q = unat b div 10"
    have "unat b = q * 10 + unat b mod 10" unfolding q_def by simp
    moreover have "q = q div 10 * 10 + q mod 10" by simp
    moreover have "unat b div 100 = q div 10" by (simp add: q_def div_mult2_eq [symmetric])
    ultimately show ?thesis unfolding q_def [symmetric] by linarith
  qed
  then have "b = of_nat (unat b div 100 * 100 + unat b div 10 mod 10 * 10 + unat b mod 10)"
    by (metis of_nat_unat ucast_id)
  then show ?thesis by (simp add: dddToByte_def)
qed

text \<open>The state in which \<open>P\<close> has been unescaped, \<open>R\<close> is still to be read, and \<open>S\<close> is left over at the end of the buffer.\<close>

definition pst :: "bytes \<Rightarrow> bytes \<Rightarrow> bytes \<Rightarrow> nat \<Rightarrow> bool \<Rightarrow> bool \<Rightarrow> bytes \<Rightarrow> nat \<Rightarrow> nat \<Rightarrow> bytes \<Rightarrow> pack_state" where
  "pst P R S begin esc fresh ro off labels msg =
     \<lparr>ps_i = length P, ps_ls = length P + length R, ps_begin = begin, ps_bs = P @ R @ S, ps_roBs = ro, ps_fresh = fresh,
      ps_escaped = esc, ps_off = off, ps_labels = labels, ps_msg = Some msg, ps_comp = None\<rparr>"

lemma move_down_1: "move_down (length P) 1 (length P + length (x # R)) (P @ (x # R) @ S) = P @ R @ last (x # R) # S"
proof -
  have "drop (length R) ((x # R) @ S) = last (x # R) # S"
    by (cases R rule: rev_cases) simp_all
  then show ?thesis by (simp add: move_down_def)
qed

lemma move_down_2:
  "move_down (length P + 1) 2 (length P + 3 + length R) (P @ a # b # c # R @ S) = P @ a # R @ drop (length R) ([b, c] @ R) @ S"
proof -
  have "drop (length P + 1 + length R) (P @ a # b # c # R @ S) = drop (length R) ([b, c] @ R) @ S"
    by (simp add: drop_append [of _ "b # c # R" S, simplified])
  then show ?thesis by (simp add: move_down_def)
qed

lemma ddd_read:
  obtains x y z where "ddd b = [backslash, x, y, z]" "dns_isDigit x" "dns_isDigit y" "dns_isDigit z" "dddToByte x y z = b"
proof -
  have "unat b div 100 < 10" using unat_byte_bound [of b] by simp
  then show thesis
    by (intro that [OF ddd_digits dns_isDigit_digit dns_isDigit_digit dns_isDigit_digit dddToByte_digits]) simp_all
qed

lemma escaped_chars_props: "b \<in> escaped_chars \<Longrightarrow> \<not> dns_isDigit b"
  by (auto simp: escaped_chars_def dns_isDigit_def)

lemma pack_step_byte:
  assumes "off < n"
  shows "\<exists>S' fresh'. pack_loop c n (pst P (show_byte b @ R) S begin esc fresh ro off labels msg)
     = pack_loop c n (pst (P @ [b]) R S' begin (b = dot) fresh' ro off labels msg)"
proof -
  consider (esc) "b \<in> escaped_chars" | (num) "b \<notin> escaped_chars" "b < 32 \<or> b \<ge> 127" | (plain) "b \<notin> escaped_chars" "\<not> (b < 32 \<or> b \<ge> 127)" by blast
  then show ?thesis
  proof cases
    case esc
    have m: "move_down (length P) 1 (length P + length (backslash # b # R)) (P @ (backslash # b # R) @ S)
        = P @ b # R @ last (backslash # b # R) # S"
      using move_down_1 [of P backslash "b # R" S] by simp
    have "pack_escape n (pst P (show_byte b @ R) S begin esc fresh ro off labels msg)
        = Inr (pst (P @ [b]) R (last (backslash # b # R) # S) begin (b = dot) False ro off labels msg)"
      using assms esc m escaped_chars_props [OF esc]
      by (simp add: pack_escape_def pst_def show_byte_def Let_def nth_append)
    then show ?thesis
      using esc by (subst pack_loop.simps) (auto simp: pst_def show_byte_def nth_append)
  next
    case num
    obtain x y z where d: "ddd b = [backslash, x, y, z]" "dns_isDigit x" "dns_isDigit y" "dns_isDigit z" "dddToByte x y z = b"
      by (rule ddd_read)
    have sb: "show_byte b = [backslash, x, y, z]" using num d by (simp add: show_byte_def)
    have m: "move_down (length P) 1 (length P + length (backslash # x # y # z # R)) (P @ (backslash # x # y # z # R) @ S)
        = P @ x # y # z # R @ last (backslash # x # y # z # R) # S"
      using move_down_1 [of P backslash "x # y # z # R" S] by simp
    have m2: "move_down (length P + 1) 2 (length P + 3 + length R) (P @ b # y # z # R @ T)
       = P @ b # R @ drop (length R) ([y, z] @ R) @ T" for T
      by (rule move_down_2)
    have "pack_escape n (pst P (show_byte b @ R) S begin esc fresh ro off labels msg)
        = Inr (pst (P @ [b]) R (drop (length R) ([y, z] @ R) @ last (backslash # x # y # z # R) # S) begin (b = dot) False ro off labels msg)"
      using assms m m2 d unfolding sb
      by (simp add: pack_escape_def pst_def Let_def nth_append numeral_3_eq_3)
    then show ?thesis
      using sb by (subst pack_loop.simps) (auto simp: pst_def nth_append)
  next
    case plain
    then have "b \<noteq> dot" "b \<noteq> backslash" by (auto simp: escaped_chars_def)
    with plain show ?thesis
      by (subst pack_loop.simps) (auto simp: pst_def show_byte_def nth_append)
  qed
qed

lemma pack_step_bytes:
  assumes "off < n"
  shows "\<exists>S' fresh'. pack_loop c n (pst P (concat (map show_byte l) @ R) S begin esc fresh ro off labels msg)
     = pack_loop c n (pst (P @ l) R S' begin (if l = [] then esc else last l = dot) fresh' ro off labels msg)"
proof (induction l arbitrary: P S esc fresh)
  case Nil
  then show ?case by auto
next
  case (Cons b l)
  obtain S1 f1 where 1: "pack_loop c n (pst P (show_byte b @ concat (map show_byte l) @ R) S begin esc fresh ro off labels msg)
     = pack_loop c n (pst (P @ [b]) (concat (map show_byte l) @ R) S1 begin (b = dot) f1 ro off labels msg)"
    using pack_step_byte [OF assms] by blast
  obtain S2 f2 where 2: "pack_loop c n (pst (P @ [b]) (concat (map show_byte l) @ R) S1 begin (b = dot) f1 ro off labels msg)
     = pack_loop c n (pst ((P @ [b]) @ l) R S2 begin (if l = [] then b = dot else last l = dot) f2 ro off labels msg)"
    using Cons.IH by blast
  have "pack_loop c n (pst P (concat (map show_byte (b # l)) @ R) S begin esc fresh ro off labels msg)
     = pack_loop c n (pst (P @ b # l) R S2 begin (if b # l = [] then esc else last (b # l) = dot) f2 ro off labels msg)"
    using 1 2 by simp
  then show ?case by blast
qed

lemma pack_step_dot:
  assumes l: "valid_label l" and fits: "off + 1 + length l \<le> n"
  shows "\<exists>S' fresh' ro'. pack_loop c n (pst (P @ l) (dot # R) S (length P) (last l = dot) fresh ro off labels msg)
     = pack_loop c n (pst (P @ l @ [dot]) R S' (length (P @ l @ [dot])) False fresh' ro' (off + 1 + length l) (labels + 1)
         (write_at off (of_nat (length l) # l) msg))"
proof -
  have last: "(P @ l @ X) ! (length P + length l - Suc 0) = last l" for X
    using l by (cases l rule: rev_cases) (simp_all add: valid_label_def nth_append)
  have here: "(P @ l @ dot # X) ! (length P + length l) = dot" for X
    by (simp add: nth_append)
  have lab: "take (length l) (drop (length P) (P @ l @ X)) = l" for X by simp
  show ?thesis
  proof (cases "c \<and> \<not> fresh")
    case True
    show ?thesis
      by (rule exI [of _ S], rule exI [of _ True], rule exI [of _ "P @ l @ dot # R @ S"], subst pack_loop.simps)
        (use True assms in \<open>simp add: pst_def pack_label_def Let_def last here lab valid_label_def\<close>)
  next
    case False
    show ?thesis
      by (rule exI [of _ S], rule exI [of _ fresh], rule exI [of _ ro], subst pack_loop.simps)
        (use False assms in \<open>auto simp: pst_def pack_label_def Let_def last here lab valid_label_def\<close>)
  qed
qed

definition unescaped :: "bytes list \<Rightarrow> bytes" where
  "unescaped L = concat (map (\<lambda>l. l @ [dot]) L)"

lemma write_at_append: "off + length xs \<le> length m \<Longrightarrow> write_at (off + length xs) ys (write_at off xs m) = write_at off (xs @ ys) m"
  by (simp add: write_at_def add.commute add.left_commute)

lemma length_write_at [simp]: "off + length xs \<le> length m \<Longrightarrow> length (write_at off xs m) = length m"
  by (simp add: write_at_def)

lemma pack_step_labels:
  assumes "list_all valid_label L" and "off + wire_size L < n" and "length msg = n"
  shows "\<exists>S' fresh' ro' e. pack_loop c n (pst P (labels_text L) S (length P) False fresh ro off labels msg)
     = Inr (pst (P @ unescaped L) [] S' (length (P @ unescaped L)) False fresh' ro' (off + wire_size L) (labels + length L)
         (write_at off (wire L) msg), None)"
  using assms
proof (induction L arbitrary: P S fresh ro off labels msg)
  case Nil
  then show ?case by (subst pack_loop.simps) (auto simp: pst_def unescaped_def write_at_def)
next
  case (Cons l L)
  have l: "valid_label l" and L: "list_all valid_label L" using Cons.prems by simp_all
  obtain S1 f1 where 1: "pack_loop c n (pst P (concat (map show_byte l) @ dot # labels_text L) S (length P) False fresh ro off labels msg)
     = pack_loop c n (pst (P @ l) (dot # labels_text L) S1 (length P) (if l = [] then False else last l = dot) f1 ro off labels msg)"
    using pack_step_bytes [of off n] Cons.prems by fastforce
  obtain S2 f2 r2 where 2: "pack_loop c n (pst (P @ l) (dot # labels_text L) S1 (length P) (last l = dot) f1 ro off labels msg)
     = pack_loop c n (pst (P @ l @ [dot]) (labels_text L) S2 (length (P @ l @ [dot])) False f2 r2 (off + 1 + length l) (labels + 1)
         (write_at off (of_nat (length l) # l) msg))"
    using pack_step_dot [OF l] Cons.prems(2) by fastforce
  obtain S3 f3 r3 where 3: "pack_loop c n (pst (P @ l @ [dot]) (labels_text L) S2 (length (P @ l @ [dot])) False f2 r2 (off + 1 + length l) (labels + 1)
         (write_at off (of_nat (length l) # l) msg))
     = Inr (pst ((P @ l @ [dot]) @ unescaped L) [] S3 (length ((P @ l @ [dot]) @ unescaped L)) False f3 r3 (off + 1 + length l + wire_size L)
         (labels + 1 + length L) (write_at (off + 1 + length l) (wire L) (write_at off (of_nat (length l) # l) msg)), None)"
    using Cons.IH [OF L, of "off + 1 + length l" "write_at off (of_nat (length l) # l) msg" "P @ l @ [dot]" S2 f2 r2 "labels + 1"]
      Cons.prems(2,3) by fastforce
  have "write_at (off + 1 + length l) (wire L) (write_at off (of_nat (length l) # l) msg) = write_at off (wire (l # L)) msg"
    using write_at_append [of off "of_nat (length l) # l" msg "wire L"] Cons.prems(2,3) by simp
  moreover have "l \<noteq> []" using l by (auto simp: valid_label_def)
  ultimately have "pack_loop c n (pst P (labels_text (l # L)) S (length P) False fresh ro off labels msg)
     = Inr (pst (P @ unescaped (l # L)) [] S3 (length (P @ unescaped (l # L))) False f3 r3 (off + wire_size (l # L)) (labels + length (l # L))
         (write_at off (wire (l # L)) msg), None)"
    using 1 2 3 by (simp add: unescaped_def add.assoc)
  then show ?case by blast
qed

lemma packDomainName_labels:
  assumes "list_all valid_label L" and "L \<noteq> []" and "off + wire_size L < length msg"
  shows "packDomainName (string_of_bytes (name_text L)) (Some msg) off None compress
     = Some (Inr (off + wire_size L + 1, length L, Some (write_at off (wire L @ [0]) msg), None))"
proof -
  have t: "name_text L = labels_text L" using assms(2) by (simp add: name_text_def)
  have last: "last (labels_text L) = dot" using assms(2) by (cases L rule: rev_cases) simp_all
  obtain S' f' r' where r: "pack_loop compress (length msg) (pst [] (labels_text L) [] 0 False True (labels_text L) off 0 msg)
     = Inr (pst (unescaped L) [] S' (length (unescaped L)) False f' r' (off + wire_size L) (length L) (write_at off (wire L) msg), None)"
    using pack_step_labels [OF assms(1,3) refl, of compress "[]" "[]" True "labels_text L" 0] by auto
  have u: "unescaped L @ S' \<noteq> [dot]"
    using assms(1,2) by (cases L; cases "hd L") (auto simp: unescaped_def valid_label_def)
  show ?thesis
    using r u assms(2,3) write_at_append [of off "wire L" msg "[0]"]
    by (simp add: packDomainName_def t last_map last pst_def Let_def comp_def)
qed

lemma packDomainName_root:
  assumes "off < length msg"
  shows "packDomainName (string_of_bytes (name_text [])) (Some msg) off None compress
     = Some (Inr (off + 1, 1, Some (write_at off [0] msg), None))"
proof -
  have l: "pack_loop compress (length msg) \<lparr>ps_i = 0, ps_ls = 1, ps_begin = 0, ps_bs = [dot], ps_roBs = [dot], ps_fresh = True,
        ps_escaped = False, ps_off = off, ps_labels = 0, ps_msg = Some msg, ps_comp = None\<rparr>
     = Inr (\<lparr>ps_i = 1, ps_ls = 1, ps_begin = 1, ps_bs = [dot], ps_roBs = [dot], ps_fresh = True,
        ps_escaped = False, ps_off = off + 1, ps_labels = 1, ps_msg = Some (write_at off [0] msg), ps_comp = None\<rparr>, None)"
    using assms by (simp add: pack_loop.simps pack_label_def Let_def)
  have d: "name_text [] = [dot]" by (simp add: name_text_def)
  show ?thesis using l by (simp add: packDomainName_def d Let_def)
qed

lemma packDomainName_name:
  assumes "list_all valid_label L" and "off + wire_size L < length msg"
  shows "PackDomainName (string_of_bytes (name_text L)) msg off None compress
     = Some (Inr (off + wire_size L + 1, write_at off (wire L @ [0]) msg, None))"
  using packDomainName_labels [OF assms(1) _ assms(2), of compress] packDomainName_root [of off msg compress] assms(2)
  by (cases "L = []") (simp_all add: PackDomainName_def)

lemma UnpackDomainName_wire:
  assumes "list_all valid_label L" and "wire_size L < 255"
  shows "UnpackDomainName (pre @ wire L @ 0 # post) (length pre)
     = Some (string_of_bytes (name_text L), length pre + wire_size L + 1, None)"
proof (cases "L = []")
  case True
  then show ?thesis
    by (simp add: UnpackDomainName_def name_text_def unpack_loop.simps index_def)
next
  case False
  have "length (labels_text L) = wire_size L + sum_list (map extra_len (concat L))"
    by (induction L) (simp_all add: length_show_bytes)
  with unpack_loop_wire [OF assms(1), of "[]" 255 pre post 0] False assms(2)
  show ?thesis by (simp add: UnpackDomainName_def maxDomainNameWireOctets_def name_text_def)
qed

subsection \<open>Names in messages\<close>

text \<open>The names that fit the limits: labels of 1 to 63 bytes, and at most 255 bytes in a message.\<close>

definition name_ok :: "bytes list \<Rightarrow> bool" where
  "name_ok L \<longleftrightarrow> list_all valid_label L \<and> wire_size L < 255"

lemma UnpackDomainName_total:
  obtains s o1 err where "UnpackDomainName msg off = Some (s, o1, err)" and "o1 \<le> length msg"
    and "err = None \<Longrightarrow> off < o1" and "err = None \<Longrightarrow> \<exists>L. s = string_of_bytes (name_text L) \<and> name_ok L"
proof -
  obtain r where r: "unpack_loop msg off 0 0 [] maxDomainNameWireOctets = Some r" "accepted msg off 0 0 r"
    using unpack_loop_accepted [of "[]" "[]" maxDomainNameWireOctets 0 0 msg off] by (auto simp: maxDomainNameWireOctets_def)
  obtain s o1 err where "r = (s, o1, err)" by (cases r)
  with r show thesis
    by (intro that [of "string_of_bytes s" o1 err]) (auto simp: UnpackDomainName_def accepted_def name_ok_def)
qed

lemma UnpackDomainName_advances: "UnpackDomainName msg off = Some (s, o1, None) \<Longrightarrow> off < o1 \<and> o1 \<le> length msg"
  by (rule UnpackDomainName_total [of msg off]) auto

lemma UnpackDomainName_name:
  assumes "name_ok L"
  shows "UnpackDomainName (pre @ wire L @ 0 # post) (length pre) = Some (string_of_bytes (name_text L), length pre + wire_size L + 1, None)"
  using assms by (intro UnpackDomainName_wire) (auto simp: name_ok_def)

lemma PackDomainName_name:
  assumes "name_ok L" and "off + wire_size L < length msg"
  shows "PackDomainName (string_of_bytes (name_text L)) msg off None compress
     = Some (Inr (off + wire_size L + 1, write_at off (wire L @ [0]) msg, None))"
  using assms by (intro packDomainName_name) (auto simp: name_ok_def)

text \<open>
  C39 (unpack_name_bounds): reading a name from a message, at whatever offset and whatever the message
  holds, comes to an end without an index out of range and leaves the offset inside the message. A
  name that is read without an error is a sequence of labels of 1 to 63 bytes, with every byte that
  is not printable escaped, that takes at most 255 bytes in a message, and reading it moves forward.
\<close>

theorem unpack_name_bounds:
  "\<exists>s o1 err. UnpackDomainName msg off = Some (s, o1, err) \<and> o1 \<le> length msg
     \<and> (err = None \<longrightarrow> off < o1 \<and> (\<exists>L. s = string_of_bytes (name_text L)
          \<and> (\<forall>l \<in> set L. 1 \<le> length l \<and> length l \<le> 63) \<and> length (wire L @ [0]) \<le> 255))"
proof (rule UnpackDomainName_total [of msg off])
  fix s o1 err assume u: "UnpackDomainName msg off = Some (s, o1, err)" "o1 \<le> length msg" "err = None \<Longrightarrow> off < o1"
    and n: "err = None \<Longrightarrow> \<exists>L. s = string_of_bytes (name_text L) \<and> name_ok L"
  have "(\<forall>l \<in> set L. 1 \<le> length l \<and> length l \<le> 63) \<and> length (wire L @ [0]) \<le> 255" if "name_ok L" for L
    using that by (auto simp: name_ok_def valid_label_def list_all_iff Suc_le_eq)
  with u n show ?thesis by blast
qed

definition sample_name :: bytes where
  "sample_name = [3, 0x62, 0x6F, 0x78, 0, 0xC0, 0]"

lemma sample_name_unpacked: "UnpackDomainName sample_name 5 = Some (''box.'', 7, None)"
  by code_simp

theorem unpack_name_bounds_witness:
  "UnpackDomainName sample_name 5 = Some (''box.'', 7, None) \<and> (\<exists>L. ''box.'' = string_of_bytes (name_text L) \<and> length (wire L @ [0]) \<le> 255)"
  using unpack_name_bounds [of sample_name 5] sample_name_unpacked by (metis option.inject prod.inject)

text \<open>
  C40 (domain_name_roundtrip): a name that was read from any message, through compression pointers or
  not, can be written into any buffer with room for it, and reading it there gives the same name and
  ends where the writing ended; nothing outside of the name's bytes is changed.
\<close>

theorem domain_name_roundtrip:
  assumes read: "UnpackDomainName msg off = Some (s, o1, None)" and room: "at + 255 \<le> length buf"
  shows "\<exists>buf' stop. PackDomainName s buf at None compress = Some (Inr (stop, buf', None))
     \<and> UnpackDomainName buf' at = Some (s, stop, None) \<and> stop \<le> at + 255
     \<and> length buf' = length buf \<and> take at buf' = take at buf \<and> drop stop buf' = drop stop buf"
proof (rule UnpackDomainName_total [of msg off])
  fix s' o' err assume u: "UnpackDomainName msg off = Some (s', o', err)"
    and n: "err = None \<Longrightarrow> \<exists>L. s' = string_of_bytes (name_text L) \<and> name_ok L"
  from u read n obtain L where L: "s = string_of_bytes (name_text L)" "name_ok L" by auto
  then have w: "at + wire_size L < length buf" using room by (simp add: name_ok_def)
  have buf': "write_at at (wire L @ [0]) buf = take at buf @ wire L @ 0 # drop (at + wire_size L + 1) buf"
    by (simp add: write_at_def)
  have "length (take at buf) = at" using room by simp
  with UnpackDomainName_name [OF L(2), of "take at buf" "drop (at + wire_size L + 1) buf"]
  have "UnpackDomainName (write_at at (wire L @ [0]) buf) at = Some (s, at + wire_size L + 1, None)"
    by (simp only: buf' L(1))
  with PackDomainName_name [OF L(2) w, of compress] w L(2) show ?thesis
    by (auto simp: L(1) name_ok_def buf')
qed

theorem domain_name_roundtrip_witness:
  "\<exists>buf' stop. PackDomainName ''box.'' (replicate 260 0) 5 None False = Some (Inr (stop, buf', None))
     \<and> UnpackDomainName buf' 5 = Some (''box.'', stop, None)"
  using domain_name_roundtrip [OF sample_name_unpacked, of 5 "replicate 260 0" False] by auto

end
