(* ===== verification/DnsData.thy ===== *)
theory DnsData
  imports DnsName
begin

text \<open>
  The fields of DNS messages (\<^verbatim>\<open>miekg/dns/msg_helpers.go\<close>, the string functions of \<^verbatim>\<open>msg.go\<close> and
  the options of \<^verbatim>\<open>edns.go\<close>): a function that reads a field at an offset and one that writes it there,
  for every kind of field a resource record can have.
\<close>

unbundle bit_operations_syntax

subsection \<open>Integers\<close>

text \<open>Bytes put into a buffer at an offset: a panic where they do not fit, as for a Go slice.\<close>

definition put :: "bytes \<Rightarrow> bytes \<Rightarrow> nat \<Rightarrow> bytes option" where
  "put xs msg off = (if off + length xs \<le> length msg then Some (write_at off xs msg) else None)"

definition tail :: "bytes \<Rightarrow> nat \<Rightarrow> bytes option" where
  "tail msg off = slice off (length msg) msg"

definition Uint64 :: "bytes \<Rightarrow> 64 word option" where
  "Uint64 b = (case b of b0 # b1 # b2 # b3 # b4 # b5 # b6 # b7 # _ \<Rightarrow>
       Some (ucast b7 OR push_bit 8 (ucast b6) OR push_bit 16 (ucast b5) OR push_bit 24 (ucast b4)
          OR push_bit 32 (ucast b3) OR push_bit 40 (ucast b2) OR push_bit 48 (ucast b1) OR push_bit 56 (ucast b0))
     | _ \<Rightarrow> None)"

definition PutUint64 :: "64 word \<Rightarrow> bytes" where
  "PutUint64 v = map (\<lambda>k. ucast (drop_bit k v)) [56, 48, 40, 32, 24, 16, 8, 0]"

abbreviation overflow :: "string \<Rightarrow> dns_error" where
  "overflow what \<equiv> DnsError (''overflow '' @ what)"

definition unpackUint8 :: "bytes \<Rightarrow> nat \<Rightarrow> 8 word unpacking" where
  "unpackUint8 msg off =
     (if off + 1 > length msg then Some (0, length msg, Some (overflow ''unpacking uint8''))
      else do { i \<leftarrow> index msg off; Some (i, off + 1, None) })"

definition packUint8 :: "8 word \<Rightarrow> bytes \<Rightarrow> nat \<Rightarrow> (nat \<times> bytes) packing" where
  "packUint8 i msg off =
     (if off + 1 > length msg then Some (Inl (overflow ''packing uint8''))
      else do { msg \<leftarrow> set_index off i msg; Some (Inr (off + 1, msg)) })"

definition unpackUint16 :: "bytes \<Rightarrow> nat \<Rightarrow> 16 word unpacking" where
  "unpackUint16 msg off =
     (if off + 2 > length msg then Some (0, length msg, Some (overflow ''unpacking uint16''))
      else do { b \<leftarrow> tail msg off; i \<leftarrow> Uint16 b; Some (i, off + 2, None) })"

definition packUint16 :: "16 word \<Rightarrow> bytes \<Rightarrow> nat \<Rightarrow> (nat \<times> bytes) packing" where
  "packUint16 i msg off =
     (if off + 2 > length msg then Some (Inl (overflow ''packing uint16''))
      else do { msg \<leftarrow> put (PutUint16 i) msg off; Some (Inr (off + 2, msg)) })"

definition unpackUint32 :: "bytes \<Rightarrow> nat \<Rightarrow> 32 word unpacking" where
  "unpackUint32 msg off =
     (if off + 4 > length msg then Some (0, length msg, Some (overflow ''unpacking uint32''))
      else do { b \<leftarrow> tail msg off; i \<leftarrow> Uint32 b; Some (i, off + 4, None) })"

definition packUint32 :: "32 word \<Rightarrow> bytes \<Rightarrow> nat \<Rightarrow> (nat \<times> bytes) packing" where
  "packUint32 i msg off =
     (if off + 4 > length msg then Some (Inl (overflow ''packing uint32''))
      else do { msg \<leftarrow> put (PutUint32 i) msg off; Some (Inr (off + 4, msg)) })"

definition unpackUint48 :: "bytes \<Rightarrow> nat \<Rightarrow> 64 word unpacking" where
  "unpackUint48 msg off =
     (if off + 6 > length msg then Some (0, length msg, Some (overflow ''unpacking uint64 as uint48''))
      else do {
        b0 \<leftarrow> index msg off; b1 \<leftarrow> index msg (off + 1); b2 \<leftarrow> index msg (off + 2);
        b3 \<leftarrow> index msg (off + 3); b4 \<leftarrow> index msg (off + 4); b5 \<leftarrow> index msg (off + 5);
        Some (push_bit 40 (ucast b0) OR push_bit 32 (ucast b1) OR push_bit 24 (ucast b2) OR push_bit 16 (ucast b3)
          OR push_bit 8 (ucast b4) OR ucast b5, off + 6, None) })"

definition packUint48 :: "64 word \<Rightarrow> bytes \<Rightarrow> nat \<Rightarrow> (nat \<times> bytes) packing" where
  "packUint48 i msg off =
     (if off + 6 > length msg then Some (Inl (overflow ''packing uint64 as uint48''))
      else do { msg \<leftarrow> put (map (\<lambda>k. ucast (drop_bit k i)) [40, 32, 24, 16, 8, 0]) msg off; Some (Inr (off + 6, msg)) })"

definition unpackUint64 :: "bytes \<Rightarrow> nat \<Rightarrow> 64 word unpacking" where
  "unpackUint64 msg off =
     (if off + 8 > length msg then Some (0, length msg, Some (overflow ''unpacking uint64''))
      else do { b \<leftarrow> tail msg off; i \<leftarrow> Uint64 b; Some (i, off + 8, None) })"

definition packUint64 :: "64 word \<Rightarrow> bytes \<Rightarrow> nat \<Rightarrow> (nat \<times> bytes) packing" where
  "packUint64 i msg off =
     (if off + 8 > length msg then Some (Inl (overflow ''packing uint64''))
      else do { msg \<leftarrow> put (PutUint64 i) msg off; Some (Inr (off + 8, msg)) })"

subsection \<open>Addresses\<close>

definition unpackDataA :: "bytes \<Rightarrow> nat \<Rightarrow> IP unpacking" where
  "unpackDataA msg off =
     (if off + 4 > length msg then Some ([], length msg, Some (overflow ''unpacking a''))
      else do { a \<leftarrow> slice off (off + 4) msg; Some (a, off + 4, None) })"

text \<open>\<^verbatim>\<open>copy(msg[off:], src)\<close> copies what fits; it panics when the offset is outside of the message.\<close>

definition copy_at :: "bytes \<Rightarrow> bytes \<Rightarrow> nat \<Rightarrow> bytes option" where
  "copy_at src msg off = copy_to off (length msg) src msg"

definition packDataA :: "IP \<Rightarrow> bytes \<Rightarrow> nat \<Rightarrow> (nat \<times> bytes) packing" where
  "packDataA a msg off =
     (if off + 4 > length msg then Some (Inl (overflow ''packing a''))
      else if length a = 4 \<or> length a = 16 then do { msg \<leftarrow> copy_at (To4 a) msg off; Some (Inr (off + 4, msg)) }
      else if length a = 0 then Some (Inr (off, msg))
      else Some (Inl (overflow ''packing a'')))"

definition unpackDataAAAA :: "bytes \<Rightarrow> nat \<Rightarrow> IP unpacking" where
  "unpackDataAAAA msg off =
     (if off + 16 > length msg then Some ([], length msg, Some (overflow ''unpacking aaaa''))
      else do { aaaa \<leftarrow> slice off (off + 16) msg; Some (aaaa, off + 16, None) })"

definition packDataAAAA :: "IP \<Rightarrow> bytes \<Rightarrow> nat \<Rightarrow> (nat \<times> bytes) packing" where
  "packDataAAAA aaaa msg off =
     (if off + 16 > length msg then Some (Inl (overflow ''packing aaaa''))
      else if length aaaa = 16 then do { msg \<leftarrow> copy_at aaaa msg off; Some (Inr (off + 16, msg)) }
      else if length aaaa = 0 then Some (Inr (off, msg))
      else Some (Inl (overflow ''packing aaaa'')))"

subsection \<open>Character strings\<close>

definition show_txt_byte :: "byte \<Rightarrow> bytes" where
  "show_txt_byte b = (if b = 0x22 \<or> b = backslash then [backslash, b] else if b < 32 \<or> b > 127 then ddd b else [b])"

definition unpackTxtString :: "bytes \<Rightarrow> nat \<Rightarrow> string unpacking" where
  "unpackTxtString msg offset =
     (if offset + 1 > length msg then Some ([], offset, Some (overflow ''unpacking txt''))
      else do {
        c \<leftarrow> index msg offset;
        let l = unat c;
        if offset + l + 1 > length msg then Some ([], offset, Some (overflow ''unpacking txt''))
        else do {
          bs \<leftarrow> slice (offset + 1) (offset + 1 + l) msg;
          Some (string_of_bytes (concat (map show_txt_byte bs)), offset + (1 + l), None) } })"

text \<open>The two functions have the same body.\<close>

definition unpackString :: "bytes \<Rightarrow> nat \<Rightarrow> string unpacking" where
  "unpackString msg off = unpackTxtString msg off"

function unpackTxt :: "bytes \<Rightarrow> nat \<Rightarrow> string list unpacking" where
  "unpackTxt msg off =
     (if off < length msg then
        (case unpackTxtString msg off of
           None \<Rightarrow> None
         | Some (_, off1, Some e) \<Rightarrow> Some ([], off1, Some e)
         | Some (s, off1, None) \<Rightarrow>
             map_option (\<lambda>(ss, off2, err). (s # ss, off2, err)) (unpackTxt msg off1))
      else Some ([], off, None))"
  by pat_completeness auto
termination
  by (relation "measure (\<lambda>(msg, off). length msg - off)")
    (auto simp: unpackTxtString_def Let_def split: if_splits option.splits Option.bind_splits)

definition unpackStringTxt :: "bytes \<Rightarrow> nat \<Rightarrow> string list unpacking" where
  "unpackStringTxt msg off =
     (case unpackTxt msg off of
        None \<Rightarrow> None
      | Some (_, _, Some e) \<Rightarrow> Some ([], length msg, Some e)
      | Some (ss, off, None) \<Rightarrow> Some (ss, off, None))"

text \<open>The loop that writes a string, unescaping it: a lone backslash at the end is dropped.\<close>

fun pack_chars :: "bytes \<Rightarrow> bytes \<Rightarrow> nat \<Rightarrow> (nat \<times> bytes) packing" where
  "pack_chars [] msg offset = Some (Inr (offset, msg))"
| "pack_chars (c # cs) msg offset =
     (if length msg \<le> offset then Some (Inl ErrBuf)
      else if c = backslash then
        (case cs of
           [] \<Rightarrow> Some (Inr (offset, msg))
         | x # y # z # r \<Rightarrow>
             if dns_isDigit x \<and> dns_isDigit y \<and> dns_isDigit z
             then Option.bind (set_index offset (dddToByte x y z) msg) (\<lambda>msg. pack_chars r msg (offset + 1))
             else Option.bind (set_index offset x msg) (\<lambda>msg. pack_chars (y # z # r) msg (offset + 1))
         | x # r \<Rightarrow> Option.bind (set_index offset x msg) (\<lambda>msg. pack_chars r msg (offset + 1)))
      else Option.bind (set_index offset c msg) (\<lambda>msg. pack_chars cs msg (offset + 1)))"

definition txtTmp_len :: nat where "txtTmp_len = 256 * 4 + 1"

definition packTxtString :: "string \<Rightarrow> bytes \<Rightarrow> nat \<Rightarrow> (nat \<times> bytes) packing" where
  "packTxtString s msg offset =
     (if offset \<ge> length msg \<or> length s > txtTmp_len then Some (Inl ErrBuf)
      else case pack_chars (bytes_of s) msg (offset + 1) of
        None \<Rightarrow> None
      | Some (Inl e) \<Rightarrow> Some (Inl e)
      | Some (Inr (off1, msg)) \<Rightarrow>
          if off1 - offset - 1 > 255 then Some (Inl (DnsError ''string exceeded 255 bytes in txt''))
          else do { msg \<leftarrow> set_index offset (of_nat (off1 - offset - 1)) msg; Some (Inr (off1, msg)) })"

definition packString :: "string \<Rightarrow> bytes \<Rightarrow> nat \<Rightarrow> (nat \<times> bytes) packing" where
  "packString s msg off = packTxtString s msg off"

fun packTxt_loop :: "string list \<Rightarrow> bytes \<Rightarrow> nat \<Rightarrow> (nat \<times> bytes) packing" where
  "packTxt_loop [] msg offset = Some (Inr (offset, msg))"
| "packTxt_loop (s # ss) msg offset =
     (if length s > txtTmp_len then Some (Inl ErrBuf)
      else case packTxtString s msg offset of
        None \<Rightarrow> None
      | Some (Inl e) \<Rightarrow> Some (Inl e)
      | Some (Inr (off1, msg)) \<Rightarrow> packTxt_loop ss msg off1)"

definition packTxt :: "string list \<Rightarrow> bytes \<Rightarrow> nat \<Rightarrow> (nat \<times> bytes) packing" where
  "packTxt ss msg offset =
     (if ss = [] then
        if offset \<ge> length msg then Some (Inl ErrBuf)
        else do { msg \<leftarrow> set_index offset 0 msg; Some (Inr (offset, msg)) }
      else packTxt_loop ss msg offset)"

definition packStringTxt :: "string list \<Rightarrow> bytes \<Rightarrow> nat \<Rightarrow> (nat \<times> bytes) packing" where
  "packStringTxt ss msg off = packTxt ss msg off"

definition unpackStringOctet :: "bytes \<Rightarrow> nat \<Rightarrow> string unpacking" where
  "unpackStringOctet msg off = do { b \<leftarrow> tail msg off; Some (string_of_bytes b, length msg, None) }"

definition packOctetString :: "string \<Rightarrow> bytes \<Rightarrow> nat \<Rightarrow> (nat \<times> bytes) packing" where
  "packOctetString s msg offset =
     (if offset \<ge> length msg \<or> length s > txtTmp_len then Some (Inl ErrBuf) else pack_chars (bytes_of s) msg offset)"

definition packStringOctet :: "string \<Rightarrow> bytes \<Rightarrow> nat \<Rightarrow> (nat \<times> bytes) packing" where
  "packStringOctet s msg off = packOctetString s msg off"

subsection \<open>Hexadecimal and base 64 and 32 (encoding/hex, encoding/base64, encoding/base32)\<close>

definition hex_encode :: "bytes \<Rightarrow> string" where
  "hex_encode bs = concat (map hex2 bs)"

fun hex_decode :: "string \<Rightarrow> bytes option" where
  "hex_decode [] = Some []"
| "hex_decode [c] = None"
| "hex_decode (c # d # cs) =
     (case (xdigit c, xdigit d, hex_decode cs) of
        (Some h, Some l, Some bs) \<Rightarrow> Some (of_nat (16 * h + l) # bs)
      | _ \<Rightarrow> None)"

definition base64_char :: "nat \<Rightarrow> char" where
  "base64_char n = ''ABCDEFGHIJKLMNOPQRSTUVWXYZabcdefghijklmnopqrstuvwxyz0123456789+/'' ! n"

fun toBase64 :: "bytes \<Rightarrow> string" where
  "toBase64 [] = []"
| "toBase64 [a] = [base64_char (unat a div 4), base64_char (unat a mod 4 * 16), CHR ''='', CHR ''='']"
| "toBase64 [a, b] =
     [base64_char (unat a div 4), base64_char (unat a mod 4 * 16 + unat b div 16), base64_char (unat b mod 16 * 4), CHR ''='']"
| "toBase64 (a # b # c # bs) =
     [base64_char (unat a div 4), base64_char (unat a mod 4 * 16 + unat b div 16),
      base64_char (unat b mod 16 * 4 + unat c div 64), base64_char (unat c mod 64)] @ toBase64 bs"

definition base64_val :: "char \<Rightarrow> nat option" where
  "base64_val c = (let n = of_char c in
     if 65 \<le> n \<and> n \<le> 90 then Some (n - 65) else if 97 \<le> n \<and> n \<le> 122 then Some (n - 71)
     else if 48 \<le> n \<and> n \<le> 57 then Some (n + 4) else if n = 43 then Some 62 else if n = 47 then Some 63 else None)"

text \<open>
  Line breaks are skipped, padding is only allowed at the very end, and bits that do not make up a
  byte are dropped.
\<close>

fun base64_quanta :: "string \<Rightarrow> bytes option" where
  "base64_quanta [] = Some []"
| "base64_quanta (a # b # c # d # cs) =
     (case (base64_val a, base64_val b) of
        (Some a, Some b) \<Rightarrow>
          if c = CHR ''='' then (if d = CHR ''='' \<and> cs = [] then Some [of_nat (a * 4 + b div 16)] else None)
          else (case base64_val c of
            None \<Rightarrow> None
          | Some c \<Rightarrow>
              if d = CHR ''='' then (if cs = [] then Some [of_nat (a * 4 + b div 16), of_nat (b mod 16 * 16 + c div 4)] else None)
              else (case (base64_val d, base64_quanta cs) of
                (Some d, Some bs) \<Rightarrow>
                  Some ([of_nat (a * 4 + b div 16), of_nat (b mod 16 * 16 + c div 4), of_nat (c mod 4 * 64 + d)] @ bs)
              | _ \<Rightarrow> None))
      | _ \<Rightarrow> None)"
| "base64_quanta _ = None"

definition fromBase64 :: "string \<Rightarrow> bytes option" where
  "fromBase64 s = base64_quanta (filter (\<lambda>c. of_char c \<notin> {10, 13 :: nat}) s)"

definition base32_char :: "nat \<Rightarrow> char" where
  "base32_char n = ''0123456789ABCDEFGHIJKLMNOPQRSTUV'' ! n"

text \<open>The digits of base 32 of the bits of the bytes, with zeros to fill the last digit and no padding.\<close>

definition bits_of :: "bytes \<Rightarrow> bool list" where
  "bits_of bs = concat (map (\<lambda>b. map (bit b) [7, 6, 5, 4, 3, 2, 1, 0]) bs)"

definition val_of :: "bool list \<Rightarrow> nat" where
  "val_of bs = foldl (\<lambda>n b. 2 * n + (if b then 1 else 0)) 0 bs"

function toBase32_bits :: "bool list \<Rightarrow> string" where
  "toBase32_bits bs =
     (if bs = [] then [] else base32_char (val_of (take 5 (bs @ replicate 4 False))) # toBase32_bits (drop 5 bs))"
  by pat_completeness auto
termination
  by (relation "measure length") auto

declare toBase32_bits.simps [simp del]

definition toBase32 :: "bytes \<Rightarrow> string" where
  "toBase32 bs = toBase32_bits (bits_of bs)"

definition base32_val :: "char \<Rightarrow> nat option" where
  "base32_val c = (let n = of_char c in
     if 48 \<le> n \<and> n \<le> 57 then Some (n - 48) else if 65 \<le> n \<and> n \<le> 86 then Some (n - 55) else None)"

text \<open>
  A last group of eight characters that is cut off after 2, 4, 5 or 7 gives 1, 2, 3 or 4 bytes; cut
  off elsewhere it gives none.
\<close>

definition base32_group :: "nat list \<Rightarrow> bytes" where
  "base32_group ds =
     (let n = length ds; k = (if n = 8 then 5 else if n = 7 then 4 else if n = 5 then 3 else if n = 4 then 2 else if n = 2 then 1 else 0);
          v = foldl (\<lambda>v d. 32 * v + d) 0 (ds @ replicate (8 - n) 0)
      in map (\<lambda>i. of_nat (v div 256 ^ (4 - i) mod 256)) [0..<k])"

function base32_groups :: "nat list \<Rightarrow> bytes" where
  "base32_groups ds = (if ds = [] then [] else base32_group (take 8 ds) @ base32_groups (drop 8 ds))"
  by pat_completeness auto
termination
  by (relation "measure length") auto

declare base32_groups.simps [simp del]

definition fromBase32 :: "string \<Rightarrow> bytes option" where
  "fromBase32 s =
     (let up = map (\<lambda>c. if 97 \<le> (of_char c :: nat) \<and> of_char c \<le> (122 :: nat) then char_of (of_char c - 32 :: nat) else c) s;
          ds = map base32_val (filter (\<lambda>c. of_char c \<notin> {10, 13 :: nat}) up)
      in if None \<in> set ds then None else Some (base32_groups (map the ds)))"

definition unpackStringBase32 :: "bytes \<Rightarrow> nat \<Rightarrow> nat \<Rightarrow> string unpacking" where
  "unpackStringBase32 msg off stop =
     (if stop > length msg then Some ([], length msg, Some (overflow ''unpacking base32''))
      else do { b \<leftarrow> slice off stop msg; Some (toBase32 b, stop, None) })"

definition unpackStringBase64 :: "bytes \<Rightarrow> nat \<Rightarrow> nat \<Rightarrow> string unpacking" where
  "unpackStringBase64 msg off stop =
     (if stop > length msg then Some ([], length msg, Some (overflow ''unpacking base64''))
      else do { b \<leftarrow> slice off stop msg; Some (toBase64 b, stop, None) })"

definition unpackStringHex :: "bytes \<Rightarrow> nat \<Rightarrow> nat \<Rightarrow> string unpacking" where
  "unpackStringHex msg off stop =
     (if stop > length msg then Some ([], length msg, Some (overflow ''unpacking hex''))
      else do { b \<leftarrow> slice off stop msg; Some (hex_encode b, stop, None) })"

text \<open>The end of the three packers: the decoded bytes are copied to the offset if they fit.\<close>

definition pack_decoded :: "string \<Rightarrow> bytes option \<Rightarrow> bytes \<Rightarrow> nat \<Rightarrow> (nat \<times> bytes) packing" where
  "pack_decoded what decoded msg off =
     (case decoded of
        None \<Rightarrow> Some (Inl (DnsError (''bad '' @ what)))
      | Some b \<Rightarrow>
          if off + length b > length msg then Some (Inl (overflow (''packing '' @ what)))
          else do { msg \<leftarrow> copy_to off (off + length b) b msg; Some (Inr (off + length b, msg)) })"

definition packStringBase32 :: "string \<Rightarrow> bytes \<Rightarrow> nat \<Rightarrow> (nat \<times> bytes) packing" where
  "packStringBase32 s msg off = pack_decoded ''base32'' (fromBase32 s) msg off"

definition packStringBase64 :: "string \<Rightarrow> bytes \<Rightarrow> nat \<Rightarrow> (nat \<times> bytes) packing" where
  "packStringBase64 s msg off = pack_decoded ''base64'' (fromBase64 s) msg off"

definition packStringHex :: "string \<Rightarrow> bytes \<Rightarrow> nat \<Rightarrow> (nat \<times> bytes) packing" where
  "packStringHex s msg off = pack_decoded ''hex'' (hex_decode s) msg off"

subsection \<open>Type bit maps\<close>

definition nsec_bits :: "nat \<Rightarrow> nat \<Rightarrow> byte \<Rightarrow> 16 word list" where
  "nsec_bits window j b =
     map (\<lambda>k. of_nat (window * 256 + j * 8 + k)) (filter (\<lambda>k. b AND 2 ^ (7 - k) = 2 ^ (7 - k)) [0..<8])"

definition nsec_block :: "nat \<Rightarrow> bytes \<Rightarrow> 16 word list" where
  "nsec_block window bs = concat (map (\<lambda>(j, b). nsec_bits window j b) (enumerate 0 bs))"

text \<open>\<^verbatim>\<open>lastwindow\<close> starts at -1: the previous window, if there was one.\<close>

function unpackDataNsec_loop :: "bytes \<Rightarrow> nat \<Rightarrow> nat option \<Rightarrow> 16 word list \<Rightarrow> 16 word list unpacking" where
  "unpackDataNsec_loop msg off lastwindow nsec =
     (if off \<ge> length msg then Some (nsec, off, None)
      else if off + 2 > length msg then Some (nsec, length msg, Some (overflow ''unpacking nsecx''))
      else case (index msg off, index msg (off + 1)) of
        (Some w, Some l) \<Rightarrow>
          if (case lastwindow of None \<Rightarrow> False | Some lw \<Rightarrow> unat w \<le> lw) then Some (nsec, length msg, Some (DnsError ''out of order NSEC block''))
          else if unat l = 0 then Some (nsec, length msg, Some (DnsError ''empty NSEC block''))
          else if unat l > 32 then Some (nsec, length msg, Some (DnsError ''NSEC block too long''))
          else if off + 2 + unat l > length msg then Some (nsec, length msg, Some (DnsError ''overflowing NSEC block''))
          else (case slice (off + 2) (off + 2 + unat l) msg of
            None \<Rightarrow> None
          | Some bs \<Rightarrow> unpackDataNsec_loop msg (off + 2 + unat l) (Some (unat w)) (nsec @ nsec_block (unat w) bs))
      | _ \<Rightarrow> None)"
  by pat_completeness auto
termination
  by (relation "measure (\<lambda>(msg, off, _, _). length msg - off)") auto

declare unpackDataNsec_loop.simps [simp del] unpackTxt.simps [simp del]

definition unpackDataNsec :: "bytes \<Rightarrow> nat \<Rightarrow> 16 word list unpacking" where
  "unpackDataNsec msg off = unpackDataNsec_loop msg off None []"

text \<open>
  One type written into the bit map: the window and length of its block, which become the last ones.
  They are 16-bit integers in the source; here they are at most 255 and 32.
\<close>

definition nsec_put :: "nat \<Rightarrow> nat \<Rightarrow> 16 word \<Rightarrow> bytes \<Rightarrow> nat \<Rightarrow> bytes option" where
  "nsec_put window len t msg off = do {
     msg \<leftarrow> set_index off (of_nat window) msg;
     msg \<leftarrow> set_index (off + 1) (of_nat len) msg;
     b \<leftarrow> index msg (off + 1 + len);
     set_index (off + 1 + len) (b OR push_bit (7 - unat t mod 8) 1) msg }"

definition nsec_step :: "16 word \<Rightarrow> nat \<Rightarrow> nat \<Rightarrow> bytes \<Rightarrow> nat \<Rightarrow> (nat \<times> nat \<times> bytes \<times> nat) packing" where
  "nsec_step t lastwindow lastlength msg off =
     (let window = unat t div 256; len = (unat t - window * 256) div 8 + 1;
          (off, lastlength) = (if window > lastwindow \<and> lastlength \<noteq> 0 then (off + lastlength + 2, 0) else (off, lastlength))
      in if window < lastwindow \<or> len < lastlength then Some (Inl (DnsError ''nsec bits out of order''))
         else if off + 2 + len > length msg then Some (Inl (overflow ''packing nsec''))
         else do { msg \<leftarrow> nsec_put window len t msg off; Some (Inr (window, len, msg, off)) })"

fun packDataNsec_loop :: "16 word list \<Rightarrow> nat \<Rightarrow> nat \<Rightarrow> bytes \<Rightarrow> nat \<Rightarrow> (nat \<times> bytes) packing" where
  "packDataNsec_loop [] lastwindow lastlength msg off = Some (Inr (off + lastlength + 2, msg))"
| "packDataNsec_loop (t # ts) lastwindow lastlength msg off =
     (case nsec_step t lastwindow lastlength msg off of
        None \<Rightarrow> None
      | Some (Inl e) \<Rightarrow> Some (Inl e)
      | Some (Inr (window, len, msg, off)) \<Rightarrow> packDataNsec_loop ts window len msg off)"

definition packDataNsec :: "16 word list \<Rightarrow> bytes \<Rightarrow> nat \<Rightarrow> (nat \<times> bytes) packing" where
  "packDataNsec bitmap msg off = (if bitmap = [] then Some (Inr (off, msg)) else packDataNsec_loop bitmap 0 0 msg off)"

subsection \<open>Lists of names\<close>

function unpack_names :: "bytes \<Rightarrow> nat \<Rightarrow> nat \<Rightarrow> string list unpacking" where
  "unpack_names msg off stop =
     (if off < stop then
        (case UnpackDomainName msg off of
           None \<Rightarrow> None
         | Some (_, _, Some e) \<Rightarrow> Some ([], length msg, Some e)
         | Some (s, off1, None) \<Rightarrow>
             map_option (\<lambda>(ss, off2, err). (s # ss, off2, err)) (unpack_names msg off1 stop))
      else Some ([], off, None))"
  by pat_completeness auto
termination
  by (relation "measure (\<lambda>(_, off, stop). stop - off)") (auto dest: UnpackDomainName_advances)

declare unpack_names.simps [simp del]

definition unpackDataDomainNames :: "bytes \<Rightarrow> nat \<Rightarrow> nat \<Rightarrow> string list unpacking" where
  "unpackDataDomainNames msg off stop =
     (if stop > length msg then Some ([], length msg, Some (overflow ''unpacking domain names''))
      else unpack_names msg off stop)"

fun packDataDomainNames ::
  "string list \<Rightarrow> bytes \<Rightarrow> nat \<Rightarrow> (bytes \<rightharpoonup> nat) option \<Rightarrow> (nat \<times> bytes \<times> (bytes \<rightharpoonup> nat) option) packing" where
  "packDataDomainNames [] msg off cm = Some (Inr (off, msg, cm))"
| "packDataDomainNames (s # ss) msg off cm =
     (case PackDomainName s msg off cm False of
        None \<Rightarrow> None
      | Some (Inl e) \<Rightarrow> Some (Inl e)
      | Some (Inr (off, msg, cm)) \<Rightarrow> packDataDomainNames ss msg off cm)"

subsection \<open>EDNS0 options\<close>

abbreviation EDNS0LLQ :: "16 word" where "EDNS0LLQ \<equiv> 1"
abbreviation EDNS0UL :: "16 word" where "EDNS0UL \<equiv> 2"
abbreviation EDNS0NSID :: "16 word" where "EDNS0NSID \<equiv> 3"
abbreviation EDNS0DAU :: "16 word" where "EDNS0DAU \<equiv> 5"
abbreviation EDNS0DHU :: "16 word" where "EDNS0DHU \<equiv> 6"
abbreviation EDNS0N3U :: "16 word" where "EDNS0N3U \<equiv> 7"
abbreviation EDNS0SUBNET :: "16 word" where "EDNS0SUBNET \<equiv> 8"
abbreviation EDNS0EXPIRE :: "16 word" where "EDNS0EXPIRE \<equiv> 9"
abbreviation EDNS0COOKIE :: "16 word" where "EDNS0COOKIE \<equiv> 10"
abbreviation EDNS0TCPKEEPALIVE :: "16 word" where "EDNS0TCPKEEPALIVE \<equiv> 11"
abbreviation EDNS0PADDING :: "16 word" where "EDNS0PADDING \<equiv> 12"

text \<open>
  The option types with their fields, the code first where there is one: the address family, the two
  masks and the address of a subnet; the version, opcode, error, identifier and lease of a long lived
  query; the length and timeout of a keepalive.
\<close>

datatype EDNS0 =
    EDNS0_NSID "16 word" string
  | EDNS0_SUBNET "16 word" "16 word" "8 word" "8 word" IP
  | EDNS0_COOKIE "16 word" string
  | EDNS0_UL "16 word" "32 word"
  | EDNS0_LLQ "16 word" "16 word" "16 word" "16 word" "64 word" "32 word"
  | EDNS0_DAU "16 word" bytes
  | EDNS0_DHU "16 word" bytes
  | EDNS0_N3U "16 word" bytes
  | EDNS0_EXPIRE "16 word" "32 word"
  | EDNS0_LOCAL "16 word" bytes
  | EDNS0_TCP_KEEPALIVE "16 word" "16 word" "16 word"
  | EDNS0_PADDING bytes

fun EDNS0_Option :: "EDNS0 \<Rightarrow> 16 word" where
  "EDNS0_Option (EDNS0_NSID _ _) = EDNS0NSID"
| "EDNS0_Option (EDNS0_SUBNET _ _ _ _ _) = EDNS0SUBNET"
| "EDNS0_Option (EDNS0_COOKIE _ _) = EDNS0COOKIE"
| "EDNS0_Option (EDNS0_UL _ _) = EDNS0UL"
| "EDNS0_Option (EDNS0_LLQ _ _ _ _ _ _) = EDNS0LLQ"
| "EDNS0_Option (EDNS0_DAU _ _) = EDNS0DAU"
| "EDNS0_Option (EDNS0_DHU _ _) = EDNS0DHU"
| "EDNS0_Option (EDNS0_N3U _ _) = EDNS0N3U"
| "EDNS0_Option (EDNS0_EXPIRE _ _) = EDNS0EXPIRE"
| "EDNS0_Option (EDNS0_LOCAL code _) = code"
| "EDNS0_Option (EDNS0_TCP_KEEPALIVE _ _ _) = EDNS0TCPKEEPALIVE"
| "EDNS0_Option (EDNS0_PADDING _) = EDNS0PADDING"

text \<open>The unpack methods, on a fresh option of the type; its code stays at the zero value.\<close>

definition unpack_SUBNET :: "bytes \<Rightarrow> (dns_error + EDNS0) option" where
  "unpack_SUBNET b =
     (if length b < 4 then Some (Inl ErrBuf)
      else do {
        family \<leftarrow> Uint16 b; m \<leftarrow> index b 2; sc \<leftarrow> index b 3;
        let addr = (\<lambda>n. take n (drop 4 b @ replicate n 0));
        if family = 0 then
          if m \<noteq> 0 then Some (Inl (DnsError ''dns: bad address family''))
          else Some (Inr (EDNS0_SUBNET 0 family m sc (IPv4 0 0 0 0)))
        else if family = 1 then
          if m > 32 \<or> sc > 32 then Some (Inl (DnsError ''dns: bad netmask''))
          else Some (Inr (EDNS0_SUBNET 0 family m sc (v4InV6Prefix @ addr 4)))
        else if family = 2 then
          if m > 128 \<or> sc > 128 then Some (Inl (DnsError ''dns: bad netmask''))
          else Some (Inr (EDNS0_SUBNET 0 family m sc (addr 16)))
        else Some (Inl (DnsError ''dns: bad address family'')) })"

definition unpack_UL :: "bytes \<Rightarrow> (dns_error + EDNS0) option" where
  "unpack_UL b = (if length b < 4 then Some (Inl ErrBuf) else do { lease \<leftarrow> Uint32 b; Some (Inr (EDNS0_UL 0 lease)) })"

definition unpack_LLQ :: "bytes \<Rightarrow> (dns_error + EDNS0) option" where
  "unpack_LLQ b =
     (if length b < 18 then Some (Inl ErrBuf)
      else do {
        version \<leftarrow> Uint16 b; opcode \<leftarrow> Uint16 (drop 2 b); err \<leftarrow> Uint16 (drop 4 b); id \<leftarrow> Uint64 (drop 6 b);
        life \<leftarrow> Uint32 (drop 14 b);
        Some (Inr (EDNS0_LLQ 0 version opcode err id life)) })"

definition unpack_option :: "16 word \<Rightarrow> bytes \<Rightarrow> (dns_error + EDNS0) option" where
  "unpack_option code b =
     (if code = EDNS0NSID then Some (Inr (EDNS0_NSID 0 (hex_encode b)))
      else if code = EDNS0SUBNET then unpack_SUBNET b
      else if code = EDNS0COOKIE then Some (Inr (EDNS0_COOKIE 0 (hex_encode b)))
      else if code = EDNS0UL then unpack_UL b
      else if code = EDNS0LLQ then unpack_LLQ b
      else if code = EDNS0DAU then Some (Inr (EDNS0_DAU 0 b))
      else if code = EDNS0DHU then Some (Inr (EDNS0_DHU 0 b))
      else if code = EDNS0N3U then Some (Inr (EDNS0_N3U 0 b))
      else if code = EDNS0PADDING then Some (Inr (EDNS0_PADDING b))
      else Some (Inr (EDNS0_LOCAL code b)))"

function unpackDataOpt :: "bytes \<Rightarrow> nat \<Rightarrow> EDNS0 list unpacking" where
  "unpackDataOpt msg off =
     (if off + 4 > length msg then Some ([], length msg, Some (overflow ''unpacking opt''))
      else case (Option.bind (tail msg off) Uint16, Option.bind (tail msg (off + 2)) Uint16) of
        (Some code, Some optlen) \<Rightarrow>
          if off + 4 + unat optlen > length msg then Some ([], length msg, Some (overflow ''unpacking opt''))
          else (case Option.bind (slice (off + 4) (off + 4 + unat optlen) msg) (unpack_option code) of
            None \<Rightarrow> None
          | Some (Inl e) \<Rightarrow> Some ([], length msg, Some e)
          | Some (Inr e) \<Rightarrow>
              if off + 4 + unat optlen < length msg
              then map_option (\<lambda>(edns, off2, err). (if err = None then e # edns else [], off2, err)) (unpackDataOpt msg (off + 4 + unat optlen))
              else Some ([e], off + 4 + unat optlen, None))
      | _ \<Rightarrow> None)"
  by pat_completeness auto
termination
  by (relation "measure (\<lambda>(msg, off). length msg - off)") auto

declare unpackDataOpt.simps [simp del]

text \<open>The pack methods. A zero keepalive timeout is packed without it.\<close>

definition pack_SUBNET :: "16 word \<Rightarrow> 8 word \<Rightarrow> 8 word \<Rightarrow> IP \<Rightarrow> dns_error + bytes" where
  "pack_SUBNET family m sc address =
     (let b = PutUint16 family @ [m, sc]; need = (unat m + 8 - 1) div 8 in
      if family = 0 then if m \<noteq> 0 then Inl (DnsError ''dns: bad address family'') else Inr b
      else if family = 1 then
        if m > 32 then Inl (DnsError ''dns: bad netmask'')
        else if length (To4 address) \<noteq> 4 then Inl (DnsError ''dns: bad address'')
        else Inr (b @ take need (IP_Mask (To4 address) (CIDRMask (unat m) 32)))
      else if family = 2 then
        if m > 128 then Inl (DnsError ''dns: bad netmask'')
        else if length address \<noteq> 16 then Inl (DnsError ''dns: bad address'')
        else Inr (b @ take need (IP_Mask address (CIDRMask (unat m) 128)))
      else Inl (DnsError ''dns: bad address family''))"

definition pack_TCP_KEEPALIVE :: "16 word \<Rightarrow> 16 word \<Rightarrow> 16 word \<Rightarrow> dns_error + bytes" where
  "pack_TCP_KEEPALIVE code len timeout =
     (if timeout \<noteq> 0 \<and> len \<noteq> 2 then Inl (DnsError ''dns: timeout specified but length is not 2'')
      else if timeout = 0 \<and> len \<noteq> 0 then Inl (DnsError ''dns: timeout not specified but length is not 0'')
      else Inr (PutUint16 code @ PutUint16 len @ (if len = 2 then PutUint16 timeout else [])))"

fun EDNS0_pack :: "EDNS0 \<Rightarrow> dns_error + bytes" where
  "EDNS0_pack (EDNS0_NSID _ s) = (case hex_decode s of None \<Rightarrow> Inl (DnsError ''bad hex'') | Some h \<Rightarrow> Inr h)"
| "EDNS0_pack (EDNS0_SUBNET _ family m sc address) = pack_SUBNET family m sc address"
| "EDNS0_pack (EDNS0_COOKIE _ s) = (case hex_decode s of None \<Rightarrow> Inl (DnsError ''bad hex'') | Some h \<Rightarrow> Inr h)"
| "EDNS0_pack (EDNS0_UL _ lease) = Inr (PutUint32 lease)"
| "EDNS0_pack (EDNS0_LLQ _ version opcode err ident life) =
     Inr (PutUint16 version @ PutUint16 opcode @ PutUint16 err @ PutUint64 ident @ PutUint32 life)"
| "EDNS0_pack (EDNS0_DAU _ b) = Inr b"
| "EDNS0_pack (EDNS0_DHU _ b) = Inr b"
| "EDNS0_pack (EDNS0_N3U _ b) = Inr b"
| "EDNS0_pack (EDNS0_EXPIRE _ e) = Inr (PutUint32 e)"
| "EDNS0_pack (EDNS0_LOCAL _ b) = Inr b"
| "EDNS0_pack (EDNS0_TCP_KEEPALIVE code len timeout) = pack_TCP_KEEPALIVE code len timeout"
| "EDNS0_pack (EDNS0_PADDING b) = Inr b"

fun packDataOpt :: "EDNS0 list \<Rightarrow> bytes \<Rightarrow> nat \<Rightarrow> (nat \<times> bytes) packing" where
  "packDataOpt [] msg off = Some (Inr (off, msg))"
| "packDataOpt (el # els) msg off =
     (case EDNS0_pack el of
        Inl _ \<Rightarrow> Some (Inl (overflow ''packing opt''))
      | Inr b \<Rightarrow>
          if off + 3 > length msg then Some (Inl (overflow ''packing opt''))
          else case put (PutUint16 (EDNS0_Option el)) msg off of None \<Rightarrow> None | Some msg \<Rightarrow>
            (case put (PutUint16 (of_nat (length b))) msg (off + 2) of None \<Rightarrow> None | Some msg \<Rightarrow>
              if off + 4 + length b > length msg
              then (case copy_at b msg (off + 4) of None \<Rightarrow> None | Some msg \<Rightarrow> packDataOpt els msg (length msg))
              else (case copy_to (off + 4) (off + 4 + length b) b msg of
                None \<Rightarrow> None
              | Some msg \<Rightarrow> packDataOpt els msg (off + 4 + length b))))"

subsection \<open>Reading stays inside the message\<close>

text \<open>A reader that does not panic, leaves the offset inside of the message, and does not move it back.\<close>

definition reads :: "bytes \<Rightarrow> nat \<Rightarrow> 'a unpacking \<Rightarrow> bool" where
  "reads msg off r \<longleftrightarrow> (case r of None \<Rightarrow> False | Some (_, off1, err) \<Rightarrow> off1 \<le> length msg \<and> (err = None \<longrightarrow> off \<le> off1))"

named_theorems reads_intro \<open>readers that stay inside the message\<close>

lemma reads_Some [simp]: "reads msg off (Some (v, off1, err)) \<longleftrightarrow> off1 \<le> length msg \<and> (err = None \<longrightarrow> off \<le> off1)"
  by (simp add: reads_def)

lemma reads_unpacked [simp]: "reads msg off (map_option (map_prod c id) r) \<longleftrightarrow> reads msg off r"
  by (auto simp: reads_def split: option.splits)

lemma readsE:
  assumes "reads msg off r"
  obtains v off1 err where "r = Some (v, off1, err)" "off1 \<le> length msg" "err = None \<Longrightarrow> off \<le> off1"
  using assms by (auto simp: reads_def split: option.splits)

lemma tail_in_range: "off \<le> length msg \<Longrightarrow> tail msg off = Some (drop off msg)"
  by (simp add: tail_def slice_def)

lemma Uint16_defined: "2 \<le> length b \<Longrightarrow> \<exists>v. Uint16 b = Some v"
  by (cases b; cases "tl b") (auto simp: Uint16_def)

lemma long_list_8: "8 \<le> length b \<Longrightarrow> \<exists>b0 b1 b2 b3 b4 b5 b6 b7 r. b = b0 # b1 # b2 # b3 # b4 # b5 # b6 # b7 # r"
  by (auto simp: numeral_eq_Suc Suc_le_length_iff)

lemma long_list_4: "4 \<le> length b \<Longrightarrow> \<exists>b0 b1 b2 b3 r. b = b0 # b1 # b2 # b3 # r"
  by (auto simp: numeral_eq_Suc Suc_le_length_iff)

lemma Uint32_defined: "4 \<le> length b \<Longrightarrow> \<exists>v. Uint32 b = Some v"
  using long_list_4 [of b] by (auto simp: Uint32_def)

lemma Uint64_defined: "8 \<le> length b \<Longrightarrow> \<exists>v. Uint64 b = Some v"
  using long_list_8 [of b] by (auto simp: Uint64_def)

lemma Uint16_at: "off + 2 \<le> length msg \<Longrightarrow> \<exists>v. Option.bind (tail msg off) Uint16 = Some v"
  using Uint16_defined [of "drop off msg"] by (simp add: tail_in_range)

lemma Uint32_at: "off + 4 \<le> length msg \<Longrightarrow> \<exists>v. Option.bind (tail msg off) Uint32 = Some v"
  using Uint32_defined [of "drop off msg"] by (simp add: tail_in_range)

lemma Uint64_at: "off + 8 \<le> length msg \<Longrightarrow> \<exists>v. Option.bind (tail msg off) Uint64 = Some v"
  using Uint64_defined [of "drop off msg"] by (simp add: tail_in_range)

lemma reads_unpackUint8 [reads_intro]: "reads msg off (unpackUint8 msg off)"
  by (simp add: unpackUint8_def index_in_range)

lemma reads_unpackUint16 [reads_intro]: "reads msg off (unpackUint16 msg off)"
  using Uint16_at [of off msg] by (cases "off + 2 \<le> length msg") (auto simp: unpackUint16_def simp flip: Option.bind_assoc)

lemma reads_unpackUint32 [reads_intro]: "reads msg off (unpackUint32 msg off)"
  using Uint32_at [of off msg] by (cases "off + 4 \<le> length msg") (auto simp: unpackUint32_def simp flip: Option.bind_assoc)

lemma reads_unpackUint48 [reads_intro]: "reads msg off (unpackUint48 msg off)"
  by (simp add: unpackUint48_def index_in_range)

lemma reads_unpackUint64 [reads_intro]: "reads msg off (unpackUint64 msg off)"
  using Uint64_at [of off msg] by (cases "off + 8 \<le> length msg") (auto simp: unpackUint64_def simp flip: Option.bind_assoc)

lemma reads_unpackDataA [reads_intro]: "reads msg off (unpackDataA msg off)"
  by (simp add: unpackDataA_def slice_in_range)

lemma reads_unpackDataAAAA [reads_intro]: "reads msg off (unpackDataAAAA msg off)"
  by (simp add: unpackDataAAAA_def slice_in_range)

lemma reads_UnpackDomainName [reads_intro]: "reads msg off (UnpackDomainName msg off)"
  by (rule UnpackDomainName_total [of msg off]) auto

lemma unpackTxtString_cases:
  assumes "off \<le> length msg"
  obtains e where "unpackTxtString msg off = Some ([], off, Some e)"
  | s off1 where "unpackTxtString msg off = Some (s, off1, None)" "off < off1" "off1 \<le> length msg"
proof (cases "off < length msg \<and> off + unat (msg ! off) + 1 \<le> length msg")
  case True
  then show ?thesis by (intro that(2)) (auto simp: unpackTxtString_def Let_def index_in_range slice_in_range)
next
  case False
  then have "unpackTxtString msg off = Some ([], off, Some (overflow ''unpacking txt''))"
    by (auto simp: unpackTxtString_def Let_def index_def)
  then show ?thesis by (rule that(1))
qed

lemma reads_unpackString [reads_intro]: "off \<le> length msg \<Longrightarrow> reads msg off (unpackString msg off)"
  unfolding unpackString_def by (rule unpackTxtString_cases [of off msg]) auto

lemma reads_unpackTxt: "off \<le> length msg \<Longrightarrow> reads msg off (unpackTxt msg off)"
proof (induction msg off rule: unpackTxt.induct)
  case (1 msg off)
  show ?case
  proof (cases "off < length msg")
    case True
    from 1(2) show ?thesis
    proof (cases rule: unpackTxtString_cases)
      case (2 s off1)
      from 1(1) [OF True 2(1)] 2 have "reads msg off1 (unpackTxt msg off1)" by simp
      with 2 True show ?thesis by (subst unpackTxt.simps) (auto elim!: readsE)
    qed (use True 1(2) in \<open>subst unpackTxt.simps, simp\<close>)
  qed (use 1(2) in \<open>subst unpackTxt.simps, simp\<close>)
qed

lemma reads_unpackStringTxt [reads_intro]: "off \<le> length msg \<Longrightarrow> reads msg off (unpackStringTxt msg off)"
  unfolding unpackStringTxt_def by (drule reads_unpackTxt) (auto elim!: readsE split: option.splits)

lemma reads_unpackStringOctet [reads_intro]: "off \<le> length msg \<Longrightarrow> reads msg off (unpackStringOctet msg off)"
  by (simp add: unpackStringOctet_def tail_in_range)

lemma reads_unpackStringHex [reads_intro]: "off \<le> stop \<Longrightarrow> reads msg off (unpackStringHex msg off stop)"
  by (simp add: unpackStringHex_def slice_in_range)

lemma reads_unpackStringBase64 [reads_intro]: "off \<le> stop \<Longrightarrow> reads msg off (unpackStringBase64 msg off stop)"
  by (simp add: unpackStringBase64_def slice_in_range)

lemma reads_unpackStringBase32 [reads_intro]: "off \<le> stop \<Longrightarrow> reads msg off (unpackStringBase32 msg off stop)"
  by (simp add: unpackStringBase32_def slice_in_range)

lemma reads_unpackDataNsec_loop: "off \<le> length msg \<Longrightarrow> reads msg off (unpackDataNsec_loop msg off lw ts)"
proof (induction msg off lw ts rule: unpackDataNsec_loop.induct)
  case (1 msg off lw ts)
  show ?case
  proof (cases "off + 2 \<le> length msg")
    case True
    then have i: "index msg off = Some (msg ! off)" "index msg (off + 1) = Some (msg ! (off + 1))" by (simp_all add: index_in_range)
    show ?thesis
    proof (cases "(case lw of None \<Rightarrow> False | Some w \<Rightarrow> unat (msg ! off) \<le> w) \<or> unat (msg ! (off + 1)) = 0 \<or> unat (msg ! (off + 1)) > 32
        \<or> off + 2 + unat (msg ! (off + 1)) > length msg")
      case False
      then have "reads msg (off + 2 + unat (msg ! (off + 1))) (unpackDataNsec_loop msg (off + 2 + unat (msg ! (off + 1)))
          (Some (unat (msg ! off))) (ts @ nsec_block (unat (msg ! off)) (take (unat (msg ! (off + 1))) (drop (off + 2) msg))))"
        using True i by (intro 1(1)) (auto simp: slice_in_range)
      with True False i show ?thesis
        by (subst unpackDataNsec_loop.simps) (auto simp: slice_in_range elim!: readsE)
    qed (use True i in \<open>subst unpackDataNsec_loop.simps, auto\<close>)
  qed (use 1(2) in \<open>subst unpackDataNsec_loop.simps, auto\<close>)
qed

lemma reads_unpackDataNsec [reads_intro]: "off \<le> length msg \<Longrightarrow> reads msg off (unpackDataNsec msg off)"
  unfolding unpackDataNsec_def by (rule reads_unpackDataNsec_loop)

lemma reads_unpack_names: "off \<le> length msg \<Longrightarrow> reads msg off (unpack_names msg off stop)"
proof (induction msg off stop rule: unpack_names.induct)
  case (1 msg off stop)
  show ?case
  proof (cases "off < stop")
    case True
    from reads_UnpackDomainName [of msg off] obtain s off1 err where u: "UnpackDomainName msg off = Some (s, off1, err)" "off1 \<le> length msg"
      "err = None \<longrightarrow> off \<le> off1" by (auto elim!: readsE)
    show ?thesis
    proof (cases err)
      case None
      with u True have "reads msg off1 (unpack_names msg off1 stop)" by (intro 1(1)) auto
      with u None True show ?thesis by (subst unpack_names.simps) (auto elim!: readsE)
    qed (use u True in \<open>subst unpack_names.simps, simp\<close>)
  qed (use 1(2) in \<open>subst unpack_names.simps, simp\<close>)
qed

lemma reads_unpackDataDomainNames [reads_intro]: "off \<le> length msg \<Longrightarrow> reads msg off (unpackDataDomainNames msg off stop)"
  by (simp add: unpackDataDomainNames_def reads_unpack_names)

lemma unpack_option_defined: "\<exists>r. unpack_option code b = Some r"
proof -
  have "\<exists>r. unpack_SUBNET b = Some r"
    using Uint16_defined [of b] by (cases "length b < 4") (auto simp: unpack_SUBNET_def Let_def index_in_range)
  moreover have "\<exists>r. unpack_UL b = Some r"
    using Uint32_defined [of b] by (cases "length b < 4") (auto simp: unpack_UL_def)
  moreover have "\<exists>r. unpack_LLQ b = Some r"
  proof (cases "length b < 18")
    case False
    then have "2 \<le> length b" "2 \<le> length (drop 2 b)" "2 \<le> length (drop 4 b)" "8 \<le> length (drop 6 b)" "4 \<le> length (drop 14 b)" by simp_all
    then show ?thesis
      using Uint16_defined [of b] Uint16_defined [of "drop 2 b"] Uint16_defined [of "drop 4 b"] Uint64_defined [of "drop 6 b"]
        Uint32_defined [of "drop 14 b"] by (auto simp: unpack_LLQ_def)
  qed (simp add: unpack_LLQ_def)
  ultimately show ?thesis by (simp add: unpack_option_def)
qed

lemma reads_unpackDataOpt [reads_intro]: "reads msg off (unpackDataOpt msg off)"
proof (induction msg off rule: unpackDataOpt.induct)
  case (1 msg off)
  show ?case
  proof (cases "off + 4 \<le> length msg")
    case True
    obtain code where c: "Option.bind (tail msg off) Uint16 = Some code"
      using True Uint16_at [of off msg] by auto
    obtain optlen where l: "Option.bind (tail msg (off + 2)) Uint16 = Some optlen"
      using True Uint16_at [of "off + 2" msg] by auto
    show ?thesis
    proof (cases "off + 4 + unat optlen \<le> length msg")
      case fits: True
      obtain r where r: "Option.bind (slice (off + 4) (off + 4 + unat optlen) msg) (unpack_option code) = Some r"
        using fits unpack_option_defined by (simp add: slice_in_range) blast
      show ?thesis
      proof (cases r)
        case (Inl e)
        with True c l fits r show ?thesis by (subst unpackDataOpt.simps) simp
      next
        case (Inr e)
        show ?thesis
        proof (cases "off + 4 + unat optlen < length msg")
          case more: True
          have "reads msg (off + 4 + unat optlen) (unpackDataOpt msg (off + 4 + unat optlen))"
            using True c l fits r Inr more by (intro 1) auto
          with True c l fits r Inr more show ?thesis by (subst unpackDataOpt.simps) (auto elim!: readsE)
        qed (use True c l fits r Inr in \<open>subst unpackDataOpt.simps, simp\<close>)
      qed
    qed (use True c l in \<open>subst unpackDataOpt.simps, simp\<close>)
  qed (subst unpackDataOpt.simps, simp)
qed

end
