(* ===== verification/DnsRecords.thy ===== *)
theory DnsRecords
  imports DnsData
begin

text \<open>
  Resource records. The library generates the code of some seventy record types from the tags on the
  fields of their structs (\<^verbatim>\<open>msg_generate.go\<close>); here a record type is the list of its fields with their
  tags, and the generated functions are the two interpreters of such a list below, which pack and
  unpack one field after the other (\<^verbatim>\<open>zmsg.go\<close>). The header of a record is packed and unpacked by hand
  (\<^verbatim>\<open>msg_helpers.go\<close>).
\<close>

subsection \<open>Headers\<close>

record RR_Header =
  rr_Name :: string
  rr_Rrtype :: "16 word"
  rr_Class :: "16 word"
  rr_Ttl :: "32 word"
  rr_Rdlength :: "16 word"

definition RR_Header_len :: "RR_Header \<Rightarrow> nat" where
  "RR_Header_len h = length (rr_Name h) + 1 + 10"

type_synonym compression = "(bytes \<rightharpoonup> nat) option"

text \<open>Going on after a packing step, and after an unpacking step or returning its error.\<close>

definition pthen :: "'a packing \<Rightarrow> ('a \<Rightarrow> 'b packing) \<Rightarrow> 'b packing" where
  "pthen r k = (case r of None \<Rightarrow> None | Some (Inl e) \<Rightarrow> Some (Inl e) | Some (Inr x) \<Rightarrow> k x)"

definition uthen :: "'a unpacking \<Rightarrow> ('a \<Rightarrow> nat \<Rightarrow> dns_error \<Rightarrow> 'b) \<Rightarrow> ('a \<Rightarrow> nat \<Rightarrow> 'b option) \<Rightarrow> 'b option" where
  "uthen r fail k = (case r of None \<Rightarrow> None | Some (v, off, Some e) \<Rightarrow> Some (fail v off e) | Some (v, off, None) \<Rightarrow> k v off)"

definition RR_Header_pack :: "RR_Header \<Rightarrow> bytes \<Rightarrow> nat \<Rightarrow> compression \<Rightarrow> bool \<Rightarrow> (nat \<times> bytes \<times> compression) packing" where
  "RR_Header_pack hdr msg off cm compress =
     (if off = length msg then Some (Inr (off, msg, cm))
      else
        pthen (PackDomainName (rr_Name hdr) msg off cm compress) (\<lambda>(off, msg, cm).
        pthen (packUint16 (rr_Rrtype hdr) msg off) (\<lambda>(off, msg).
        pthen (packUint16 (rr_Class hdr) msg off) (\<lambda>(off, msg).
        pthen (packUint32 (rr_Ttl hdr) msg off) (\<lambda>(off, msg).
        pthen (packUint16 (rr_Rdlength hdr) msg off) (\<lambda>(off, msg).
        Some (Inr (off, msg, cm))))))))"

definition truncateMsgFromRdlength :: "bytes \<Rightarrow> nat \<Rightarrow> 16 word \<Rightarrow> (bytes \<times> dns_error option) option" where
  "truncateMsgFromRdlength msg off rdlength =
     (let lenrd = off + unat rdlength in
      if lenrd > length msg then Some (msg, Some (DnsError ''overflowing header size''))
      else do { msg \<leftarrow> slice 0 lenrd msg; Some (msg, None) })"

definition unpackHeader :: "bytes \<Rightarrow> nat \<Rightarrow> (RR_Header \<times> nat \<times> bytes \<times> dns_error option) option" where
  "unpackHeader msg off =
     (let hdr = \<lparr>rr_Name = [], rr_Rrtype = 0, rr_Class = 0, rr_Ttl = 0, rr_Rdlength = 0\<rparr> in
      if off = length msg then Some (hdr, off, msg, None)
      else
        uthen (UnpackDomainName msg off) (\<lambda>v _ e. (hdr\<lparr>rr_Name := v\<rparr>, length msg, msg, Some e)) (\<lambda>v off. let hdr = hdr\<lparr>rr_Name := v\<rparr> in
        uthen (unpackUint16 msg off) (\<lambda>v _ e. (hdr\<lparr>rr_Rrtype := v\<rparr>, length msg, msg, Some e)) (\<lambda>v off. let hdr = hdr\<lparr>rr_Rrtype := v\<rparr> in
        uthen (unpackUint16 msg off) (\<lambda>v _ e. (hdr\<lparr>rr_Class := v\<rparr>, length msg, msg, Some e)) (\<lambda>v off. let hdr = hdr\<lparr>rr_Class := v\<rparr> in
        uthen (unpackUint32 msg off) (\<lambda>v _ e. (hdr\<lparr>rr_Ttl := v\<rparr>, length msg, msg, Some e)) (\<lambda>v off. let hdr = hdr\<lparr>rr_Ttl := v\<rparr> in
        uthen (unpackUint16 msg off) (\<lambda>v _ e. (hdr\<lparr>rr_Rdlength := v\<rparr>, length msg, msg, Some e)) (\<lambda>v off. let hdr = hdr\<lparr>rr_Rdlength := v\<rparr> in
        map_option (\<lambda>(m, err). (hdr, off, m, err)) (truncateMsgFromRdlength msg off (rr_Rdlength hdr))))))))"

subsection \<open>Fields\<close>

text \<open>
  What the type and the tag of a field say about its form in a message. A \<open>size\<close> form takes as many
  bytes as the value of the field it names says; \<open>hex\<close> and \<open>base64\<close> take the rest of the record.
\<close>

datatype field = F_uint8 | F_uint16 | F_uint32 | F_uint48 | F_uint64 | F_string | F_octet | F_txt
  | F_cdomain_name | F_domain_name | F_domain_names | F_a | F_aaaa | F_nsec | F_opt | F_hex | F_base64
  | F_size_hex string | F_size_base64 string | F_size_base32 string

type_synonym layout = "(string \<times> field) list"

datatype rdata = V_uint8 "8 word" | V_uint16 "16 word" | V_uint32 "32 word" | V_uint64 "64 word"
  | V_string string | V_strings "string list" | V_IP IP | V_types "16 word list" | V_opts "EDNS0 list"

text \<open>A record: the name of its struct, the header and the values of the other fields.\<close>

datatype RR = Record (RR_struct: string) (Header: RR_Header) (RR_fields: "(string \<times> rdata) list")

primrec zero_value :: "field \<Rightarrow> rdata" where
  "zero_value F_uint8 = V_uint8 0"
| "zero_value F_uint16 = V_uint16 0"
| "zero_value F_uint32 = V_uint32 0"
| "zero_value F_uint48 = V_uint64 0"
| "zero_value F_uint64 = V_uint64 0"
| "zero_value F_txt = V_strings []"
| "zero_value F_domain_names = V_strings []"
| "zero_value F_a = V_IP []"
| "zero_value F_aaaa = V_IP []"
| "zero_value F_nsec = V_types []"
| "zero_value F_opt = V_opts []"
| "zero_value F_string = V_string []"
| "zero_value F_octet = V_string []"
| "zero_value F_cdomain_name = V_string []"
| "zero_value F_domain_name = V_string []"
| "zero_value F_hex = V_string []"
| "zero_value F_base64 = V_string []"
| "zero_value (F_size_hex _) = V_string []"
| "zero_value (F_size_base64 _) = V_string []"
| "zero_value (F_size_base32 _) = V_string []"

definition zero_fields :: "layout \<Rightarrow> (string \<times> rdata) list" where
  "zero_fields fs = map (\<lambda>(n, f). (n, zero_value f)) fs"

fun as_nat :: "rdata \<Rightarrow> nat" where
  "as_nat (V_uint8 v) = unat v"
| "as_nat (V_uint16 v) = unat v"
| "as_nat (V_uint32 v) = unat v"
| "as_nat (V_uint64 v) = unat v"
| "as_nat _ = 0"

definition field_nat :: "(string \<times> rdata) list \<Rightarrow> string \<Rightarrow> nat" where
  "field_nat vs n = (case map_of vs n of None \<Rightarrow> 0 | Some v \<Rightarrow> as_nat v)"

abbreviation unpacked :: "('a \<Rightarrow> 'b) \<Rightarrow> 'a unpacking \<Rightarrow> 'b unpacking" where
  "unpacked c r \<equiv> map_option (map_prod c id) r"

text \<open>\<open>vs\<close> are the fields before this one, \<open>stop\<close> is the end of the record.\<close>

primrec unpack_field :: "field \<Rightarrow> (string \<times> rdata) list \<Rightarrow> nat \<Rightarrow> bytes \<Rightarrow> nat \<Rightarrow> rdata unpacking" where
  "unpack_field F_uint8 vs stop msg off = unpacked V_uint8 (unpackUint8 msg off)"
| "unpack_field F_uint16 vs stop msg off = unpacked V_uint16 (unpackUint16 msg off)"
| "unpack_field F_uint32 vs stop msg off = unpacked V_uint32 (unpackUint32 msg off)"
| "unpack_field F_uint48 vs stop msg off = unpacked V_uint64 (unpackUint48 msg off)"
| "unpack_field F_uint64 vs stop msg off = unpacked V_uint64 (unpackUint64 msg off)"
| "unpack_field F_string vs stop msg off = unpacked V_string (unpackString msg off)"
| "unpack_field F_octet vs stop msg off = unpacked V_string (unpackStringOctet msg off)"
| "unpack_field F_txt vs stop msg off = unpacked V_strings (unpackStringTxt msg off)"
| "unpack_field F_cdomain_name vs stop msg off = unpacked V_string (UnpackDomainName msg off)"
| "unpack_field F_domain_name vs stop msg off = unpacked V_string (UnpackDomainName msg off)"
| "unpack_field F_domain_names vs stop msg off = unpacked V_strings (unpackDataDomainNames msg off stop)"
| "unpack_field F_a vs stop msg off = unpacked V_IP (unpackDataA msg off)"
| "unpack_field F_aaaa vs stop msg off = unpacked V_IP (unpackDataAAAA msg off)"
| "unpack_field F_nsec vs stop msg off = unpacked V_types (unpackDataNsec msg off)"
| "unpack_field F_opt vs stop msg off = unpacked V_opts (unpackDataOpt msg off)"
| "unpack_field F_hex vs stop msg off = unpacked V_string (unpackStringHex msg off stop)"
| "unpack_field F_base64 vs stop msg off = unpacked V_string (unpackStringBase64 msg off stop)"
| "unpack_field (F_size_hex n) vs stop msg off = unpacked V_string (unpackStringHex msg off (off + field_nat vs n))"
| "unpack_field (F_size_base64 n) vs stop msg off = unpacked V_string (unpackStringBase64 msg off (off + field_nat vs n))"
| "unpack_field (F_size_base32 n) vs stop msg off = unpacked V_string (unpackStringBase32 msg off (off + field_nat vs n))"

text \<open>After these fields the generated code does not look whether the record ends here.\<close>

fun sized :: "field \<Rightarrow> bool" where
  "sized (F_size_hex _) = True"
| "sized (F_size_base64 _) = True"
| "sized (F_size_base32 _) = True"
| "sized _ = False"

fun unpack_fields :: "layout \<Rightarrow> (string \<times> rdata) list \<Rightarrow> nat \<Rightarrow> bytes \<Rightarrow> nat \<Rightarrow> ((string \<times> rdata) list) unpacking" where
  "unpack_fields [] vs stop msg off = Some (vs, off, None)"
| "unpack_fields ((n, f) # fs) vs stop msg off =
     uthen (unpack_field f vs stop msg off) (\<lambda>v off e. (vs @ (n, v) # zero_fields fs, off, Some e)) (\<lambda>v off.
       if fs \<noteq> [] \<and> \<not> sized f \<and> off = length msg then Some (vs @ (n, v) # zero_fields fs, off, None)
       else unpack_fields fs (vs @ [(n, v)]) stop msg off)"

definition noRdata :: "RR_Header \<Rightarrow> bool" where
  "noRdata h \<longleftrightarrow> rr_Rdlength h = 0"

definition unpack_struct :: "string \<Rightarrow> layout \<Rightarrow> RR_Header \<Rightarrow> bytes \<Rightarrow> nat \<Rightarrow> RR unpacking" where
  "unpack_struct struct fs h msg off =
     (if noRdata h then Some (Record struct h (zero_fields fs), off, None)
      else unpacked (Record struct h) (unpack_fields fs [] (off + unat (rr_Rdlength h)) msg off))"

abbreviation plain :: "compression \<Rightarrow> (nat \<times> bytes) packing \<Rightarrow> (nat \<times> bytes \<times> compression) packing" where
  "plain cm r \<equiv> pthen r (\<lambda>(off, msg). Some (Inr (off, msg, cm)))"

text \<open>A value that is not of the type of the field does not occur.\<close>

primrec pack_field :: "field \<Rightarrow> rdata \<Rightarrow> bytes \<Rightarrow> nat \<Rightarrow> compression \<Rightarrow> bool \<Rightarrow> (nat \<times> bytes \<times> compression) packing" where
  "pack_field F_uint8 u msg off cm c =
     (case u of V_uint8 v \<Rightarrow> plain cm (packUint8 v msg off) | _ \<Rightarrow> None)"
| "pack_field F_uint16 u msg off cm c =
     (case u of V_uint16 v \<Rightarrow> plain cm (packUint16 v msg off) | _ \<Rightarrow> None)"
| "pack_field F_uint32 u msg off cm c =
     (case u of V_uint32 v \<Rightarrow> plain cm (packUint32 v msg off) | _ \<Rightarrow> None)"
| "pack_field F_uint48 u msg off cm c =
     (case u of V_uint64 v \<Rightarrow> plain cm (packUint48 v msg off) | _ \<Rightarrow> None)"
| "pack_field F_uint64 u msg off cm c =
     (case u of V_uint64 v \<Rightarrow> plain cm (packUint64 v msg off) | _ \<Rightarrow> None)"
| "pack_field F_string u msg off cm c =
     (case u of V_string s \<Rightarrow> plain cm (packString s msg off) | _ \<Rightarrow> None)"
| "pack_field F_octet u msg off cm c =
     (case u of V_string s \<Rightarrow> plain cm (packStringOctet s msg off) | _ \<Rightarrow> None)"
| "pack_field F_txt u msg off cm c =
     (case u of V_strings ss \<Rightarrow> plain cm (packStringTxt ss msg off) | _ \<Rightarrow> None)"
| "pack_field F_cdomain_name u msg off cm c =
     (case u of V_string s \<Rightarrow> PackDomainName s msg off cm c | _ \<Rightarrow> None)"
| "pack_field F_domain_name u msg off cm c =
     (case u of V_string s \<Rightarrow> PackDomainName s msg off cm False | _ \<Rightarrow> None)"
| "pack_field F_domain_names u msg off cm c =
     (case u of V_strings ss \<Rightarrow> packDataDomainNames ss msg off cm | _ \<Rightarrow> None)"
| "pack_field F_a u msg off cm c =
     (case u of V_IP ip \<Rightarrow> plain cm (packDataA ip msg off) | _ \<Rightarrow> None)"
| "pack_field F_aaaa u msg off cm c =
     (case u of V_IP ip \<Rightarrow> plain cm (packDataAAAA ip msg off) | _ \<Rightarrow> None)"
| "pack_field F_nsec u msg off cm c =
     (case u of V_types ts \<Rightarrow> plain cm (packDataNsec ts msg off) | _ \<Rightarrow> None)"
| "pack_field F_opt u msg off cm c =
     (case u of V_opts es \<Rightarrow> plain cm (packDataOpt es msg off) | _ \<Rightarrow> None)"
| "pack_field F_hex u msg off cm c =
     (case u of V_string s \<Rightarrow> plain cm (packStringHex s msg off) | _ \<Rightarrow> None)"
| "pack_field F_base64 u msg off cm c =
     (case u of V_string s \<Rightarrow> plain cm (packStringBase64 s msg off) | _ \<Rightarrow> None)"
| "pack_field (F_size_hex n) u msg off cm c =
     (case u of V_string s \<Rightarrow> (if n = ''SaltLength'' \<and> s = ''-'' then Some (Inr (off, msg, cm)) else plain cm (packStringHex s msg off)) | _ \<Rightarrow> None)"
| "pack_field (F_size_base64 n) u msg off cm c =
     (case u of V_string s \<Rightarrow> plain cm (packStringBase64 s msg off) | _ \<Rightarrow> None)"
| "pack_field (F_size_base32 n) u msg off cm c =
     (case u of V_string s \<Rightarrow> plain cm (packStringBase32 s msg off) | _ \<Rightarrow> None)"

fun pack_fields :: "layout \<Rightarrow> (string \<times> rdata) list \<Rightarrow> bytes \<Rightarrow> nat \<Rightarrow> compression \<Rightarrow> bool \<Rightarrow> (nat \<times> bytes \<times> compression) packing" where
  "pack_fields [] vs msg off cm c = Some (Inr (off, msg, cm))"
| "pack_fields ((n, f) # fs) vs msg off cm c =
     (case map_of vs n of
        None \<Rightarrow> None
      | Some v \<Rightarrow> pthen (pack_field f v msg off cm c) (\<lambda>(off, msg, cm). pack_fields fs vs msg off cm c))"

text \<open>Packing a record also writes the length of its data into the record's own header.\<close>

definition pack_struct :: "layout \<Rightarrow> RR \<Rightarrow> bytes \<Rightarrow> nat \<Rightarrow> compression \<Rightarrow> bool \<Rightarrow> (RR \<times> nat \<times> bytes \<times> compression) packing" where
  "pack_struct fs rr msg off cm compress =
     pthen (RR_Header_pack (Header rr) msg off cm compress) (\<lambda>(headerEnd, msg, cm).
     pthen (pack_fields fs (RR_fields rr) msg headerEnd cm compress) (\<lambda>(off, msg, cm).
     Some (Inr (Record (RR_struct rr) ((Header rr)\<lparr>rr_Rdlength := of_nat (off - headerEnd)\<rparr>) (RR_fields rr), off, msg, cm))))"

subsection \<open>Reading stays inside the message\<close>

lemma uthen_cases: "uthen r fail k = (case r of None \<Rightarrow> None | Some (v, off, err) \<Rightarrow> (case err of None \<Rightarrow> k v off | Some e \<Rightarrow> Some (fail v off e)))"
  by (auto simp: uthen_def split: option.splits)

lemma uthen_reads:
  assumes "reads msg off r" and "\<And>v off1 e. off1 \<le> length msg \<Longrightarrow> \<exists>x. Some (fail v off1 e) = Some x \<and> P x"
    and "\<And>v off1. off \<le> off1 \<Longrightarrow> off1 \<le> length msg \<Longrightarrow> \<exists>x. k v off1 = Some x \<and> P x"
  shows "\<exists>x. uthen r fail k = Some x \<and> P x"
  using assms by (auto simp: uthen_cases elim!: readsE split: option.splits)

lemma reads_unpack_field: "off \<le> length msg \<Longrightarrow> stop = length msg \<Longrightarrow> reads msg off (unpack_field f vs stop msg off)"
  by (cases f) (simp_all add: reads_intro)

lemma reads_unpack_fields:
  "off \<le> length msg \<Longrightarrow> stop = length msg \<Longrightarrow> reads msg off (unpack_fields fs vs stop msg off)"
proof (induction fs arbitrary: vs off)
  case (Cons nf fs)
  obtain n f where nf: "nf = (n, f)" by (cases nf)
  from reads_unpack_field [OF Cons.prems, of f vs] obtain v off1 err
    where u: "unpack_field f vs stop msg off = Some (v, off1, err)" "off1 \<le> length msg" "err = None \<longrightarrow> off \<le> off1"
    by (auto elim!: readsE)
  then have "err = None \<longrightarrow> reads msg off1 (unpack_fields fs (vs @ [(n, v)]) stop msg off1)"
    using Cons.IH Cons.prems(2) by blast
  with u show ?case by (auto simp: nf uthen_cases elim!: readsE split: option.splits)
qed simp

lemma reads_unpack_struct:
  "off + unat (rr_Rdlength h) = length msg \<Longrightarrow> reads msg off (unpack_struct struct fs h msg off)"
  using reads_unpack_fields [of off msg "off + unat (rr_Rdlength h)" fs "[]"]
  by (simp add: unpack_struct_def)

text \<open>A result that is there and satisfies a predicate.\<close>

definition good :: "('a \<Rightarrow> bool) \<Rightarrow> 'a option \<Rightarrow> bool" where
  "good P r \<longleftrightarrow> (case r of None \<Rightarrow> False | Some x \<Rightarrow> P x)"

lemma good_simps [simp]: "good P (Some x) = P x" "\<not> good P None" "good P (map_option f r) = good (\<lambda>x. P (f x)) r"
  by (auto simp: good_def split: option.splits)

lemma good_iff: "good P r \<longleftrightarrow> (\<exists>x. r = Some x \<and> P x)"
  by (auto simp: good_def split: option.splits)

lemma good_mono: "good P r \<Longrightarrow> (\<And>x. P x \<Longrightarrow> Q x) \<Longrightarrow> good Q r"
  by (auto simp: good_iff)

lemma good_case: "good Q r \<Longrightarrow> (\<And>x. Q x \<Longrightarrow> good P (k x)) \<Longrightarrow> good P (case r of None \<Rightarrow> None | Some x \<Rightarrow> k x)"
  by (auto simp: good_iff)

lemma good_uthen:
  assumes "reads msg off r" and "\<And>v off1 e. off1 \<le> length msg \<Longrightarrow> P (fail v off1 e)"
    and "\<And>v off1. off \<le> off1 \<Longrightarrow> off1 \<le> length msg \<Longrightarrow> good P (k v off1)"
  shows "good P (uthen r fail k)"
  using assms by (auto simp: uthen_cases elim!: readsE split: option.splits)

lemma good_reads: "reads msg off r \<Longrightarrow> good (\<lambda>(_, off1, err). off1 \<le> length msg \<and> (err = None \<longrightarrow> off \<le> off1)) r"
  by (auto elim!: readsE)

end
