(* ===== verification/DnsTypes.thy ===== *)
theory DnsTypes
  imports DnsRecords
begin

text \<open>
  The record types of \<^verbatim>\<open>miekg/dns\<close>: the fields of each struct with their tags (\<^verbatim>\<open>types.go\<close>, \<^verbatim>\<open>edns.go\<close>,
  \<^verbatim>\<open>tsig.go\<close>), its unpack function and its pack method (\<^verbatim>\<open>zmsg.go\<close>), the table of the unpack functions by
  record type, and the lengths that the size of a message is computed from (\<^verbatim>\<open>ztypes.go\<close>).
\<close>

unbundle bit_operations_syntax

subsection \<open>Structs\<close>

abbreviation A_fields :: layout where
  "A_fields \<equiv> [(''A'', F_a)]"

abbreviation AAAA_fields :: layout where
  "AAAA_fields \<equiv> [(''AAAA'', F_aaaa)]"

abbreviation AFSDB_fields :: layout where
  "AFSDB_fields \<equiv> [(''Subtype'', F_uint16), (''Hostname'', F_cdomain_name)]"

abbreviation ANY_fields :: layout where
  "ANY_fields \<equiv> []"

abbreviation AVC_fields :: layout where
  "AVC_fields \<equiv> [(''Txt'', F_txt)]"

abbreviation CAA_fields :: layout where
  "CAA_fields \<equiv> [(''Flag'', F_uint8), (''Tag'', F_string), (''Value'', F_octet)]"

abbreviation CERT_fields :: layout where
  "CERT_fields \<equiv> [(''Type'', F_uint16), (''KeyTag'', F_uint16), (''Algorithm'', F_uint8), (''Certificate'', F_base64)]"

abbreviation CNAME_fields :: layout where
  "CNAME_fields \<equiv> [(''Target'', F_cdomain_name)]"

abbreviation CSYNC_fields :: layout where
  "CSYNC_fields \<equiv> [(''Serial'', F_uint32), (''Flags'', F_uint16), (''TypeBitMap'', F_nsec)]"

abbreviation DHCID_fields :: layout where
  "DHCID_fields \<equiv> [(''Digest'', F_base64)]"

abbreviation DNAME_fields :: layout where
  "DNAME_fields \<equiv> [(''Target'', F_domain_name)]"

abbreviation DNSKEY_fields :: layout where
  "DNSKEY_fields \<equiv> [(''Flags'', F_uint16), (''Protocol'', F_uint8), (''Algorithm'', F_uint8), (''PublicKey'', F_base64)]"

abbreviation DS_fields :: layout where
  "DS_fields \<equiv> [(''KeyTag'', F_uint16), (''Algorithm'', F_uint8), (''DigestType'', F_uint8), (''Digest'', F_hex)]"

abbreviation EID_fields :: layout where
  "EID_fields \<equiv> [(''Endpoint'', F_hex)]"

abbreviation EUI48_fields :: layout where
  "EUI48_fields \<equiv> [(''Address'', F_uint48)]"

abbreviation EUI64_fields :: layout where
  "EUI64_fields \<equiv> [(''Address'', F_uint64)]"

abbreviation GID_fields :: layout where
  "GID_fields \<equiv> [(''Gid'', F_uint32)]"

abbreviation GPOS_fields :: layout where
  "GPOS_fields \<equiv> [(''Longitude'', F_string), (''Latitude'', F_string), (''Altitude'', F_string)]"

abbreviation HINFO_fields :: layout where
  "HINFO_fields \<equiv> [(''Cpu'', F_string), (''Os'', F_string)]"

abbreviation HIP_fields :: layout where
  "HIP_fields \<equiv> [(''HitLength'', F_uint8), (''PublicKeyAlgorithm'', F_uint8), (''PublicKeyLength'', F_uint16), (''Hit'', F_size_hex ''HitLength''), (''PublicKey'', F_size_base64 ''PublicKeyLength''), (''RendezvousServers'', F_domain_names)]"

abbreviation KX_fields :: layout where
  "KX_fields \<equiv> [(''Preference'', F_uint16), (''Exchanger'', F_domain_name)]"

abbreviation L32_fields :: layout where
  "L32_fields \<equiv> [(''Preference'', F_uint16), (''Locator32'', F_a)]"

abbreviation L64_fields :: layout where
  "L64_fields \<equiv> [(''Preference'', F_uint16), (''Locator64'', F_uint64)]"

abbreviation LOC_fields :: layout where
  "LOC_fields \<equiv> [(''Version'', F_uint8), (''Size'', F_uint8), (''HorizPre'', F_uint8), (''VertPre'', F_uint8), (''Latitude'', F_uint32), (''Longitude'', F_uint32), (''Altitude'', F_uint32)]"

abbreviation LP_fields :: layout where
  "LP_fields \<equiv> [(''Preference'', F_uint16), (''Fqdn'', F_domain_name)]"

abbreviation MB_fields :: layout where
  "MB_fields \<equiv> [(''Mb'', F_cdomain_name)]"

abbreviation MD_fields :: layout where
  "MD_fields \<equiv> [(''Md'', F_cdomain_name)]"

abbreviation MF_fields :: layout where
  "MF_fields \<equiv> [(''Mf'', F_cdomain_name)]"

abbreviation MG_fields :: layout where
  "MG_fields \<equiv> [(''Mg'', F_cdomain_name)]"

abbreviation MINFO_fields :: layout where
  "MINFO_fields \<equiv> [(''Rmail'', F_cdomain_name), (''Email'', F_cdomain_name)]"

abbreviation MR_fields :: layout where
  "MR_fields \<equiv> [(''Mr'', F_cdomain_name)]"

abbreviation MX_fields :: layout where
  "MX_fields \<equiv> [(''Preference'', F_uint16), (''Mx'', F_cdomain_name)]"

abbreviation NAPTR_fields :: layout where
  "NAPTR_fields \<equiv> [(''Order'', F_uint16), (''Preference'', F_uint16), (''Flags'', F_string), (''Service'', F_string), (''Regexp'', F_string), (''Replacement'', F_domain_name)]"

abbreviation NID_fields :: layout where
  "NID_fields \<equiv> [(''Preference'', F_uint16), (''NodeID'', F_uint64)]"

abbreviation NIMLOC_fields :: layout where
  "NIMLOC_fields \<equiv> [(''Locator'', F_hex)]"

abbreviation NINFO_fields :: layout where
  "NINFO_fields \<equiv> [(''ZSData'', F_txt)]"

abbreviation NS_fields :: layout where
  "NS_fields \<equiv> [(''Ns'', F_cdomain_name)]"

abbreviation NSAPPTR_fields :: layout where
  "NSAPPTR_fields \<equiv> [(''Ptr'', F_domain_name)]"

abbreviation NSEC_fields :: layout where
  "NSEC_fields \<equiv> [(''NextDomain'', F_domain_name), (''TypeBitMap'', F_nsec)]"

abbreviation NSEC3_fields :: layout where
  "NSEC3_fields \<equiv> [(''Hash'', F_uint8), (''Flags'', F_uint8), (''Iterations'', F_uint16), (''SaltLength'', F_uint8), (''Salt'', F_size_hex ''SaltLength''), (''HashLength'', F_uint8), (''NextDomain'', F_size_base32 ''HashLength''), (''TypeBitMap'', F_nsec)]"

abbreviation NSEC3PARAM_fields :: layout where
  "NSEC3PARAM_fields \<equiv> [(''Hash'', F_uint8), (''Flags'', F_uint8), (''Iterations'', F_uint16), (''SaltLength'', F_uint8), (''Salt'', F_size_hex ''SaltLength'')]"

abbreviation OPENPGPKEY_fields :: layout where
  "OPENPGPKEY_fields \<equiv> [(''PublicKey'', F_base64)]"

abbreviation OPT_fields :: layout where
  "OPT_fields \<equiv> [(''Option'', F_opt)]"

abbreviation PTR_fields :: layout where
  "PTR_fields \<equiv> [(''Ptr'', F_cdomain_name)]"

abbreviation PX_fields :: layout where
  "PX_fields \<equiv> [(''Preference'', F_uint16), (''Map822'', F_domain_name), (''Mapx400'', F_domain_name)]"

abbreviation RFC3597_fields :: layout where
  "RFC3597_fields \<equiv> [(''Rdata'', F_hex)]"

abbreviation RKEY_fields :: layout where
  "RKEY_fields \<equiv> [(''Flags'', F_uint16), (''Protocol'', F_uint8), (''Algorithm'', F_uint8), (''PublicKey'', F_base64)]"

abbreviation RP_fields :: layout where
  "RP_fields \<equiv> [(''Mbox'', F_domain_name), (''Txt'', F_domain_name)]"

abbreviation RRSIG_fields :: layout where
  "RRSIG_fields \<equiv> [(''TypeCovered'', F_uint16), (''Algorithm'', F_uint8), (''Labels'', F_uint8), (''OrigTtl'', F_uint32), (''Expiration'', F_uint32), (''Inception'', F_uint32), (''KeyTag'', F_uint16), (''SignerName'', F_domain_name), (''Signature'', F_base64)]"

abbreviation RT_fields :: layout where
  "RT_fields \<equiv> [(''Preference'', F_uint16), (''Host'', F_cdomain_name)]"

abbreviation SMIMEA_fields :: layout where
  "SMIMEA_fields \<equiv> [(''Usage'', F_uint8), (''Selector'', F_uint8), (''MatchingType'', F_uint8), (''Certificate'', F_hex)]"

abbreviation SOA_fields :: layout where
  "SOA_fields \<equiv> [(''Ns'', F_cdomain_name), (''Mbox'', F_cdomain_name), (''Serial'', F_uint32), (''Refresh'', F_uint32), (''Retry'', F_uint32), (''Expire'', F_uint32), (''Minttl'', F_uint32)]"

abbreviation SPF_fields :: layout where
  "SPF_fields \<equiv> [(''Txt'', F_txt)]"

abbreviation SRV_fields :: layout where
  "SRV_fields \<equiv> [(''Priority'', F_uint16), (''Weight'', F_uint16), (''Port'', F_uint16), (''Target'', F_domain_name)]"

abbreviation SSHFP_fields :: layout where
  "SSHFP_fields \<equiv> [(''Algorithm'', F_uint8), (''Type'', F_uint8), (''FingerPrint'', F_hex)]"

abbreviation TA_fields :: layout where
  "TA_fields \<equiv> [(''KeyTag'', F_uint16), (''Algorithm'', F_uint8), (''DigestType'', F_uint8), (''Digest'', F_hex)]"

abbreviation TALINK_fields :: layout where
  "TALINK_fields \<equiv> [(''PreviousName'', F_domain_name), (''NextName'', F_domain_name)]"

abbreviation TKEY_fields :: layout where
  "TKEY_fields \<equiv> [(''Algorithm'', F_domain_name), (''Inception'', F_uint32), (''Expiration'', F_uint32), (''Mode'', F_uint16), (''Error'', F_uint16), (''KeySize'', F_uint16), (''Key'', F_size_hex ''KeySize''), (''OtherLen'', F_uint16), (''OtherData'', F_size_hex ''OtherLen'')]"

abbreviation TLSA_fields :: layout where
  "TLSA_fields \<equiv> [(''Usage'', F_uint8), (''Selector'', F_uint8), (''MatchingType'', F_uint8), (''Certificate'', F_hex)]"

abbreviation TSIG_fields :: layout where
  "TSIG_fields \<equiv> [(''Algorithm'', F_domain_name), (''TimeSigned'', F_uint48), (''Fudge'', F_uint16), (''MACSize'', F_uint16), (''MAC'', F_size_hex ''MACSize''), (''OrigId'', F_uint16), (''Error'', F_uint16), (''OtherLen'', F_uint16), (''OtherData'', F_size_hex ''OtherLen'')]"

abbreviation TXT_fields :: layout where
  "TXT_fields \<equiv> [(''Txt'', F_txt)]"

abbreviation UID_fields :: layout where
  "UID_fields \<equiv> [(''Uid'', F_uint32)]"

abbreviation UINFO_fields :: layout where
  "UINFO_fields \<equiv> [(''Uinfo'', F_string)]"

abbreviation URI_fields :: layout where
  "URI_fields \<equiv> [(''Priority'', F_uint16), (''Weight'', F_uint16), (''Target'', F_octet)]"

abbreviation X25_fields :: layout where
  "X25_fields \<equiv> [(''PSDNAddress'', F_string)]"

abbreviation CDNSKEY_fields :: layout where "CDNSKEY_fields \<equiv> DNSKEY_fields"

abbreviation CDS_fields :: layout where "CDS_fields \<equiv> DS_fields"

abbreviation DLV_fields :: layout where "DLV_fields \<equiv> DS_fields"

abbreviation KEY_fields :: layout where "KEY_fields \<equiv> DNSKEY_fields"

abbreviation SIG_fields :: layout where "SIG_fields \<equiv> RRSIG_fields"

subsection \<open>Record type numbers\<close>

abbreviation TypeA :: "16 word" where "TypeA \<equiv> 1"

abbreviation TypeNS :: "16 word" where "TypeNS \<equiv> 2"

abbreviation TypeMD :: "16 word" where "TypeMD \<equiv> 3"

abbreviation TypeMF :: "16 word" where "TypeMF \<equiv> 4"

abbreviation TypeCNAME :: "16 word" where "TypeCNAME \<equiv> 5"

abbreviation TypeSOA :: "16 word" where "TypeSOA \<equiv> 6"

abbreviation TypeMB :: "16 word" where "TypeMB \<equiv> 7"

abbreviation TypeMG :: "16 word" where "TypeMG \<equiv> 8"

abbreviation TypeMR :: "16 word" where "TypeMR \<equiv> 9"

abbreviation TypePTR :: "16 word" where "TypePTR \<equiv> 12"

abbreviation TypeHINFO :: "16 word" where "TypeHINFO \<equiv> 13"

abbreviation TypeMINFO :: "16 word" where "TypeMINFO \<equiv> 14"

abbreviation TypeMX :: "16 word" where "TypeMX \<equiv> 15"

abbreviation TypeTXT :: "16 word" where "TypeTXT \<equiv> 16"

abbreviation TypeRP :: "16 word" where "TypeRP \<equiv> 17"

abbreviation TypeAFSDB :: "16 word" where "TypeAFSDB \<equiv> 18"

abbreviation TypeX25 :: "16 word" where "TypeX25 \<equiv> 19"

abbreviation TypeRT :: "16 word" where "TypeRT \<equiv> 21"

abbreviation TypeNSAPPTR :: "16 word" where "TypeNSAPPTR \<equiv> 23"

abbreviation TypeSIG :: "16 word" where "TypeSIG \<equiv> 24"

abbreviation TypeKEY :: "16 word" where "TypeKEY \<equiv> 25"

abbreviation TypePX :: "16 word" where "TypePX \<equiv> 26"

abbreviation TypeGPOS :: "16 word" where "TypeGPOS \<equiv> 27"

abbreviation TypeAAAA :: "16 word" where "TypeAAAA \<equiv> 28"

abbreviation TypeLOC :: "16 word" where "TypeLOC \<equiv> 29"

abbreviation TypeEID :: "16 word" where "TypeEID \<equiv> 31"

abbreviation TypeNIMLOC :: "16 word" where "TypeNIMLOC \<equiv> 32"

abbreviation TypeSRV :: "16 word" where "TypeSRV \<equiv> 33"

abbreviation TypeNAPTR :: "16 word" where "TypeNAPTR \<equiv> 35"

abbreviation TypeKX :: "16 word" where "TypeKX \<equiv> 36"

abbreviation TypeCERT :: "16 word" where "TypeCERT \<equiv> 37"

abbreviation TypeDNAME :: "16 word" where "TypeDNAME \<equiv> 39"

abbreviation TypeOPT :: "16 word" where "TypeOPT \<equiv> 41"

abbreviation TypeDS :: "16 word" where "TypeDS \<equiv> 43"

abbreviation TypeSSHFP :: "16 word" where "TypeSSHFP \<equiv> 44"

abbreviation TypeRRSIG :: "16 word" where "TypeRRSIG \<equiv> 46"

abbreviation TypeNSEC :: "16 word" where "TypeNSEC \<equiv> 47"

abbreviation TypeDNSKEY :: "16 word" where "TypeDNSKEY \<equiv> 48"

abbreviation TypeDHCID :: "16 word" where "TypeDHCID \<equiv> 49"

abbreviation TypeNSEC3 :: "16 word" where "TypeNSEC3 \<equiv> 50"

abbreviation TypeNSEC3PARAM :: "16 word" where "TypeNSEC3PARAM \<equiv> 51"

abbreviation TypeTLSA :: "16 word" where "TypeTLSA \<equiv> 52"

abbreviation TypeSMIMEA :: "16 word" where "TypeSMIMEA \<equiv> 53"

abbreviation TypeHIP :: "16 word" where "TypeHIP \<equiv> 55"

abbreviation TypeNINFO :: "16 word" where "TypeNINFO \<equiv> 56"

abbreviation TypeRKEY :: "16 word" where "TypeRKEY \<equiv> 57"

abbreviation TypeTALINK :: "16 word" where "TypeTALINK \<equiv> 58"

abbreviation TypeCDS :: "16 word" where "TypeCDS \<equiv> 59"

abbreviation TypeCDNSKEY :: "16 word" where "TypeCDNSKEY \<equiv> 60"

abbreviation TypeOPENPGPKEY :: "16 word" where "TypeOPENPGPKEY \<equiv> 61"

abbreviation TypeCSYNC :: "16 word" where "TypeCSYNC \<equiv> 62"

abbreviation TypeSPF :: "16 word" where "TypeSPF \<equiv> 99"

abbreviation TypeUINFO :: "16 word" where "TypeUINFO \<equiv> 100"

abbreviation TypeUID :: "16 word" where "TypeUID \<equiv> 101"

abbreviation TypeGID :: "16 word" where "TypeGID \<equiv> 102"

abbreviation TypeNID :: "16 word" where "TypeNID \<equiv> 104"

abbreviation TypeL32 :: "16 word" where "TypeL32 \<equiv> 105"

abbreviation TypeL64 :: "16 word" where "TypeL64 \<equiv> 106"

abbreviation TypeLP :: "16 word" where "TypeLP \<equiv> 107"

abbreviation TypeEUI48 :: "16 word" where "TypeEUI48 \<equiv> 108"

abbreviation TypeEUI64 :: "16 word" where "TypeEUI64 \<equiv> 109"

abbreviation TypeTKEY :: "16 word" where "TypeTKEY \<equiv> 249"

abbreviation TypeTSIG :: "16 word" where "TypeTSIG \<equiv> 250"

abbreviation TypeANY :: "16 word" where "TypeANY \<equiv> 255"

abbreviation TypeURI :: "16 word" where "TypeURI \<equiv> 256"

abbreviation TypeCAA :: "16 word" where "TypeCAA \<equiv> 257"

abbreviation TypeAVC :: "16 word" where "TypeAVC \<equiv> 258"

abbreviation TypeTA :: "16 word" where "TypeTA \<equiv> 32768"

abbreviation TypeDLV :: "16 word" where "TypeDLV \<equiv> 32769"

subsection \<open>Unpacking\<close>

type_synonym unpacker = "RR_Header \<Rightarrow> bytes \<Rightarrow> nat \<Rightarrow> RR unpacking"

definition unpackA :: unpacker where "unpackA = unpack_struct ''A'' A_fields"

definition unpackAAAA :: unpacker where "unpackAAAA = unpack_struct ''AAAA'' AAAA_fields"

definition unpackAFSDB :: unpacker where "unpackAFSDB = unpack_struct ''AFSDB'' AFSDB_fields"

definition unpackANY :: unpacker where "unpackANY = unpack_struct ''ANY'' ANY_fields"

definition unpackAVC :: unpacker where "unpackAVC = unpack_struct ''AVC'' AVC_fields"

definition unpackCAA :: unpacker where "unpackCAA = unpack_struct ''CAA'' CAA_fields"

definition unpackCDNSKEY :: unpacker where "unpackCDNSKEY = unpack_struct ''CDNSKEY'' CDNSKEY_fields"

definition unpackCDS :: unpacker where "unpackCDS = unpack_struct ''CDS'' CDS_fields"

definition unpackCERT :: unpacker where "unpackCERT = unpack_struct ''CERT'' CERT_fields"

definition unpackCNAME :: unpacker where "unpackCNAME = unpack_struct ''CNAME'' CNAME_fields"

definition unpackCSYNC :: unpacker where "unpackCSYNC = unpack_struct ''CSYNC'' CSYNC_fields"

definition unpackDHCID :: unpacker where "unpackDHCID = unpack_struct ''DHCID'' DHCID_fields"

definition unpackDLV :: unpacker where "unpackDLV = unpack_struct ''DLV'' DLV_fields"

definition unpackDNAME :: unpacker where "unpackDNAME = unpack_struct ''DNAME'' DNAME_fields"

definition unpackDNSKEY :: unpacker where "unpackDNSKEY = unpack_struct ''DNSKEY'' DNSKEY_fields"

definition unpackDS :: unpacker where "unpackDS = unpack_struct ''DS'' DS_fields"

definition unpackEID :: unpacker where "unpackEID = unpack_struct ''EID'' EID_fields"

definition unpackEUI48 :: unpacker where "unpackEUI48 = unpack_struct ''EUI48'' EUI48_fields"

definition unpackEUI64 :: unpacker where "unpackEUI64 = unpack_struct ''EUI64'' EUI64_fields"

definition unpackGID :: unpacker where "unpackGID = unpack_struct ''GID'' GID_fields"

definition unpackGPOS :: unpacker where "unpackGPOS = unpack_struct ''GPOS'' GPOS_fields"

definition unpackHINFO :: unpacker where "unpackHINFO = unpack_struct ''HINFO'' HINFO_fields"

definition unpackHIP :: unpacker where "unpackHIP = unpack_struct ''HIP'' HIP_fields"

definition unpackKEY :: unpacker where "unpackKEY = unpack_struct ''KEY'' KEY_fields"

definition unpackKX :: unpacker where "unpackKX = unpack_struct ''KX'' KX_fields"

definition unpackL32 :: unpacker where "unpackL32 = unpack_struct ''L32'' L32_fields"

definition unpackL64 :: unpacker where "unpackL64 = unpack_struct ''L64'' L64_fields"

definition unpackLOC :: unpacker where "unpackLOC = unpack_struct ''LOC'' LOC_fields"

definition unpackLP :: unpacker where "unpackLP = unpack_struct ''LP'' LP_fields"

definition unpackMB :: unpacker where "unpackMB = unpack_struct ''MB'' MB_fields"

definition unpackMD :: unpacker where "unpackMD = unpack_struct ''MD'' MD_fields"

definition unpackMF :: unpacker where "unpackMF = unpack_struct ''MF'' MF_fields"

definition unpackMG :: unpacker where "unpackMG = unpack_struct ''MG'' MG_fields"

definition unpackMINFO :: unpacker where "unpackMINFO = unpack_struct ''MINFO'' MINFO_fields"

definition unpackMR :: unpacker where "unpackMR = unpack_struct ''MR'' MR_fields"

definition unpackMX :: unpacker where "unpackMX = unpack_struct ''MX'' MX_fields"

definition unpackNAPTR :: unpacker where "unpackNAPTR = unpack_struct ''NAPTR'' NAPTR_fields"

definition unpackNID :: unpacker where "unpackNID = unpack_struct ''NID'' NID_fields"

definition unpackNIMLOC :: unpacker where "unpackNIMLOC = unpack_struct ''NIMLOC'' NIMLOC_fields"

definition unpackNINFO :: unpacker where "unpackNINFO = unpack_struct ''NINFO'' NINFO_fields"

definition unpackNS :: unpacker where "unpackNS = unpack_struct ''NS'' NS_fields"

definition unpackNSAPPTR :: unpacker where "unpackNSAPPTR = unpack_struct ''NSAPPTR'' NSAPPTR_fields"

definition unpackNSEC :: unpacker where "unpackNSEC = unpack_struct ''NSEC'' NSEC_fields"

definition unpackNSEC3 :: unpacker where "unpackNSEC3 = unpack_struct ''NSEC3'' NSEC3_fields"

definition unpackNSEC3PARAM :: unpacker where "unpackNSEC3PARAM = unpack_struct ''NSEC3PARAM'' NSEC3PARAM_fields"

definition unpackOPENPGPKEY :: unpacker where "unpackOPENPGPKEY = unpack_struct ''OPENPGPKEY'' OPENPGPKEY_fields"

definition unpackOPT :: unpacker where "unpackOPT = unpack_struct ''OPT'' OPT_fields"

definition unpackPTR :: unpacker where "unpackPTR = unpack_struct ''PTR'' PTR_fields"

definition unpackPX :: unpacker where "unpackPX = unpack_struct ''PX'' PX_fields"

definition unpackRFC3597 :: unpacker where "unpackRFC3597 = unpack_struct ''RFC3597'' RFC3597_fields"

definition unpackRKEY :: unpacker where "unpackRKEY = unpack_struct ''RKEY'' RKEY_fields"

definition unpackRP :: unpacker where "unpackRP = unpack_struct ''RP'' RP_fields"

definition unpackRRSIG :: unpacker where "unpackRRSIG = unpack_struct ''RRSIG'' RRSIG_fields"

definition unpackRT :: unpacker where "unpackRT = unpack_struct ''RT'' RT_fields"

definition unpackSIG :: unpacker where "unpackSIG = unpack_struct ''SIG'' SIG_fields"

definition unpackSMIMEA :: unpacker where "unpackSMIMEA = unpack_struct ''SMIMEA'' SMIMEA_fields"

definition unpackSOA :: unpacker where "unpackSOA = unpack_struct ''SOA'' SOA_fields"

definition unpackSPF :: unpacker where "unpackSPF = unpack_struct ''SPF'' SPF_fields"

definition unpackSRV :: unpacker where "unpackSRV = unpack_struct ''SRV'' SRV_fields"

definition unpackSSHFP :: unpacker where "unpackSSHFP = unpack_struct ''SSHFP'' SSHFP_fields"

definition unpackTA :: unpacker where "unpackTA = unpack_struct ''TA'' TA_fields"

definition unpackTALINK :: unpacker where "unpackTALINK = unpack_struct ''TALINK'' TALINK_fields"

definition unpackTKEY :: unpacker where "unpackTKEY = unpack_struct ''TKEY'' TKEY_fields"

definition unpackTLSA :: unpacker where "unpackTLSA = unpack_struct ''TLSA'' TLSA_fields"

definition unpackTSIG :: unpacker where "unpackTSIG = unpack_struct ''TSIG'' TSIG_fields"

definition unpackTXT :: unpacker where "unpackTXT = unpack_struct ''TXT'' TXT_fields"

definition unpackUID :: unpacker where "unpackUID = unpack_struct ''UID'' UID_fields"

definition unpackUINFO :: unpacker where "unpackUINFO = unpack_struct ''UINFO'' UINFO_fields"

definition unpackURI :: unpacker where "unpackURI = unpack_struct ''URI'' URI_fields"

definition unpackX25 :: unpacker where "unpackX25 = unpack_struct ''X25'' X25_fields"

definition typeToUnpack :: "(16 word \<times> unpacker) list" where
  "typeToUnpack = [
     (TypeA, unpackA), (TypeAAAA, unpackAAAA), (TypeAFSDB, unpackAFSDB), (TypeANY, unpackANY), (TypeAVC, unpackAVC),
     (TypeCAA, unpackCAA), (TypeCDNSKEY, unpackCDNSKEY), (TypeCDS, unpackCDS), (TypeCERT, unpackCERT),
     (TypeCNAME, unpackCNAME), (TypeCSYNC, unpackCSYNC), (TypeDHCID, unpackDHCID), (TypeDLV, unpackDLV),
     (TypeDNAME, unpackDNAME), (TypeDNSKEY, unpackDNSKEY), (TypeDS, unpackDS), (TypeEID, unpackEID),
     (TypeEUI48, unpackEUI48), (TypeEUI64, unpackEUI64), (TypeGID, unpackGID), (TypeGPOS, unpackGPOS),
     (TypeHINFO, unpackHINFO), (TypeHIP, unpackHIP), (TypeKEY, unpackKEY), (TypeKX, unpackKX), (TypeL32, unpackL32),
     (TypeL64, unpackL64), (TypeLOC, unpackLOC), (TypeLP, unpackLP), (TypeMB, unpackMB), (TypeMD, unpackMD),
     (TypeMF, unpackMF), (TypeMG, unpackMG), (TypeMINFO, unpackMINFO), (TypeMR, unpackMR), (TypeMX, unpackMX),
     (TypeNAPTR, unpackNAPTR), (TypeNID, unpackNID), (TypeNIMLOC, unpackNIMLOC), (TypeNINFO, unpackNINFO),
     (TypeNS, unpackNS), (TypeNSAPPTR, unpackNSAPPTR), (TypeNSEC, unpackNSEC), (TypeNSEC3, unpackNSEC3),
     (TypeNSEC3PARAM, unpackNSEC3PARAM), (TypeOPENPGPKEY, unpackOPENPGPKEY), (TypeOPT, unpackOPT),
     (TypePTR, unpackPTR), (TypePX, unpackPX), (TypeRKEY, unpackRKEY), (TypeRP, unpackRP), (TypeRRSIG, unpackRRSIG),
     (TypeRT, unpackRT), (TypeSIG, unpackSIG), (TypeSMIMEA, unpackSMIMEA), (TypeSOA, unpackSOA),
     (TypeSPF, unpackSPF), (TypeSRV, unpackSRV), (TypeSSHFP, unpackSSHFP), (TypeTA, unpackTA),
     (TypeTALINK, unpackTALINK), (TypeTKEY, unpackTKEY), (TypeTLSA, unpackTLSA), (TypeTSIG, unpackTSIG),
     (TypeTXT, unpackTXT), (TypeUID, unpackUID), (TypeUINFO, unpackUINFO), (TypeURI, unpackURI), (TypeX25, unpackX25)]"

definition UnpackRRWithHeader :: "RR_Header \<Rightarrow> bytes \<Rightarrow> nat \<Rightarrow> RR unpacking" where
  "UnpackRRWithHeader h msg off =
     (let stop = off + unat (rr_Rdlength h);
          fn = (case map_of typeToUnpack (rr_Rrtype h) of None \<Rightarrow> unpackRFC3597 | Some fn \<Rightarrow> fn)
      in case fn h msg off of
           None \<Rightarrow> None
         | Some (rr, off, err) \<Rightarrow>
             if off \<noteq> stop then Some (Record ''RR_Header'' h [], stop, Some (DnsError ''bad rdlength''))
             else Some (rr, off, err))"

text \<open>\<^term>\<open>None\<close> in place of a record is the nil interface.\<close>

definition UnpackRR :: "bytes \<Rightarrow> nat \<Rightarrow> RR option unpacking" where
  "UnpackRR msg off =
     (case unpackHeader msg off of
        None \<Rightarrow> None
      | Some (h, off, msg, Some e) \<Rightarrow> Some (None, length msg, Some e)
      | Some (h, off, msg, None) \<Rightarrow> unpacked Some (UnpackRRWithHeader h msg off))"

text \<open>
  Any error, and the slice is nil; a record that takes no bytes ends it. There is a record whenever
  there is no error.
\<close>

fun unpackRRslice_loop :: "nat \<Rightarrow> RR list \<Rightarrow> bytes \<Rightarrow> nat \<Rightarrow> RR list unpacking" where
  "unpackRRslice_loop 0 dst msg off = Some (dst, off, None)"
| "unpackRRslice_loop (Suc l) dst msg off =
     (case UnpackRR msg off of
        None \<Rightarrow> None
      | Some (r, off1, Some e) \<Rightarrow> Some (dst, length msg, Some e)
      | Some (r, off1, None) \<Rightarrow>
          if off1 = off then Some (dst, off1, None)
          else unpackRRslice_loop l (dst @ (case r of None \<Rightarrow> [] | Some rr \<Rightarrow> [rr])) msg off1)"

definition unpackRRslice :: "nat \<Rightarrow> bytes \<Rightarrow> nat \<Rightarrow> RR list unpacking" where
  "unpackRRslice l msg off =
     map_option (\<lambda>(dst, off, err). (if err \<noteq> None \<and> off = length msg then [] else dst, off, err))
       (unpackRRslice_loop l [] msg off)"

subsection \<open>Packing\<close>

type_synonym packer = "RR \<Rightarrow> bytes \<Rightarrow> nat \<Rightarrow> compression \<Rightarrow> bool \<Rightarrow> (RR \<times> nat \<times> bytes \<times> compression) packing"

definition A_pack :: packer where "A_pack = pack_struct A_fields"

definition AAAA_pack :: packer where "AAAA_pack = pack_struct AAAA_fields"

definition AFSDB_pack :: packer where "AFSDB_pack = pack_struct AFSDB_fields"

definition ANY_pack :: packer where "ANY_pack = pack_struct ANY_fields"

definition AVC_pack :: packer where "AVC_pack = pack_struct AVC_fields"

definition CAA_pack :: packer where "CAA_pack = pack_struct CAA_fields"

definition CDNSKEY_pack :: packer where "CDNSKEY_pack = pack_struct CDNSKEY_fields"

definition CDS_pack :: packer where "CDS_pack = pack_struct CDS_fields"

definition CERT_pack :: packer where "CERT_pack = pack_struct CERT_fields"

definition CNAME_pack :: packer where "CNAME_pack = pack_struct CNAME_fields"

definition CSYNC_pack :: packer where "CSYNC_pack = pack_struct CSYNC_fields"

definition DHCID_pack :: packer where "DHCID_pack = pack_struct DHCID_fields"

definition DLV_pack :: packer where "DLV_pack = pack_struct DLV_fields"

definition DNAME_pack :: packer where "DNAME_pack = pack_struct DNAME_fields"

definition DNSKEY_pack :: packer where "DNSKEY_pack = pack_struct DNSKEY_fields"

definition DS_pack :: packer where "DS_pack = pack_struct DS_fields"

definition EID_pack :: packer where "EID_pack = pack_struct EID_fields"

definition EUI48_pack :: packer where "EUI48_pack = pack_struct EUI48_fields"

definition EUI64_pack :: packer where "EUI64_pack = pack_struct EUI64_fields"

definition GID_pack :: packer where "GID_pack = pack_struct GID_fields"

definition GPOS_pack :: packer where "GPOS_pack = pack_struct GPOS_fields"

definition HINFO_pack :: packer where "HINFO_pack = pack_struct HINFO_fields"

definition HIP_pack :: packer where "HIP_pack = pack_struct HIP_fields"

definition KEY_pack :: packer where "KEY_pack = pack_struct KEY_fields"

definition KX_pack :: packer where "KX_pack = pack_struct KX_fields"

definition L32_pack :: packer where "L32_pack = pack_struct L32_fields"

definition L64_pack :: packer where "L64_pack = pack_struct L64_fields"

definition LOC_pack :: packer where "LOC_pack = pack_struct LOC_fields"

definition LP_pack :: packer where "LP_pack = pack_struct LP_fields"

definition MB_pack :: packer where "MB_pack = pack_struct MB_fields"

definition MD_pack :: packer where "MD_pack = pack_struct MD_fields"

definition MF_pack :: packer where "MF_pack = pack_struct MF_fields"

definition MG_pack :: packer where "MG_pack = pack_struct MG_fields"

definition MINFO_pack :: packer where "MINFO_pack = pack_struct MINFO_fields"

definition MR_pack :: packer where "MR_pack = pack_struct MR_fields"

definition MX_pack :: packer where "MX_pack = pack_struct MX_fields"

definition NAPTR_pack :: packer where "NAPTR_pack = pack_struct NAPTR_fields"

definition NID_pack :: packer where "NID_pack = pack_struct NID_fields"

definition NIMLOC_pack :: packer where "NIMLOC_pack = pack_struct NIMLOC_fields"

definition NINFO_pack :: packer where "NINFO_pack = pack_struct NINFO_fields"

definition NS_pack :: packer where "NS_pack = pack_struct NS_fields"

definition NSAPPTR_pack :: packer where "NSAPPTR_pack = pack_struct NSAPPTR_fields"

definition NSEC_pack :: packer where "NSEC_pack = pack_struct NSEC_fields"

definition NSEC3_pack :: packer where "NSEC3_pack = pack_struct NSEC3_fields"

definition NSEC3PARAM_pack :: packer where "NSEC3PARAM_pack = pack_struct NSEC3PARAM_fields"

definition OPENPGPKEY_pack :: packer where "OPENPGPKEY_pack = pack_struct OPENPGPKEY_fields"

definition OPT_pack :: packer where "OPT_pack = pack_struct OPT_fields"

definition PTR_pack :: packer where "PTR_pack = pack_struct PTR_fields"

definition PX_pack :: packer where "PX_pack = pack_struct PX_fields"

definition RFC3597_pack :: packer where "RFC3597_pack = pack_struct RFC3597_fields"

definition RKEY_pack :: packer where "RKEY_pack = pack_struct RKEY_fields"

definition RP_pack :: packer where "RP_pack = pack_struct RP_fields"

definition RRSIG_pack :: packer where "RRSIG_pack = pack_struct RRSIG_fields"

definition RT_pack :: packer where "RT_pack = pack_struct RT_fields"

definition SIG_pack :: packer where "SIG_pack = pack_struct SIG_fields"

definition SMIMEA_pack :: packer where "SMIMEA_pack = pack_struct SMIMEA_fields"

definition SOA_pack :: packer where "SOA_pack = pack_struct SOA_fields"

definition SPF_pack :: packer where "SPF_pack = pack_struct SPF_fields"

definition SRV_pack :: packer where "SRV_pack = pack_struct SRV_fields"

definition SSHFP_pack :: packer where "SSHFP_pack = pack_struct SSHFP_fields"

definition TA_pack :: packer where "TA_pack = pack_struct TA_fields"

definition TALINK_pack :: packer where "TALINK_pack = pack_struct TALINK_fields"

definition TKEY_pack :: packer where "TKEY_pack = pack_struct TKEY_fields"

definition TLSA_pack :: packer where "TLSA_pack = pack_struct TLSA_fields"

definition TSIG_pack :: packer where "TSIG_pack = pack_struct TSIG_fields"

definition TXT_pack :: packer where "TXT_pack = pack_struct TXT_fields"

definition UID_pack :: packer where "UID_pack = pack_struct UID_fields"

definition UINFO_pack :: packer where "UINFO_pack = pack_struct UINFO_fields"

definition URI_pack :: packer where "URI_pack = pack_struct URI_fields"

definition X25_pack :: packer where "X25_pack = pack_struct X25_fields"

text \<open>The pack method of a record is that of its struct.\<close>

definition packers :: "(string \<times> packer) list" where
  "packers = [
     (''A'', A_pack), (''AAAA'', AAAA_pack), (''AFSDB'', AFSDB_pack), (''ANY'', ANY_pack), (''AVC'', AVC_pack),
     (''CAA'', CAA_pack), (''CDNSKEY'', CDNSKEY_pack), (''CDS'', CDS_pack), (''CERT'', CERT_pack),
     (''CNAME'', CNAME_pack), (''CSYNC'', CSYNC_pack), (''DHCID'', DHCID_pack), (''DLV'', DLV_pack),
     (''DNAME'', DNAME_pack), (''DNSKEY'', DNSKEY_pack), (''DS'', DS_pack), (''EID'', EID_pack),
     (''EUI48'', EUI48_pack), (''EUI64'', EUI64_pack), (''GID'', GID_pack), (''GPOS'', GPOS_pack),
     (''HINFO'', HINFO_pack), (''HIP'', HIP_pack), (''KEY'', KEY_pack), (''KX'', KX_pack), (''L32'', L32_pack),
     (''L64'', L64_pack), (''LOC'', LOC_pack), (''LP'', LP_pack), (''MB'', MB_pack), (''MD'', MD_pack),
     (''MF'', MF_pack), (''MG'', MG_pack), (''MINFO'', MINFO_pack), (''MR'', MR_pack), (''MX'', MX_pack),
     (''NAPTR'', NAPTR_pack), (''NID'', NID_pack), (''NIMLOC'', NIMLOC_pack), (''NINFO'', NINFO_pack),
     (''NS'', NS_pack), (''NSAPPTR'', NSAPPTR_pack), (''NSEC'', NSEC_pack), (''NSEC3'', NSEC3_pack),
     (''NSEC3PARAM'', NSEC3PARAM_pack), (''OPENPGPKEY'', OPENPGPKEY_pack), (''OPT'', OPT_pack), (''PTR'', PTR_pack),
     (''PX'', PX_pack), (''RFC3597'', RFC3597_pack), (''RKEY'', RKEY_pack), (''RP'', RP_pack),
     (''RRSIG'', RRSIG_pack), (''RT'', RT_pack), (''SIG'', SIG_pack), (''SMIMEA'', SMIMEA_pack), (''SOA'', SOA_pack),
     (''SPF'', SPF_pack), (''SRV'', SRV_pack), (''SSHFP'', SSHFP_pack), (''TA'', TA_pack), (''TALINK'', TALINK_pack),
     (''TKEY'', TKEY_pack), (''TLSA'', TLSA_pack), (''TSIG'', TSIG_pack), (''TXT'', TXT_pack), (''UID'', UID_pack),
     (''UINFO'', UINFO_pack), (''URI'', URI_pack), (''X25'', X25_pack)]"

definition RR_pack :: packer where
  "RR_pack rr msg off cm compress =
     (case map_of packers (RR_struct rr) of None \<Rightarrow> None | Some p \<Rightarrow> p rr msg off cm compress)"

function raw_name_end :: "bytes \<Rightarrow> nat \<Rightarrow> nat option" where
  "raw_name_end msg off =
     (if off + 1 > length msg then None
      else let c = msg ! off in
        if c AND 0xC0 = 0 then
          if c = 0 then Some (off + 1)
          else if off + 1 + unat c > length msg then None
          else raw_name_end msg (off + 1 + unat c)
        else if c AND 0xC0 = 0xC0 then Some (off + 2)
        else raw_name_end msg (off + 1))"
  by pat_completeness auto
termination
  by (relation "measure (\<lambda>(msg, off). length msg - off)") (auto simp: Let_def)

declare raw_name_end.simps [simp del]

text \<open>The lengths are integers in the source: one that comes out negative is stored modulo 65536.\<close>

definition rawSetRdlength :: "bytes \<Rightarrow> nat \<Rightarrow> nat \<Rightarrow> bytes option" where
  "rawSetRdlength msg off stop =
     (case raw_name_end msg off of
        None \<Rightarrow> None
      | Some off \<Rightarrow>
          let off = off + (2 + 2 + 4) in
          if off + 2 > length msg then None
          else let rdatalen = int stop - int (off + 2) in
            if rdatalen > 0xFFFF then None else Some (write_at off (PutUint16 (of_int rdatalen)) msg))"

definition PackRR :: packer where
  "PackRR rr msg off cm compress =
     pthen (RR_pack rr msg off cm compress) (\<lambda>(rr, off1, msg, cm).
       case rawSetRdlength msg off off1 of
         None \<Rightarrow> Some (Inl ErrRdata)
       | Some msg \<Rightarrow> Some (Inr (rr, off1, msg, cm)))"

subsection \<open>Lengths\<close>

text \<open>
  \<^verbatim>\<open>lastwindow := uint32(2 ^ 32 + 1)\<close> is 35, since \<^verbatim>\<open>^\<close> is the exclusive or of Go.
\<close>

fun nsec_len :: "nat \<Rightarrow> 16 word list \<Rightarrow> nat" where
  "nsec_len lastwindow [] = 0"
| "nsec_len lastwindow (t # ts) =
     (let window = unat t div 256 in (if window \<noteq> lastwindow then 1 + 32 else 0) + nsec_len window ts)"

definition first_window :: nat where "first_window = (2 XOR 32) + 1"

definition OPT_len :: "EDNS0 list \<Rightarrow> nat" where
  "OPT_len es = sum_list (map (\<lambda>e. 4 + (case EDNS0_pack e of Inl _ \<Rightarrow> 0 | Inr b \<Rightarrow> length b)) es)"

definition DecodedLen64 :: "nat \<Rightarrow> nat" where "DecodedLen64 n = n div 4 * 3"

fun str_len :: "rdata \<Rightarrow> nat" where
  "str_len (V_string s) = length s"
| "str_len _ = 0"

fun strs_len :: "rdata \<Rightarrow> nat" where
  "strs_len (V_strings ss) = sum_list (map (\<lambda>s. length s + 1) ss)"
| "strs_len _ = 0"

primrec field_len :: "field \<Rightarrow> rdata \<Rightarrow> nat" where
  "field_len F_uint8 v = 1"
| "field_len F_uint16 v = 2"
| "field_len F_uint32 v = 4"
| "field_len F_uint48 v = 6"
| "field_len F_uint64 v = 8"
| "field_len F_string v = str_len v + 1"
| "field_len F_octet v = str_len v"
| "field_len F_txt v = strs_len v"
| "field_len F_cdomain_name v = str_len v + 1"
| "field_len F_domain_name v = str_len v + 1"
| "field_len F_domain_names v = strs_len v"
| "field_len F_a v = 4"
| "field_len F_aaaa v = 16"
| "field_len F_nsec v = (case v of V_types ts \<Rightarrow> nsec_len first_window ts | _ \<Rightarrow> 0)"
| "field_len F_opt v = (case v of V_opts es \<Rightarrow> OPT_len es | _ \<Rightarrow> 0)"
| "field_len F_hex v = str_len v div 2 + 1"
| "field_len F_base64 v = DecodedLen64 (str_len v)"
| "field_len (F_size_hex _) v = str_len v div 2"
| "field_len (F_size_base64 _) v = DecodedLen64 (str_len v)"
| "field_len (F_size_base32 _) v = 1 + str_len v + 1"

fun fields_len :: "layout \<Rightarrow> (string \<times> rdata) list \<Rightarrow> nat" where
  "fields_len [] vs = 0"
| "fields_len ((n, f) # fs) vs = (case map_of vs n of None \<Rightarrow> 0 | Some v \<Rightarrow> field_len f v) + fields_len fs vs"

definition layouts :: "(string \<times> layout) list" where
  "layouts = [
     (''A'', A_fields), (''AAAA'', AAAA_fields), (''AFSDB'', AFSDB_fields), (''ANY'', ANY_fields),
     (''AVC'', AVC_fields), (''CAA'', CAA_fields), (''CDNSKEY'', CDNSKEY_fields), (''CDS'', CDS_fields),
     (''CERT'', CERT_fields), (''CNAME'', CNAME_fields), (''CSYNC'', CSYNC_fields), (''DHCID'', DHCID_fields),
     (''DLV'', DLV_fields), (''DNAME'', DNAME_fields), (''DNSKEY'', DNSKEY_fields), (''DS'', DS_fields),
     (''EID'', EID_fields), (''EUI48'', EUI48_fields), (''EUI64'', EUI64_fields), (''GID'', GID_fields),
     (''GPOS'', GPOS_fields), (''HINFO'', HINFO_fields), (''HIP'', HIP_fields), (''KEY'', KEY_fields),
     (''KX'', KX_fields), (''L32'', L32_fields), (''L64'', L64_fields), (''LOC'', LOC_fields), (''LP'', LP_fields),
     (''MB'', MB_fields), (''MD'', MD_fields), (''MF'', MF_fields), (''MG'', MG_fields), (''MINFO'', MINFO_fields),
     (''MR'', MR_fields), (''MX'', MX_fields), (''NAPTR'', NAPTR_fields), (''NID'', NID_fields),
     (''NIMLOC'', NIMLOC_fields), (''NINFO'', NINFO_fields), (''NS'', NS_fields), (''NSAPPTR'', NSAPPTR_fields),
     (''NSEC'', NSEC_fields), (''NSEC3'', NSEC3_fields), (''NSEC3PARAM'', NSEC3PARAM_fields),
     (''OPENPGPKEY'', OPENPGPKEY_fields), (''OPT'', OPT_fields), (''PTR'', PTR_fields), (''PX'', PX_fields),
     (''RFC3597'', RFC3597_fields), (''RKEY'', RKEY_fields), (''RP'', RP_fields), (''RRSIG'', RRSIG_fields),
     (''RT'', RT_fields), (''SIG'', SIG_fields), (''SMIMEA'', SMIMEA_fields), (''SOA'', SOA_fields),
     (''SPF'', SPF_fields), (''SRV'', SRV_fields), (''SSHFP'', SSHFP_fields), (''TA'', TA_fields),
     (''TALINK'', TALINK_fields), (''TKEY'', TKEY_fields), (''TLSA'', TLSA_fields), (''TSIG'', TSIG_fields),
     (''TXT'', TXT_fields), (''UID'', UID_fields), (''UINFO'', UINFO_fields), (''URI'', URI_fields),
     (''X25'', X25_fields)]"

definition RR_len :: "RR \<Rightarrow> nat" where
  "RR_len rr = RR_Header_len (Header rr) + (case map_of layouts (RR_struct rr) of None \<Rightarrow> 0 | Some fs \<Rightarrow> fields_len fs (RR_fields rr))"

subsection \<open>Reading stays inside the message\<close>

lemmas unpackers =
  unpackA_def unpackAAAA_def unpackAFSDB_def unpackANY_def unpackAVC_def unpackCAA_def unpackCDNSKEY_def unpackCDS_def
  unpackCERT_def unpackCNAME_def unpackCSYNC_def unpackDHCID_def unpackDLV_def unpackDNAME_def unpackDNSKEY_def unpackDS_def
  unpackEID_def unpackEUI48_def unpackEUI64_def unpackGID_def unpackGPOS_def unpackHINFO_def unpackHIP_def unpackKEY_def
  unpackKX_def unpackL32_def unpackL64_def unpackLOC_def unpackLP_def unpackMB_def unpackMD_def unpackMF_def
  unpackMG_def unpackMINFO_def unpackMR_def unpackMX_def unpackNAPTR_def unpackNID_def unpackNIMLOC_def unpackNINFO_def
  unpackNS_def unpackNSAPPTR_def unpackNSEC_def unpackNSEC3_def unpackNSEC3PARAM_def unpackOPENPGPKEY_def unpackOPT_def unpackPTR_def
  unpackPX_def unpackRFC3597_def unpackRKEY_def unpackRP_def unpackRRSIG_def unpackRT_def unpackSIG_def unpackSMIMEA_def
  unpackSOA_def unpackSPF_def unpackSRV_def unpackSSHFP_def unpackTA_def unpackTALINK_def unpackTKEY_def unpackTLSA_def
  unpackTSIG_def unpackTXT_def unpackUID_def unpackUINFO_def unpackURI_def unpackX25_def

lemma typeToUnpack_struct: "map_of typeToUnpack t = Some fn \<Longrightarrow> \<exists>struct fs. fn = unpack_struct struct fs"
proof -
  have "list_all (\<lambda>(_, fn). \<exists>struct fs. fn = unpack_struct struct fs) typeToUnpack"
    unfolding typeToUnpack_def unpackers by (simp, blast)
  then show "map_of typeToUnpack t = Some fn \<Longrightarrow> \<exists>struct fs. fn = unpack_struct struct fs"
    by (auto simp: list_all_iff dest!: map_of_SomeD)
qed


lemma reads_UnpackRRWithHeader:
  assumes "off + unat (rr_Rdlength h) = length msg"
  shows "reads msg off (UnpackRRWithHeader h msg off)"
proof -
  define fn where "fn = (case map_of typeToUnpack (rr_Rrtype h) of None \<Rightarrow> unpackRFC3597 | Some fn \<Rightarrow> fn)"
  have "\<exists>struct fs. fn = unpack_struct struct fs"
    using typeToUnpack_struct by (auto simp: fn_def unpackRFC3597_def split: option.splits)
  then have "reads msg off (fn h msg off)" using reads_unpack_struct [OF assms] by auto
  then show ?thesis
    using assms by (auto simp: UnpackRRWithHeader_def fn_def [symmetric] Let_def elim!: readsE)
qed

lemma unpackHeader_total:
  assumes "off \<le> length msg"
  obtains h off1 m err where "unpackHeader msg off = Some (h, off1, m, err)" and "length m \<le> length msg"
    and "err = None \<Longrightarrow> off \<le> off1 \<and> off1 + unat (rr_Rdlength h) = length m"
proof (cases "off = length msg")
  case True
  then show ?thesis by (intro that) (auto simp: unpackHeader_def Let_def)
next
  case False
  have n: "reads msg off (UnpackDomainName msg off)" and w: "reads msg k (unpackUint16 msg k)" and l: "reads msg k (unpackUint32 msg k)" for k
    by (rule reads_intro)+
  have "\<exists>r. unpackHeader msg off = Some r \<and> (case r of (h, off1, m, err) \<Rightarrow> length m \<le> length msg
      \<and> (err = None \<longrightarrow> off \<le> off1 \<and> off1 + unat (rr_Rdlength h) = length m))"
    unfolding unpackHeader_def Let_def if_not_P [OF False]
    by (intro uthen_reads [OF n] uthen_reads [OF w] uthen_reads [OF l])
      (auto simp: truncateMsgFromRdlength_def Let_def slice_in_range)
  then show ?thesis using that by blast
qed


lemma reads_UnpackRR: "off \<le> length msg \<Longrightarrow> reads msg off (UnpackRR msg off)"
proof (erule unpackHeader_total)
  fix h off1 m err
  assume h: "unpackHeader msg off = Some (h, off1, m, err)" "length m \<le> length msg"
    and ok: "err = None \<Longrightarrow> off \<le> off1 \<and> off1 + unat (rr_Rdlength h) = length m"
  show ?thesis
  proof (cases err)
    case None
    with ok reads_UnpackRRWithHeader [of off1 h m] h show ?thesis
      by (auto simp: UnpackRR_def elim!: readsE)
  next
    case (Some e)
    with h show ?thesis by (simp add: UnpackRR_def)
  qed
qed

lemma unpackRRslice_loop_total:
  "off \<le> length msg \<Longrightarrow> good (\<lambda>(rs, off1, err). off1 \<le> length msg
     \<and> (if err = None then off \<le> off1 \<and> length rs + off \<le> length dst + off1 else off1 = length msg)) (unpackRRslice_loop l dst msg off)"
proof (induction l arbitrary: dst off)
  case (Suc l)
  show ?case
    unfolding unpackRRslice_loop.simps
    by (rule good_case [OF good_reads [OF reads_UnpackRR [OF Suc.prems]]])
      (auto intro!: good_mono [OF Suc.IH] split: option.splits if_splits)
qed simp

lemma unpackRRslice_total:
  "off \<le> length msg \<Longrightarrow> good (\<lambda>(rs, off1, err). off \<le> off1 \<and> off1 \<le> length msg \<and> length rs + off \<le> off1) (unpackRRslice l msg off)"
  unfolding unpackRRslice_def good_simps
  by (rule good_mono [OF unpackRRslice_loop_total]) (auto split: if_splits)

end
