(* ===== verification/DnsMsg.thy ===== *)
theory DnsMsg
  imports DnsTypes
begin

text \<open>
  DNS messages (\<^verbatim>\<open>miekg/dns/msg.go\<close>, \<^verbatim>\<open>types.go\<close>, \<^verbatim>\<open>defaults.go\<close>): the header, the questions, packing a whole
  message into a fresh buffer and unpacking one.
\<close>

unbundle bit_operations_syntax

subsection \<open>Messages\<close>

record Question =
  q_Name :: string
  q_Qtype :: "16 word"
  q_Qclass :: "16 word"

record MsgHdr =
  Id :: "16 word"
  Response :: bool
  Opcode :: int
  Authoritative :: bool
  Truncated :: bool
  RecursionDesired :: bool
  RecursionAvailable :: bool
  Zero :: bool
  AuthenticatedData :: bool
  CheckingDisabled :: bool
  Rcode :: int

record Msg = MsgHdr +
  Compress :: bool
  Questions :: "Question list"
  Answer :: "RR list"
  Ns :: "RR list"
  Extra :: "RR list"

definition new_Msg :: Msg where
  "new_Msg = \<lparr>Id = 0, Response = False, Opcode = 0, Authoritative = False, Truncated = False, RecursionDesired = False,
     RecursionAvailable = False, Zero = False, AuthenticatedData = False, CheckingDisabled = False, Rcode = 0,
     Compress = False, Questions = [], Answer = [], Ns = [], Extra = []\<rparr>"

definition OpcodeQuery :: int where "OpcodeQuery = 0"

definition RcodeSuccess :: int where "RcodeSuccess = 0"

definition RcodeFormatError :: int where "RcodeFormatError = 1"

definition RcodeBadVers :: "8 word" where "RcodeBadVers = 16"

definition ClassINET :: "16 word" where "ClassINET = 1"

definition SetReply :: "Msg \<Rightarrow> Msg \<Rightarrow> Msg" where
  "SetReply dns request =
     (let dns = dns\<lparr>Id := Id request, Response := True, Opcode := Opcode request\<rparr>;
          dns = (if Opcode dns = OpcodeQuery
                 then dns\<lparr>RecursionDesired := RecursionDesired request, CheckingDisabled := CheckingDisabled request\<rparr>
                 else dns);
          dns = dns\<lparr>Rcode := RcodeSuccess\<rparr>
      in case Questions request of [] \<Rightarrow> dns | q # _ \<Rightarrow> dns\<lparr>Questions := [q]\<rparr>)"

definition SetRcodeFormatError :: "Msg \<Rightarrow> Msg \<Rightarrow> Msg" where
  "SetRcodeFormatError dns request =
     dns\<lparr>Rcode := RcodeFormatError, Opcode := OpcodeQuery, Response := True, Authoritative := False, Id := Id request\<rparr>"

text \<open>The message header as it is in a message.\<close>

record wire_header =
  h_Id :: "16 word"
  h_Bits :: "16 word"
  h_Qdcount :: "16 word"
  h_Ancount :: "16 word"
  h_Nscount :: "16 word"
  h_Arcount :: "16 word"

abbreviation QR :: "16 word" where "QR \<equiv> push_bit 15 1"
abbreviation AA :: "16 word" where "AA \<equiv> push_bit 10 1"
abbreviation TC :: "16 word" where "TC \<equiv> push_bit 9 1"
abbreviation RD :: "16 word" where "RD \<equiv> push_bit 8 1"
abbreviation RA :: "16 word" where "RA \<equiv> push_bit 7 1"
abbreviation ZB :: "16 word" where "ZB \<equiv> push_bit 6 1"
abbreviation AD :: "16 word" where "AD \<equiv> push_bit 5 1"
abbreviation CD :: "16 word" where "CD \<equiv> push_bit 4 1"

subsection \<open>Unpacking\<close>

definition unpackMsgHdr :: "bytes \<Rightarrow> nat \<Rightarrow> wire_header unpacking" where
  "unpackMsgHdr msg off =
     (let dh = \<lparr>h_Id = 0, h_Bits = 0, h_Qdcount = 0, h_Ancount = 0, h_Nscount = 0, h_Arcount = 0\<rparr> in
      uthen (unpackUint16 msg off) (\<lambda>v off e. (dh\<lparr>h_Id := v\<rparr>, off, Some e)) (\<lambda>v off. let dh = dh\<lparr>h_Id := v\<rparr> in
      uthen (unpackUint16 msg off) (\<lambda>v off e. (dh\<lparr>h_Bits := v\<rparr>, off, Some e)) (\<lambda>v off. let dh = dh\<lparr>h_Bits := v\<rparr> in
      uthen (unpackUint16 msg off) (\<lambda>v off e. (dh\<lparr>h_Qdcount := v\<rparr>, off, Some e)) (\<lambda>v off. let dh = dh\<lparr>h_Qdcount := v\<rparr> in
      uthen (unpackUint16 msg off) (\<lambda>v off e. (dh\<lparr>h_Ancount := v\<rparr>, off, Some e)) (\<lambda>v off. let dh = dh\<lparr>h_Ancount := v\<rparr> in
      uthen (unpackUint16 msg off) (\<lambda>v off e. (dh\<lparr>h_Nscount := v\<rparr>, off, Some e)) (\<lambda>v off. let dh = dh\<lparr>h_Nscount := v\<rparr> in
      unpacked (\<lambda>v. dh\<lparr>h_Arcount := v\<rparr>) (unpackUint16 msg off)))))))"

text \<open>An error of the class at the very end of the message is dropped, as in the source.\<close>

definition unpackQuestion :: "bytes \<Rightarrow> nat \<Rightarrow> Question unpacking" where
  "unpackQuestion msg off =
     (let q = \<lparr>q_Name = [], q_Qtype = 0, q_Qclass = 0\<rparr> in
      uthen (UnpackDomainName msg off) (\<lambda>v off e. (q\<lparr>q_Name := v\<rparr>, off, Some e)) (\<lambda>v off. let q = q\<lparr>q_Name := v\<rparr> in
      if off = length msg then Some (q, off, None)
      else
        uthen (unpackUint16 msg off) (\<lambda>v off e. (q\<lparr>q_Qtype := v\<rparr>, off, Some e)) (\<lambda>v off. let q = q\<lparr>q_Qtype := v\<rparr> in
        if off = length msg then Some (q, off, None)
        else
          (case unpackUint16 msg off of
             None \<Rightarrow> None
           | Some (v, off, err) \<Rightarrow>
               let q = q\<lparr>q_Qclass := v\<rparr> in if off = length msg then Some (q, off, None) else Some (q, off, err)))))"

fun unpack_questions :: "nat \<Rightarrow> Question list \<Rightarrow> bytes \<Rightarrow> nat \<Rightarrow> Question list unpacking" where
  "unpack_questions 0 qs msg off = Some (qs, off, None)"
| "unpack_questions (Suc n) qs msg off =
     (case unpackQuestion msg off of
        None \<Rightarrow> None
      | Some (_, off1, Some e) \<Rightarrow> Some (qs, off1, Some e)
      | Some (q, off1, None) \<Rightarrow>
          if off1 = off then Some (qs, off1, None) else unpack_questions n (qs @ [q]) msg off1)"

definition set_header :: "wire_header \<Rightarrow> Msg \<Rightarrow> Msg" where
  "set_header dh dns =
     dns\<lparr>Id := h_Id dh, Response := h_Bits dh AND QR \<noteq> 0, Opcode := uint (drop_bit 11 (h_Bits dh) AND 0xF),
       Authoritative := h_Bits dh AND AA \<noteq> 0, Truncated := h_Bits dh AND TC \<noteq> 0, RecursionDesired := h_Bits dh AND RD \<noteq> 0,
       RecursionAvailable := h_Bits dh AND RA \<noteq> 0, Zero := h_Bits dh AND ZB \<noteq> 0, AuthenticatedData := h_Bits dh AND AD \<noteq> 0,
       CheckingDisabled := h_Bits dh AND CD \<noteq> 0, Rcode := uint (h_Bits dh AND 0xF)\<rparr>"

text \<open>The three sections of records, each only after the one before it came without an error.\<close>

definition unpack_sections :: "wire_header \<Rightarrow> Msg \<Rightarrow> bytes \<Rightarrow> nat \<Rightarrow> Msg unpacking" where
  "unpack_sections dh dns msg off =
     (case unpackRRslice (unat (h_Ancount dh)) msg off of
        None \<Rightarrow> None
      | Some (rs, off, err) \<Rightarrow>
          let dns = dns\<lparr>Answer := rs\<rparr> in
          if err \<noteq> None then Some (dns, off, err)
          else (case unpackRRslice (unat (h_Nscount dh)) msg off of
            None \<Rightarrow> None
          | Some (rs, off, err) \<Rightarrow>
              let dns = dns\<lparr>Ns := rs\<rparr> in
              if err \<noteq> None then Some (dns, off, err)
              else unpacked (\<lambda>rs. dns\<lparr>Extra := rs\<rparr>) (unpackRRslice (unat (h_Arcount dh)) msg off)))"

definition Msg_Unpack :: "Msg \<Rightarrow> bytes \<Rightarrow> (Msg \<times> dns_error option) option" where
  "Msg_Unpack dns msg =
     uthen (unpackMsgHdr msg 0) (\<lambda>_ _ e. (dns, Some e)) (\<lambda>dh off.
       let dns = set_header dh dns in
       if off = length msg then Some (dns\<lparr>Questions := [], Answer := [], Ns := [], Extra := []\<rparr>, None)
       else case unpack_questions (unat (h_Qdcount dh)) [] msg off of
         None \<Rightarrow> None
       | Some (qs, off, Some e) \<Rightarrow> Some (dns\<lparr>Questions := qs\<rparr>, Some e)
       | Some (qs, off, None) \<Rightarrow>
           (case unpack_sections dh (dns\<lparr>Questions := qs\<rparr>) msg off of
              None \<Rightarrow> None
            | Some (dns, off, err) \<Rightarrow> Some (dns, if off = length msg \<and> Truncated dns then Some ErrTruncated else err)))"

subsection \<open>Packing\<close>

definition wire_header_pack :: "wire_header \<Rightarrow> bytes \<Rightarrow> nat \<Rightarrow> (nat \<times> bytes) packing" where
  "wire_header_pack dh msg off =
     pthen (packUint16 (h_Id dh) msg off) (\<lambda>(off, msg).
     pthen (packUint16 (h_Bits dh) msg off) (\<lambda>(off, msg).
     pthen (packUint16 (h_Qdcount dh) msg off) (\<lambda>(off, msg).
     pthen (packUint16 (h_Ancount dh) msg off) (\<lambda>(off, msg).
     pthen (packUint16 (h_Nscount dh) msg off) (\<lambda>(off, msg).
     packUint16 (h_Arcount dh) msg off)))))"

definition Question_pack :: "Question \<Rightarrow> bytes \<Rightarrow> nat \<Rightarrow> compression \<Rightarrow> bool \<Rightarrow> (nat \<times> bytes \<times> compression) packing" where
  "Question_pack q msg off cm compress =
     pthen (PackDomainName (q_Name q) msg off cm compress) (\<lambda>(off, msg, cm).
     pthen (packUint16 (q_Qtype q) msg off) (\<lambda>(off, msg).
     pthen (packUint16 (q_Qclass q) msg off) (\<lambda>(off, msg).
     Some (Inr (off, msg, cm)))))"

definition Question_len :: "Question \<Rightarrow> nat" where
  "Question_len q = length (q_Name q) + 1 + 2 + 2"

text \<open>The uncompressed length.\<close>

definition compressedLen :: "Msg \<Rightarrow> nat" where
  "compressedLen dns =
     12 + sum_list (map Question_len (Questions dns)) + sum_list (map RR_len (Answer dns))
        + sum_list (map RR_len (Ns dns)) + sum_list (map RR_len (Extra dns))"

text \<open>Where the options record of a message is; a record of that type that is not of the struct panics.\<close>

definition IsEdns0 :: "Msg \<Rightarrow> nat option option" where
  "IsEdns0 dns =
     (case filter (\<lambda>i. rr_Rrtype (Header (Extra dns ! i)) = TypeOPT) (rev [0..<length (Extra dns)]) of
        [] \<Rightarrow> Some None
      | i # _ \<Rightarrow> if RR_struct (Extra dns ! i) = ''OPT'' then Some (Some i) else None)"

definition SetExtendedRcode :: "8 word \<Rightarrow> RR \<Rightarrow> RR" where
  "SetExtendedRcode v rr =
     (if v < RcodeBadVers then rr
      else Record (RR_struct rr)
        ((Header rr)\<lparr>rr_Ttl := rr_Ttl (Header rr) AND 0x00FFFFFF OR push_bit 24 (ucast (v - 15))\<rparr>) (RR_fields rr))"

definition check_rcode :: "Msg \<Rightarrow> Msg packing" where
  "check_rcode dns =
     (if Rcode dns < 0 \<or> Rcode dns > 0xFFF then Some (Inl ErrRcode)
      else if Rcode dns > 0xF then
        (case IsEdns0 dns of
           None \<Rightarrow> None
         | Some None \<Rightarrow> Some (Inl ErrExtendedRcode)
         | Some (Some i) \<Rightarrow>
             Some (Inr (dns\<lparr>Extra := (Extra dns)[i := SetExtendedRcode (of_int (drop_bit 4 (Rcode dns))) (Extra dns ! i)]\<rparr>)))
      else Some (Inr dns))"

definition flag :: "bool \<Rightarrow> 16 word \<Rightarrow> 16 word" where
  "flag b w = (if b then w else 0)"

definition msg_header :: "Msg \<Rightarrow> wire_header" where
  "msg_header dns =
     \<lparr>h_Id = Id dns,
      h_Bits = push_bit 11 (of_int (Opcode dns)) OR of_int (Rcode dns AND 0xF) OR flag (Response dns) QR OR flag (Authoritative dns) AA
        OR flag (Truncated dns) TC OR flag (RecursionDesired dns) RD OR flag (RecursionAvailable dns) RA OR flag (Zero dns) ZB
        OR flag (AuthenticatedData dns) AD OR flag (CheckingDisabled dns) CD,
      h_Qdcount = of_nat (length (Questions dns)), h_Ancount = of_nat (length (Answer dns)),
      h_Nscount = of_nat (length (Ns dns)), h_Arcount = of_nat (length (Extra dns))\<rparr>"

fun pack_questions :: "Question list \<Rightarrow> bytes \<Rightarrow> nat \<Rightarrow> compression \<Rightarrow> bool \<Rightarrow> (nat \<times> bytes \<times> compression) packing" where
  "pack_questions [] msg off cm c = Some (Inr (off, msg, cm))"
| "pack_questions (q # qs) msg off cm c = pthen (Question_pack q msg off cm c) (\<lambda>(off, msg, cm). pack_questions qs msg off cm c)"

fun pack_RRs :: "RR list \<Rightarrow> bytes \<Rightarrow> nat \<Rightarrow> compression \<Rightarrow> bool \<Rightarrow> (RR list \<times> nat \<times> bytes \<times> compression) packing" where
  "pack_RRs [] msg off cm c = Some (Inr ([], off, msg, cm))"
| "pack_RRs (rr # rrs) msg off cm c =
     pthen (PackRR rr msg off cm c) (\<lambda>(rr, off, msg, cm).
     pthen (pack_RRs rrs msg off cm c) (\<lambda>(rrs, off, msg, cm). Some (Inr (rr # rrs, off, msg, cm))))"

text \<open>The bytes, and the message with the lengths that packing wrote into its records.\<close>

definition packBufferWithCompressionMap :: "Msg \<Rightarrow> bytes \<Rightarrow> compression \<Rightarrow> (bytes \<times> Msg) packing" where
  "packBufferWithCompressionMap dns buf cm =
     pthen (check_rcode dns) (\<lambda>dns.
       let packLen = compressedLen dns + 1; msg = (if length buf < packLen then replicate packLen 0 else buf); c = Compress dns in
       pthen (wire_header_pack (msg_header dns) msg 0) (\<lambda>(off, msg).
       pthen (pack_questions (Questions dns) msg off cm c) (\<lambda>(off, msg, cm).
       pthen (pack_RRs (Answer dns) msg off cm c) (\<lambda>(an, off, msg, cm).
       pthen (pack_RRs (Ns dns) msg off cm c) (\<lambda>(ns, off, msg, cm).
       pthen (pack_RRs (Extra dns) msg off cm c) (\<lambda>(ex, off, msg, cm).
       map_option (\<lambda>b. Inr (b, dns\<lparr>Answer := an, Ns := ns, Extra := ex\<rparr>)) (slice 0 off msg)))))))"

definition PackBuffer :: "Msg \<Rightarrow> bytes \<Rightarrow> (bytes \<times> Msg) packing" where
  "PackBuffer dns buf = packBufferWithCompressionMap dns buf (if Compress dns then Some Map.empty else None)"

definition Pack :: "Msg \<Rightarrow> (bytes \<times> Msg) packing" where
  "Pack dns = PackBuffer dns []"

subsection \<open>Unpacking ends without a panic\<close>

lemma reads_unpackQuestion: "reads msg off (unpackQuestion msg off)"
proof -
  have n: "reads msg off (UnpackDomainName msg off)" and w: "reads msg k (unpackUint16 msg k)" for k by (rule reads_intro)+
  have "good (\<lambda>(_, off1, err). off1 \<le> length msg \<and> (err = None \<longrightarrow> off \<le> off1)) (unpackQuestion msg off)"
    unfolding unpackQuestion_def Let_def
    by (rule good_uthen [OF n], simp, clarsimp, rule good_uthen [OF w], simp, clarsimp)
      (auto intro!: good_case [OF good_reads [OF w]])
  then show ?thesis by (auto simp: good_iff)
qed

lemma unpack_questions_total:
  "off \<le> length msg \<Longrightarrow> good (\<lambda>(rs, off1, err). off1 \<le> length msg \<and> length rs + off \<le> length dst + length msg
     \<and> (err = None \<longrightarrow> off \<le> off1 \<and> length rs + off \<le> length dst + off1)) (unpack_questions n dst msg off)"
proof (induction n arbitrary: dst off)
  case (Suc n)
  show ?case
    unfolding unpack_questions.simps
    by (rule good_case [OF good_reads [OF reads_unpackQuestion]])
      (use Suc.prems in \<open>auto intro!: good_mono [OF Suc.IH] split: option.splits if_splits\<close>)
qed simp


lemma unpackUint16_cases:
  obtains e where "unpackUint16 msg off = Some (0, length msg, Some e)"
  | v where "unpackUint16 msg off = Some (v, off + 2, None)" "off + 2 \<le> length msg"
  using Uint16_at [of off msg] that
  by (cases "off + 2 \<le> length msg") (auto simp: unpackUint16_def simp flip: Option.bind_assoc)

lemma good_uthen_Uint16:
  assumes "\<And>v off e. P (fail v off e)" and "\<And>v. off + 2 \<le> length msg \<Longrightarrow> good P (k v (off + 2))"
  shows "good P (uthen (unpackUint16 msg off) fail k)"
  by (rule unpackUint16_cases [of msg off]) (use assms in \<open>auto simp: uthen_def\<close>)

lemma good_Uint16:
  assumes "\<And>v off e. P (v, off, Some e)" and "\<And>v. off + 2 \<le> length msg \<Longrightarrow> P (v, off + 2, None)"
  shows "good P (unpackUint16 msg off)"
  by (rule unpackUint16_cases [of msg off]) (use assms in auto)

lemma unpackMsgHdr_total: "good (\<lambda>(_, off1, err). err = None \<longrightarrow> off1 = off + 12 \<and> off1 \<le> length msg) (unpackMsgHdr msg off)"
  unfolding unpackMsgHdr_def Let_def
  by (intro good_uthen_Uint16) (auto intro!: good_Uint16)

definition record_count :: "Msg \<Rightarrow> nat" where
  "record_count m = length (Questions m) + length (Answer m) + length (Ns m) + length (Extra m)"

lemma unpack_sections_total:
  assumes "off \<le> length msg" and "Answer dns = []" "Ns dns = []" "Extra dns = []"
  shows "good (\<lambda>(m, off1, err). off1 \<le> length msg \<and> record_count m + off \<le> length (Questions dns) + length msg) (unpack_sections dh dns msg off)"
proof -
  have inner: "good (\<lambda>(m, off1, err). off1 \<le> length msg \<and> record_count m + off \<le> length (Questions dns) + length msg)
      (case unpackRRslice (unat (h_Nscount dh)) msg off1 of
         None \<Rightarrow> None
       | Some (rs, off, err) \<Rightarrow>
           let d = dns\<lparr>Answer := an, Ns := rs\<rparr> in
           if err \<noteq> None then Some (d, off, err)
           else unpacked (\<lambda>rs. d\<lparr>Extra := rs\<rparr>) (unpackRRslice (unat (h_Arcount dh)) msg off))"
    if "off1 \<le> length msg" "length an + off \<le> off1" for an off1
    by (rule good_case [OF unpackRRslice_total [OF that(1)]])
      (use that assms in \<open>auto simp: Let_def record_count_def intro!: good_mono [OF unpackRRslice_total]\<close>)
  have rc: "record_count (dns\<lparr>Answer := an\<rparr>) = length (Questions dns) + length an" for an
    using assms by (simp add: record_count_def)
  show ?thesis
    unfolding unpack_sections_def
    by (rule good_case [OF unpackRRslice_total [OF assms(1)]])
      (use assms rc in \<open>auto simp: Let_def intro!: inner\<close>)
qed

lemma Msg_Unpack_total: "good (\<lambda>(m, err). record_count m \<le> length msg - 12) (Msg_Unpack new_Msg msg)"
  unfolding Msg_Unpack_def uthen_cases
proof (rule good_case [OF unpackMsgHdr_total [of 0 msg]], clarsimp, goal_cases)
  case (1 dh off err)
  have e: "record_count new_Msg = 0" "Answer (set_header dh new_Msg) = []" "Ns (set_header dh new_Msg) = []" "Extra (set_header dh new_Msg) = []"
    by (simp_all add: record_count_def new_Msg_def set_header_def)
  show ?case
  proof (cases "err = None \<and> off \<noteq> length msg")
    case True
    with 1 have off: "off = 12" "12 \<le> length msg" by auto
    have "good (\<lambda>(m, err). record_count m \<le> length msg - 12)
       (case unpack_questions (unat (h_Qdcount dh)) [] msg 12 of
         None \<Rightarrow> None
       | Some (qs, off, Some e) \<Rightarrow> Some ((set_header dh new_Msg)\<lparr>Questions := qs\<rparr>, Some e)
       | Some (qs, off, None) \<Rightarrow>
           (case unpack_sections dh ((set_header dh new_Msg)\<lparr>Questions := qs\<rparr>) msg off of
              None \<Rightarrow> None
            | Some (dns, off, err) \<Rightarrow> Some (dns, if off = length msg \<and> Truncated dns then Some ErrTruncated else err)))"
    proof (rule good_case [OF unpack_questions_total [OF off(2)]], clarsimp, goal_cases)
      case (1 qs off1 err1)
      show ?case
      proof (cases err1)
        case None
        with 1 have o1: "off1 \<le> length msg" "length qs + 12 \<le> off1" by auto
        show ?thesis unfolding None option.case
          by (rule good_case [OF unpack_sections_total [OF o1(1)]]) (use e o1 in auto)
      next
        case (Some x)
        then show ?thesis using 1 e by (auto simp: record_count_def)
      qed
    qed
    then show ?thesis using True off by (simp add: Let_def)
  next
    case False
    then show ?thesis using e by (auto simp: record_count_def split: option.splits)
  qed
qed

text \<open>
  C38 (dns_unpack_safe): unpacking a message ends without a panic on any bytes whatever, with a
  message or an error. However many questions and records the header announces, the message has
  no more of them than there are bytes after the header.
\<close>

theorem dns_unpack_safe:
  "\<exists>m err. Msg_Unpack new_Msg msg = Some (m, err)
     \<and> length (Questions m) + length (Answer m) + length (Ns m) + length (Extra m) \<le> length msg - 12"
  using Msg_Unpack_total [of msg] by (auto simp: good_iff record_count_def)

end
