(* ===== verification/BridgeDns.thy ===== *)
theory BridgeDns
  imports BridgeDhcp GoMonad DnsMsg
begin

text \<open>
  The DNS half of the bridge services: \<^verbatim>\<open>ServeDNS\<close> in \<^verbatim>\<open>netctrl/bridgeServices.go\<close>, on the messages of
  theory \<^verbatim>\<open>DnsMsg\<close>. The upstream resolver, reached by an HTTPS
  request, is a parameter: a function of the URL and the state of the network.
\<close>

subsection \<open>The answers\<close>

record dnsQuestion =
  dq_Name :: string
  dq_Type :: "32 word"

record dnsRecord =
  dr_Name :: string
  dr_Type :: "16 word"
  dr_TTL :: "32 word"
  dr_Data :: string

record dnsResponse =
  ds_Status :: "32 word"
  ds_Question :: "dnsQuestion list"
  ds_Answer :: "dnsRecord list"
  ds_Authority :: "dnsRecord list"
  ds_Additional :: "dnsRecord list"

abbreviation RR_A :: "RR_Header \<Rightarrow> IP \<Rightarrow> RR" where
  "RR_A h ip \<equiv> Record ''A'' h [(''A'', V_IP ip)]"

abbreviation RR_AAAA :: "RR_Header \<Rightarrow> IP \<Rightarrow> RR" where
  "RR_AAAA h ip \<equiv> Record ''AAAA'' h [(''AAAA'', V_IP ip)]"

abbreviation RR_NS :: "RR_Header \<Rightarrow> string \<Rightarrow> RR" where
  "RR_NS h s \<equiv> Record ''NS'' h [(''Ns'', V_string s)]"

abbreviation RR_CNAME :: "RR_Header \<Rightarrow> string \<Rightarrow> RR" where
  "RR_CNAME h s \<equiv> Record ''CNAME'' h [(''Target'', V_string s)]"

abbreviation RR_TXT :: "RR_Header \<Rightarrow> string list \<Rightarrow> RR" where
  "RR_TXT h ss \<equiv> Record ''TXT'' h [(''Txt'', V_strings ss)]"

text \<open>The outcome of an upstream request: it fails, its body does not decode, or it is a response.\<close>

datatype lookup = GetFailed | DecodeFailed | Found dnsResponse

definition hdr :: "string \<Rightarrow> 16 word \<Rightarrow> 32 word \<Rightarrow> RR_Header" where
  "hdr nm t ttl = \<lparr>rr_Name = nm, rr_Rrtype = t, rr_Class = ClassINET, rr_Ttl = ttl, rr_Rdlength = 0\<rparr>"

definition answer_record :: "string \<Rightarrow> dnsRecord \<Rightarrow> RR option" where
  "answer_record nm a =
     (if dr_Type a = TypeA then Some (RR_A (hdr nm TypeA (dr_TTL a)) (ParseIP (dr_Data a)))
      else if dr_Type a = TypeAAAA then Some (RR_AAAA (hdr nm TypeAAAA (dr_TTL a)) (ParseIP (dr_Data a)))
      else if dr_Type a = TypeNS then Some (RR_NS (hdr nm TypeNS (dr_TTL a)) (dr_Data a))
      else if dr_Type a = TypeCNAME then Some (RR_CNAME (hdr nm TypeCNAME (dr_TTL a)) (dr_Data a))
      else if dr_Type a = TypeTXT then Some (RR_TXT (hdr nm TypeTXT (dr_TTL a)) [dr_Data a])
      else None)"

definition resolve_url :: "Question \<Rightarrow> string" where
  "resolve_url q = ''https://dns.google.com/resolve?name='' @ q_Name q @ ''&type='' @ Itoa (uint (q_Qtype q))"

definition answer_question :: "(string \<Rightarrow> 'w \<Rightarrow> lookup \<times> 'w) \<Rightarrow> bridgeServices \<Rightarrow> Question \<Rightarrow> 'w \<Rightarrow> RR list \<times> 'w" where
  "answer_question get h q w =
     (if q_Name q = bs_name h @ ''.'' then ([RR_A (hdr (q_Name q) TypeA 60) (baseIP h)], w)
      else if q_Name q = ''googleDNS.'' then ([RR_A (hdr (q_Name q) TypeA 0) (ParseIP ''8.8.8.8'')], w)
      else case get (resolve_url q) w of
        (GetFailed, w) \<Rightarrow> ([], w)
      | (DecodeFailed, w) \<Rightarrow> ([], w)
      | (Found response, w) \<Rightarrow> (List.map_filter (answer_record (q_Name q)) (ds_Answer response), w))"

fun answer_all :: "(string \<Rightarrow> 'w \<Rightarrow> lookup \<times> 'w) \<Rightarrow> bridgeServices \<Rightarrow> Question list \<Rightarrow> Msg \<Rightarrow> 'w \<Rightarrow> Msg \<times> 'w" where
  "answer_all get h [] m w = (m, w)"
| "answer_all get h (q # qs) m w =
     (case answer_question get h q w of (as, w) \<Rightarrow> answer_all get h qs (m\<lparr>Answer := Answer m @ as\<rparr>) w)"

definition ServeDNS :: "(string \<Rightarrow> 'w \<Rightarrow> lookup \<times> 'w) \<Rightarrow> bridgeServices \<Rightarrow> Msg \<Rightarrow> 'w \<Rightarrow> Msg \<times> 'w" where
  "ServeDNS get h r w =
     (case answer_all get h (Questions r) (SetReply new_Msg r) w of (m, w) \<Rightarrow>
        (m\<lparr>RecursionDesired := False, RecursionAvailable := True\<rparr>, w))"

subsection \<open>Properties\<close>

text \<open>What a record says about itself agrees with its kind.\<close>

definition record_type :: "RR \<Rightarrow> 16 word option" where
  "record_type rr = map_of [(''A'', TypeA), (''AAAA'', TypeAAAA), (''NS'', TypeNS), (''CNAME'', TypeCNAME), (''TXT'', TypeTXT)] (RR_struct rr)"

definition owned_by :: "Question \<Rightarrow> RR \<Rightarrow> bool" where
  "owned_by q a \<longleftrightarrow> rr_Name (Header a) = q_Name q \<and> rr_Class (Header a) = ClassINET \<and> record_type a = Some (rr_Rrtype (Header a))"

definition local_name :: "bridgeServices \<Rightarrow> Question \<Rightarrow> bool" where
  "local_name h q \<longleftrightarrow> q_Name q \<in> {bs_name h @ ''.'', ''googleDNS.''}"

definition local_answer :: "bridgeServices \<Rightarrow> Question \<Rightarrow> RR" where
  "local_answer h q =
     (if q_Name q = bs_name h @ ''.'' then RR_A (hdr (q_Name q) TypeA 60) (baseIP h)
      else RR_A (hdr (q_Name q) TypeA 0) (ParseIP ''8.8.8.8''))"

lemma answer_record_owned: "answer_record (q_Name q) a = Some x \<Longrightarrow> owned_by q x"
  by (auto simp: answer_record_def owned_by_def record_type_def hdr_def split: if_splits)

lemma local_answer_owned: "owned_by q (local_answer h q)"
  by (simp add: local_answer_def owned_by_def record_type_def hdr_def)

lemma answer_question_local: "local_name h q \<Longrightarrow> answer_question get h q w = ([local_answer h q], w)"
  by (auto simp: answer_question_def local_name_def local_answer_def)

lemma answer_question_remote:
  "\<not> local_name h q \<Longrightarrow> answer_question get h q w =
     (case get (resolve_url q) w of (l, w) \<Rightarrow>
        (case l of Found r \<Rightarrow> List.map_filter (answer_record (q_Name q)) (ds_Answer r) | _ \<Rightarrow> [], w))"
  by (auto simp: answer_question_def local_name_def split: lookup.split prod.split)

lemma answer_question_owned: "answer_question get h q w = (as, w') \<Longrightarrow> a \<in> set as \<Longrightarrow> owned_by q a"
  by (cases "local_name h q")
    (auto simp: answer_question_local answer_question_remote local_answer_owned map_filter_def
      split: prod.splits lookup.splits, metis answer_record_owned)

text \<open>The questions are answered in turn, and the rest of the message stays as it is.\<close>

fun dns_answers :: "(string \<Rightarrow> 'w \<Rightarrow> lookup \<times> 'w) \<Rightarrow> bridgeServices \<Rightarrow> Question list \<Rightarrow> 'w \<Rightarrow> RR list \<times> 'w" where
  "dns_answers get h [] w = ([], w)"
| "dns_answers get h (q # qs) w =
     (let (as, w1) = answer_question get h q w; (bs, w2) = dns_answers get h qs w1 in (as @ bs, w2))"

lemma answer_all_answers:
  "answer_all get h qs m w = (m\<lparr>Answer := Answer m @ fst (dns_answers get h qs w)\<rparr>, snd (dns_answers get h qs w))"
  by (induction qs arbitrary: m w) (simp_all add: split_def Let_def)

lemma answers_owned: "a \<in> set (fst (dns_answers get h qs w)) \<Longrightarrow> \<exists>q \<in> set qs. owned_by q a"
proof (induction qs arbitrary: w)
  case (Cons q qs)
  then show ?case
    using answer_question_owned [of get h q w "fst (answer_question get h q w)" "snd (answer_question get h q w)" a]
    by (fastforce simp: split_def Let_def)
qed simp

lemma answers_local: "q \<in> set qs \<Longrightarrow> local_name h q \<Longrightarrow> local_answer h q \<in> set (fst (dns_answers get h qs w))"
  by (induction qs arbitrary: w) (auto simp: answer_question_local split_def Let_def)

lemma answers_all_local: "list_all (local_name h) qs \<Longrightarrow> dns_answers get h qs w = (map (local_answer h) qs, w)"
  by (induction qs) (simp_all add: answer_question_local)

lemma answers_outage:
  "(\<And>u w. fst (get u w) \<in> {GetFailed, DecodeFailed}) \<Longrightarrow>
     fst (dns_answers get h qs w) = map (local_answer h) (filter (local_name h) qs)"
proof (induction qs arbitrary: w)
  case (Cons q qs)
  have "fst (answer_question get h q w) = (if local_name h q then [local_answer h q] else [])"
    using Cons.prems [of "resolve_url q" w]
    by (auto simp: answer_question_local answer_question_remote split: prod.splits)
  then show ?case using Cons.IH [OF Cons.prems] by (simp add: split_def Let_def)
qed simp

lemma SetReply_new:
  "Id (SetReply new_Msg r) = Id r" "Response (SetReply new_Msg r)" "Rcode (SetReply new_Msg r) = RcodeSuccess"
  "Opcode (SetReply new_Msg r) = Opcode r" "Questions (SetReply new_Msg r) = take 1 (Questions r)" "Answer (SetReply new_Msg r) = []"
  by (simp_all add: SetReply_def new_Msg_def Let_def split: list.split)


definition sample_bridge :: bridgeServices where
  "sample_bridge = \<lparr>bs_name = ''box'', debug = False, baseIP = [192, 168, 1, 1], next_ip = [192, 168, 1, 2],
     leases = Map.empty, bs_options = Map.empty\<rparr>"

definition sample_query :: "string \<Rightarrow> Msg" where
  "sample_query nm = new_Msg\<lparr>Id := 7, Questions := [\<lparr>q_Name = nm, q_Qtype = TypeA, q_Qclass = ClassINET\<rparr>]\<rparr>"


text \<open>
  C30 (dns_outage): when the upstream resolver cannot be reached, or answers with something that is
  not a response, the client is not told so: the reply still has the code of success, with the
  records of the local names and none for the others.
\<close>

theorem dns_outage:
  assumes "\<And>u w. fst (get u w) \<in> {GetFailed, DecodeFailed}"
  shows "Rcode (fst (ServeDNS get h r w)) = RcodeSuccess
     \<and> Answer (fst (ServeDNS get h r w)) = map (local_answer h) (filter (local_name h) (Questions r))"
  by (simp add: ServeDNS_def answer_all_answers SetReply_new answers_outage [OF assms])

theorem dns_outage_witness:
  "Rcode (fst (ServeDNS (\<lambda>_ w. (GetFailed, w)) sample_bridge (sample_query ''example.org.'') ())) = RcodeSuccess
   \<and> Answer (fst (ServeDNS (\<lambda>_ w. (GetFailed, w)) sample_bridge (sample_query ''example.org.'') ())) = []"
  using dns_outage [of "\<lambda>_ w. (GetFailed, w)" sample_bridge "sample_query ''example.org.''" "()"]
  by (simp add: sample_query_def sample_bridge_def local_name_def)

end
