(* ===== verification/Os.thy ===== *)
theory Os
  imports GoMonad GoStd GoNet
begin

text \<open>
  What the program asks of the operating system, netlink and the processes it starts. None of
  this code is in the repository: a kernel is a record of functions on an unknown world
  \<open>'w\<close>, and every definition that performs a call takes the kernel as an argument.
\<close>

subsection \<open>Errors\<close>

text \<open>
  Values of the type \<^verbatim>\<open>error\<close>: a plain message, the error type of the iptables package with the
  arguments, exit status and stderr of the command, and a number that does not parse.
\<close>

datatype error =
    ErrorString string
  | IptablesError "string list" int string
  | NumError string num_error

subsection \<open>The interfaces of the kernel\<close>

text \<open>
  \<^verbatim>\<open>net.Interface\<close>, the addresses of an interface (\<^verbatim>\<open>net.Addr\<close> is an interface type, and an
  address need not be an IPNet), a link of netlink (also an interface type, of which a bridge is
  one implementation), and the end of a command that was run to completion. The exit
  status is -1 when a signal ended the command.
\<close>

record iface =
  if_Index :: int
  if_Name :: string

datatype netaddr = IPNetAddr IPNet | OtherAddr

datatype nlink = BridgeLink string | OtherLink string

datatype cmd_end = Exited int | NotRun string

datatype flock_end = Locked | EWOULDBLOCK | FlockError error

record 'w os =
  os_ReadFile :: "string \<Rightarrow> 'w \<Rightarrow> (error + string) \<times> 'w"
  os_WriteFile :: "string \<Rightarrow> string \<Rightarrow> 'w \<Rightarrow> (error + unit) \<times> 'w"
  os_TempFile :: "'w \<Rightarrow> (error + string) \<times> 'w"
  os_FileWrite :: "string \<Rightarrow> string \<Rightarrow> 'w \<Rightarrow> (error + unit) \<times> 'w"
  os_FileClose :: "string \<Rightarrow> 'w \<Rightarrow> (error + unit) \<times> 'w"
  os_Remove :: "string \<Rightarrow> 'w \<Rightarrow> (error + unit) \<times> 'w"
  os_Open :: "string \<Rightarrow> 'w \<Rightarrow> (error + int) \<times> 'w"
  os_Flock :: "int \<Rightarrow> 'w \<Rightarrow> flock_end \<times> 'w"
  os_Close :: "int \<Rightarrow> 'w \<Rightarrow> (error + unit) \<times> 'w"
  os_LookPath :: "string \<Rightarrow> 'w \<Rightarrow> (error + string) \<times> 'w"
  os_Run :: "string \<Rightarrow> string list \<Rightarrow> 'w \<Rightarrow> (cmd_end \<times> string \<times> string) \<times> 'w"
  os_Start :: "string list \<Rightarrow> 'w \<Rightarrow> (error + int) \<times> 'w"
  os_FindProcess :: "int \<Rightarrow> 'w \<Rightarrow> (error + unit) \<times> 'w"
  os_Signal0 :: "int \<Rightarrow> 'w \<Rightarrow> (error + unit) \<times> 'w"
  os_Kill :: "int \<Rightarrow> 'w \<Rightarrow> (error + unit) \<times> 'w"
  os_Now :: "'w \<Rightarrow> nat \<times> 'w"
  os_Intn :: "nat \<Rightarrow> 'w \<Rightarrow> nat \<times> 'w"
  os_InterfaceByName :: "string \<Rightarrow> 'w \<Rightarrow> (error + iface) \<times> 'w"
  os_Addrs :: "iface \<Rightarrow> 'w \<Rightarrow> (error + netaddr list) \<times> 'w"
  os_RouteGet :: "IP \<Rightarrow> 'w \<Rightarrow> (error + int list) \<times> 'w"
  os_LinkAdd :: "string \<Rightarrow> 'w \<Rightarrow> (error + unit) \<times> 'w"
  os_LinkDel :: "string \<Rightarrow> 'w \<Rightarrow> (error + unit) \<times> 'w"
  os_LinkByName :: "string \<Rightarrow> 'w \<Rightarrow> (error + nlink) \<times> 'w"
  os_LinkSetUp :: "string \<Rightarrow> 'w \<Rightarrow> (error + unit) \<times> 'w"
  os_LinkSetMaster :: "string \<Rightarrow> string \<Rightarrow> 'w \<Rightarrow> (error + unit) \<times> 'w"
  os_AddrAdd :: "string \<Rightarrow> IPNet \<Rightarrow> 'w \<Rightarrow> (error + unit) \<times> 'w"
  os_RouteAdd :: "IPNet \<Rightarrow> IP \<Rightarrow> IP \<Rightarrow> int \<Rightarrow> 'w \<Rightarrow> (error + unit) \<times> 'w"
  os_DialUnix :: "string \<Rightarrow> string \<Rightarrow> 'w \<Rightarrow> (error + int) \<times> 'w"
  os_SockWrite :: "int \<Rightarrow> string \<Rightarrow> 'w \<Rightarrow> (error + unit) \<times> 'w"
  os_SockRead :: "int \<Rightarrow> nat \<Rightarrow> 'w \<Rightarrow> (error + string) \<times> 'w"
  os_SockClose :: "int \<Rightarrow> 'w \<Rightarrow> (error + unit) \<times> 'w"

subsection \<open>Packet filter rules\<close>

text \<open>
  The rules of a machine: for every table and chain the list of its rule specifications, None
  for a chain that does not exist.
\<close>

type_synonym rules = "string \<Rightarrow> string \<Rightarrow> string list list option"

definition put_chain :: "string \<Rightarrow> string \<Rightarrow> string list list \<Rightarrow> rules \<Rightarrow> rules" where
  "put_chain t c rs R = R(t := (R t)(c := Some rs))"

definition has_rule :: "rules \<Rightarrow> string \<Rightarrow> string \<Rightarrow> string list \<Rightarrow> bool" where
  "has_rule R t c r = (case R t c of None \<Rightarrow> False | Some rs \<Rightarrow> r \<in> set rs)"

end
