(* ===== verification/ConfigTypes.thy ===== *)
theory ConfigTypes
  imports Os
begin

text \<open>
  The configuration (\<^verbatim>\<open>src/config/config.go\<close>): the structures and their validation. Reading them
  from a file is in theory ConfigLoad.
\<close>

record VPNOpt =
  vpn_Name :: string
  vpn_Path :: string
  vpn_Icon :: string
  vpn_Username :: string
  vpn_Password :: string

record WirelessConf =
  wl_Interface :: string
  wl_SSID :: string
  wl_Password :: string
  wl_HostapdDriver :: string

record NetworkConf =
  nw_InterfaceIdent :: string
  nw_Subnet :: string
  nw_Wireless :: WirelessConf

record DebugConf =
  dbg_DHCP :: bool
  dbg_Hostapd :: bool

record FirewallConf =
  fw_VPNBoxBlockedPorts :: "int list"
  fw_BlockedSubnets :: "string list"

record Config =
  cf_Name :: string
  cf_Listener :: string
  cf_Network :: NetworkConf
  cf_Debug :: DebugConf
  cf_VPNConfigurations :: "VPNOpt list"
  cf_Firewall :: FirewallConf

abbreviation wireless :: "Config \<Rightarrow> WirelessConf" where
  "wireless c \<equiv> nw_Wireless (cf_Network c)"

abbreviation set_driver :: "string \<Rightarrow> Config \<Rightarrow> Config" where
  "set_driver d c \<equiv> c\<lparr>cf_Network := (cf_Network c)\<lparr>nw_Wireless := (wireless c)\<lparr>wl_HostapdDriver := d\<rparr>\<rparr>\<rparr>"

definition validate :: "Config \<Rightarrow> error + unit" where
  "validate c =
     (if cf_Listener c = [] then Inl (ErrorString ''listener must be specified'')
      else if nw_InterfaceIdent (cf_Network c) = [] then Inl (ErrorString ''network.interface_ident must be specified'')
      else if nw_Subnet (cf_Network c) = [] then Inl (ErrorString ''network.subnet must be specified'')
      else Inr ())"

lemma validate_Inr: "validate c = Inr () \<longleftrightarrow>
    cf_Listener c \<noteq> [] \<and> nw_InterfaceIdent (cf_Network c) \<noteq> [] \<and> nw_Subnet (cf_Network c) \<noteq> []"
  by (simp add: validate_def)

end
