(* ===== verification/SampleBox.thy ===== *)
theory SampleBox
  imports Os
begin

text \<open>
  A small concrete machine: a world with forwarding, packet filter rules, interfaces, processes
  and descriptors, and a kernel on it. The hypotheses about the kernel in the other theories
  hold on this machine, and the witnesses are evaluated on it. It models no code of the
  repository.
\<close>

record box =
  b_forward :: bool
  b_rules :: rules
  b_ifs :: "(string \<times> int \<times> netaddr list) list"
  b_route :: "int list"
  b_alive :: "int list"
  b_fds :: "int list"
  b_lock :: flock_end
  b_version :: string
  b_files :: "(string \<times> string) list"
  b_reply :: string
  b_clock :: nat

definition ip_forward_path :: string where
  "ip_forward_path = ''/proc/sys/net/ipv4/ip_forward''"

definition box_ReadFile :: "string \<Rightarrow> box \<Rightarrow> (error + string) \<times> box" where
  "box_ReadFile p b =
     (if p = ip_forward_path then (Inr ((if b_forward b then ''1'' else ''0'') @ [CHR 0x0A]), b)
      else case map_of (b_files b) p of Some d \<Rightarrow> (Inr d, b) | None \<Rightarrow> (Inl (ErrorString ''no such file''), b))"

definition box_WriteFile :: "string \<Rightarrow> string \<Rightarrow> box \<Rightarrow> (error + unit) \<times> box" where
  "box_WriteFile p d b =
     (if p = ip_forward_path then (Inr (), b\<lparr>b_forward := (d = ''1'')\<rparr>)
      else (Inr (), b\<lparr>b_files := (p, d) # b_files b\<rparr>))"

definition box_Open :: "string \<Rightarrow> box \<Rightarrow> (error + int) \<times> box" where
  "box_Open p b = (let fd = 1 + fold max (b_fds b) 2 in (Inr fd, b\<lparr>b_fds := fd # b_fds b\<rparr>))"

definition box_Close :: "int \<Rightarrow> box \<Rightarrow> (error + unit) \<times> box" where
  "box_Close fd b = (Inr (), b\<lparr>b_fds := removeAll fd (b_fds b)\<rparr>)"

definition box_rule_cmd :: "string \<Rightarrow> string \<Rightarrow> string \<Rightarrow> string list \<Rightarrow> box \<Rightarrow> (cmd_end \<times> string \<times> string) \<times> box" where
  "box_rule_cmd t flag c r b =
     (case b_rules b t c of
        None \<Rightarrow> ((Exited 1, [], ''iptables: No chain/target/match by that name.'' @ [CHR 0x0A]), b)
      | Some rs \<Rightarrow>
          if flag = ''-A'' then ((Exited 0, [], []), b\<lparr>b_rules := put_chain t c (rs @ [r]) (b_rules b)\<rparr>)
          else if r \<notin> set rs then ((Exited 1, [], ''iptables: Bad rule (does a matching rule exist in that chain?).'' @ [CHR 0x0A]), b)
          else if flag = ''-D'' then ((Exited 0, [], []), b\<lparr>b_rules := put_chain t c (remove1 r rs) (b_rules b)\<rparr>)
          else ((Exited 0, [], []), b))"

definition box_Run :: "string \<Rightarrow> string list \<Rightarrow> box \<Rightarrow> (cmd_end \<times> string \<times> string) \<times> box" where
  "box_Run path args b =
     (case args of
        [_, v] \<Rightarrow> ((Exited 0, b_version b, []), b)
      | _ # _ # t # flag # c # r \<Rightarrow> box_rule_cmd t flag c (butlast r) b
      | _ \<Rightarrow> ((Exited 2, [], []), b))"

text \<open>Starting openvpn creates its device, with an address and the default route.\<close>

definition box_Start :: "string list \<Rightarrow> box \<Rightarrow> (error + int) \<times> box" where
  "box_Start args b =
     (case args of
        prog # rest \<Rightarrow>
          if prog = ''openvpn'' then
            (Inr 100, b\<lparr>b_alive := 100 # b_alive b, b_route := [7],
               b_ifs := (rest ! 3, 7, [IPNetAddr \<lparr>net_IP = [10, 8, 0, 2], net_Mask = [255, 255, 255, 0]\<rparr>]) # b_ifs b\<rparr>)
          else (Inr 200, b\<lparr>b_alive := 200 # b_alive b\<rparr>)
      | [] \<Rightarrow> (Inl (ErrorString ''no command''), b))"

definition box_Signal0 :: "int \<Rightarrow> box \<Rightarrow> (error + unit) \<times> box" where
  "box_Signal0 pid b = (if pid \<in> set (b_alive b) then Inr () else Inl (ErrorString ''no such process''), b)"

definition box_Kill :: "int \<Rightarrow> box \<Rightarrow> (error + unit) \<times> box" where
  "box_Kill pid b = (Inr (), b\<lparr>b_alive := removeAll pid (b_alive b),
     b_ifs := (if pid = 100 then filter (\<lambda>(n, i, as). i \<noteq> 7) (b_ifs b) else b_ifs b),
     b_route := (if pid = 100 then [2] else b_route b)\<rparr>)"

definition box_InterfaceByName :: "string \<Rightarrow> box \<Rightarrow> (error + iface) \<times> box" where
  "box_InterfaceByName n b =
     (case map_of (b_ifs b) n of
        Some (i, as) \<Rightarrow> (Inr \<lparr>if_Index = i, if_Name = n\<rparr>, b)
      | None \<Rightarrow> (Inl (ErrorString ''no such network interface''), b))"

definition box_Addrs :: "iface \<Rightarrow> box \<Rightarrow> (error + netaddr list) \<times> box" where
  "box_Addrs i b =
     (case map_of (b_ifs b) (if_Name i) of
        Some (_, as) \<Rightarrow> (Inr as, b)
      | None \<Rightarrow> (Inl (ErrorString ''no such network interface''), b))"

definition box_LinkAdd :: "string \<Rightarrow> box \<Rightarrow> (error + unit) \<times> box" where
  "box_LinkAdd n b = (Inr (), b\<lparr>b_ifs := (n, 20 + int (length (b_ifs b)), []) # b_ifs b\<rparr>)"

definition box_LinkDel :: "string \<Rightarrow> box \<Rightarrow> (error + unit) \<times> box" where
  "box_LinkDel n b = (Inr (), b\<lparr>b_ifs := filter (\<lambda>(m, i, as). m \<noteq> n) (b_ifs b)\<rparr>)"

definition box_LinkByName :: "string \<Rightarrow> box \<Rightarrow> (error + nlink) \<times> box" where
  "box_LinkByName n b =
     (if map_of (b_ifs b) n = None then Inl (ErrorString ''Link not found'')
      else if HasPrefix n ''br'' then Inr (BridgeLink n) else Inr (OtherLink n), b)"

definition box_AddrAdd :: "string \<Rightarrow> IPNet \<Rightarrow> box \<Rightarrow> (error + unit) \<times> box" where
  "box_AddrAdd n a b =
     (Inr (), b\<lparr>b_ifs := map (\<lambda>(m, i, as). if m = n then (m, i, as @ [IPNetAddr a]) else (m, i, as)) (b_ifs b)\<rparr>)"

definition sample_os :: "box os" where
  "sample_os = \<lparr>
     os_ReadFile = box_ReadFile, os_WriteFile = box_WriteFile,
     os_TempFile = (\<lambda>b. (Inr ''/tmp/t'', b)), os_FileWrite = (\<lambda>f d b. (Inr (), b)),
     os_FileClose = (\<lambda>f b. (Inr (), b)), os_Remove = (\<lambda>f b. (Inr (), b)),
     os_Open = box_Open, os_Flock = (\<lambda>fd b. (b_lock b, b)), os_Close = box_Close,
     os_LookPath = (\<lambda>p b. (Inr (''/sbin/'' @ p), b)), os_Run = box_Run, os_Start = box_Start,
     os_FindProcess = (\<lambda>p b. (Inr (), b)), os_Signal0 = box_Signal0, os_Kill = box_Kill,
     os_Now = (\<lambda>b. (b_clock b, b\<lparr>b_clock := Suc (b_clock b)\<rparr>)), os_Intn = (\<lambda>n b. (0, b)),
     os_InterfaceByName = box_InterfaceByName, os_Addrs = box_Addrs, os_RouteGet = (\<lambda>ip b. (Inr (b_route b), b)),
     os_LinkAdd = box_LinkAdd, os_LinkDel = box_LinkDel, os_LinkByName = box_LinkByName,
     os_LinkSetUp = (\<lambda>n b. (Inr (), b)), os_LinkSetMaster = (\<lambda>n m b. (Inr (), b)),
     os_AddrAdd = box_AddrAdd, os_RouteAdd = (\<lambda>d s g pr b. (Inr (), b)),
     os_DialUnix = (\<lambda>l r b. (Inr 9, b)), os_SockWrite = (\<lambda>s d b. (Inr (), b)),
     os_SockRead = (\<lambda>s n b. (Inr (take n (b_reply b)), b)), os_SockClose = (\<lambda>s b. (Inr (), b))\<rparr>"

definition sample_box :: box where
  "sample_box = \<lparr>
     b_forward = True,
     b_rules = (\<lambda>t c. if (t, c) = (''filter'', ''INPUT'') \<or> (t, c) = (''filter'', ''FORWARD'') \<or> (t, c) = (''nat'', ''POSTROUTING'')
                      then Some [] else None),
     b_ifs = [(''wlan0'', 3, [])], b_route = [2], b_alive = [], b_fds = [], b_lock = EWOULDBLOCK,
     b_version = ''iptables v1.6.1'', b_files = [], b_reply = [], b_clock = 0\<rparr>"

end
