(* ===== verification/Hostapd.thy ===== *)
theory Hostapd
  imports ConfigTypes SampleBox
begin

text \<open>
  The control of hostapd (\<^verbatim>\<open>src/netctrl/hostapd\<close>): the configuration file it is started with
  (\<^verbatim>\<open>config.go\<close>) and the queries on its control socket (\<^verbatim>\<open>socket.go\<close>).
\<close>

subsection \<open>The configuration file\<close>

text \<open>
  The template is one of html/template: a value inserted in text is escaped for HTML. The
  replacement is by byte, since a byte of a longer UTF-8 sequence is never one of the seven.
\<close>

definition html_escape_char :: "char \<Rightarrow> string" where
  "html_escape_char c =
     (if c = CHR 0x00 then [CHR 0xEF, CHR 0xBF, CHR 0xBD]
      else if c = CHR 0x22 then ''&#34;''
      else if c = CHR ''&'' then ''&amp;''
      else if c = CHR 0x27 then ''&#39;''
      else if c = CHR ''+'' then ''&#43;''
      else if c = CHR ''<'' then ''&lt;''
      else if c = CHR ''>'' then ''&gt;''
      else [c])"

definition html_escape :: "string \<Rightarrow> string" where
  "html_escape s = concat (map html_escape_char s)"

definition conf_line :: "string \<Rightarrow> string" where
  "conf_line s = s @ [CHR 0x0A]"

definition baseConfigTmpl :: "string \<Rightarrow> string \<Rightarrow> string \<Rightarrow> string \<Rightarrow> string \<Rightarrow> string" where
  "baseConfigTmpl WlanInterface HostapdDriver SSID Passphrase BridgeName =
     conf_line [] @
     conf_line (''interface='' @ html_escape WlanInterface) @
     conf_line (''driver='' @ html_escape HostapdDriver) @
     conf_line [] @
     conf_line (''ssid='' @ html_escape SSID) @
     conf_line ''hw_mode=g'' @
     conf_line ''channel=7'' @
     conf_line ''wmm_enabled=0'' @
     conf_line ''macaddr_acl=0'' @
     conf_line ''auth_algs=1'' @
     conf_line ''ignore_broadcast_ssid=0'' @
     conf_line ''wpa=2'' @
     conf_line (''wpa_passphrase='' @ html_escape Passphrase) @
     conf_line ''wpa_key_mgmt=WPA-PSK'' @
     conf_line ''wpa_pairwise=TKIP'' @
     conf_line ''rsn_pairwise=CCMP'' @
     conf_line [] @
     conf_line (''bridge='' @ html_escape BridgeName) @
     ''ctrl_interface=/var/run/hostapd''"

definition GenerateConfig :: "Config \<Rightarrow> string" where
  "GenerateConfig c =
     baseConfigTmpl (wl_Interface (wireless c)) (wl_HostapdDriver (wireless c)) (wl_SSID (wireless c))
       (wl_Password (wireless c)) (''br'' @ nw_InterfaceIdent (cf_Network c))"

subsection \<open>The control socket\<close>

definition maxResponseSize :: nat where
  "maxResponseSize = 4096"

record APStatus =
  ap_State :: string
  ap_Frequency :: int
  ap_Channel :: int
  ap_Stations :: int

definition atoiAlways :: "string \<Rightarrow> int" where
  "atoiAlways num = fst (Atoi num)"

definition letterRunes :: string where
  "letterRunes = ''abcdefghijklmnopqrstuvwxyzABCDEFGHIJKLMNOPQRSTUVWXYZ''"

fun rand_letters :: "'w os \<Rightarrow> nat \<Rightarrow> ('w, error, string) go" where
  "rand_letters K 0 = ok []"
| "rand_letters K (Suc n) =
     must (syscall_total (os_Intn K (length letterRunes))) (\<lambda>i.
     must (or_panic IndexOutOfRange (index letterRunes i)) (\<lambda>c.
     must (rand_letters K n) (\<lambda>cs. ok (c # cs))))"

definition randStringFname :: "'w os \<Rightarrow> ('w, error, string) go" where
  "randStringFname K = must (rand_letters K 12) (\<lambda>b. ok (''/tmp/rnd-s-'' @ b))"

text \<open>
  Query returns the error of the dial when the write fails, and that error is nil: the result is
  then an empty reply.
\<close>

definition Query :: "'w os \<Rightarrow> string \<Rightarrow> string \<Rightarrow> ('w, error, string) go" where
  "Query K sock command =
     must (randStringFname K) (\<lambda>lf.
     with_defer (syscall (os_Remove K lf))
       (must (syscall (os_DialUnix K lf sock)) (\<lambda>c.
        with_defer (syscall (os_SockClose K c))
          (catch (syscall (os_SockWrite K c command))
             (\<lambda>_. syscall (os_SockRead K c maxResponseSize))
             (\<lambda>err2. ok [])))))"

text \<open>The lines of a reply: a line whose first equals sign is at position 0, or missing, is skipped.\<close>

fun status_set :: "string list \<Rightarrow> (string \<rightharpoonup> string) \<Rightarrow> (string \<rightharpoonup> string)" where
  "status_set [] m = m"
| "status_set (line # lines) m =
     (case IndexByte line (CHR ''='') of
        None \<Rightarrow> status_set lines m
      | Some i \<Rightarrow> if i < 1 then status_set lines m
                  else status_set lines (m(take i line \<mapsto> drop (Suc i) line)))"

text \<open>Looking up a missing key of a map of strings gives the empty string.\<close>

definition map_get :: "(string \<rightharpoonup> string) \<Rightarrow> string \<Rightarrow> string" where
  "map_get m k = (case m k of Some v \<Rightarrow> v | None \<Rightarrow> [])"

definition parse_status :: "string \<Rightarrow> APStatus" where
  "parse_status raw =
     (let s = status_set (SplitByte (CHR 0x0A) raw) Map.empty in
      \<lparr>ap_State = map_get s ''state'', ap_Frequency = atoiAlways (map_get s ''freq''),
       ap_Channel = atoiAlways (map_get s ''channel''), ap_Stations = atoiAlways (map_get s ''num_sta[0]'')\<rparr>)"

definition QueryStatus :: "'w os \<Rightarrow> string \<Rightarrow> ('w, error, APStatus) go" where
  "QueryStatus K sock = must (Query K sock ''STATUS'') (\<lambda>raw. ok (parse_status raw))"

subsection \<open>What hostapd reads\<close>

definition html_special :: "char set" where
  "html_special = {CHR 0x00, CHR 0x22, CHR ''&'', CHR 0x27, CHR ''+'', CHR ''<'', CHR ''>''}"

lemma length_html_escape_char: "1 \<le> length (html_escape_char c)"
  "c \<in> html_special \<Longrightarrow> 1 < length (html_escape_char c)"
  by (auto simp: html_escape_char_def html_special_def)

lemma html_escape_char_id: "c \<notin> html_special \<Longrightarrow> html_escape_char c = [c]"
  by (simp add: html_escape_char_def html_special_def)

lemma length_html_escape: "length s \<le> length (html_escape s)"
  using length_html_escape_char(1) by (induction s) (auto simp: html_escape_def Suc_le_eq intro: add_mono_thms_linordered_semiring(1) [of "Suc 0", simplified])

lemma html_escape_id_iff: "html_escape s = s \<longleftrightarrow> set s \<inter> html_special = {}"
proof
  assume "html_escape s = s"
  then show "set s \<inter> html_special = {}"
  proof (induction s)
    case (Cons c s)
    have e: "html_escape (c # s) = html_escape_char c @ html_escape s" by (simp add: html_escape_def)
    have "c \<notin> html_special"
    proof
      assume "c \<in> html_special"
      then have "length (c # s) < length (html_escape (c # s))"
        using length_html_escape_char(2) [of c] length_html_escape [of s] e by simp
      with Cons.prems show False by simp
    qed
    moreover from this Cons.prems e have "html_escape s = s" by (simp add: html_escape_char_id)
    ultimately show ?case using Cons.IH by simp
  qed simp
next
  assume "set s \<inter> html_special = {}"
  then show "html_escape s = s"
    by (induction s) (auto simp: html_escape_def html_escape_char_id)
qed

lemma newline_html_escape: "CHR 0x0A \<notin> set s \<Longrightarrow> CHR 0x0A \<notin> set (html_escape s)"
  by (induction s) (auto simp: html_escape_def html_escape_char_def)

text \<open>The settings of a file of lines \<^verbatim>\<open>key=value\<close>.\<close>

definition read_conf :: "string \<Rightarrow> (string \<rightharpoonup> string)" where
  "read_conf s = status_set (SplitByte (CHR 0x0A) s) Map.empty"

lemma SplitByte_conf_line:
  "CHR 0x0A \<notin> set s \<Longrightarrow> SplitByte (CHR 0x0A) (conf_line s @ r) = s # SplitByte (CHR 0x0A) r"
  by (simp add: conf_line_def SplitByte_append_sep SplitByte_no_sep)

lemma status_set_setting:
  assumes "CHR ''='' \<notin> set k" and "k \<noteq> []"
  shows "status_set ((k @ CHR ''='' # v) # ls) m = status_set ls (m(k \<mapsto> v))"
  using assms by (simp add: IndexByte_append Suc_le_eq)

text \<open>
  C19 (hostapd_config_readback): the file hostapd is started with sets the interface, driver,
  network name, passphrase and bridge to the configured values, escaped for HTML. The
  passphrase and the name are the configured ones exactly when they have none of the characters
  that are special in HTML.
\<close>

theorem hostapd_config_readback:
  assumes "CHR 0x0A \<notin> set (wl_Interface (wireless c))" and "CHR 0x0A \<notin> set (wl_HostapdDriver (wireless c))"
    and "CHR 0x0A \<notin> set (wl_SSID (wireless c))" and "CHR 0x0A \<notin> set (wl_Password (wireless c))"
    and "CHR 0x0A \<notin> set (nw_InterfaceIdent (cf_Network c))"
  shows "read_conf (GenerateConfig c) ''interface'' = Some (html_escape (wl_Interface (wireless c)))
    \<and> read_conf (GenerateConfig c) ''driver'' = Some (html_escape (wl_HostapdDriver (wireless c)))
    \<and> read_conf (GenerateConfig c) ''bridge'' = Some (''br'' @ html_escape (nw_InterfaceIdent (cf_Network c)))
    \<and> (read_conf (GenerateConfig c) ''ssid'' = Some (wl_SSID (wireless c)) \<longleftrightarrow> set (wl_SSID (wireless c)) \<inter> html_special = {})
    \<and> (read_conf (GenerateConfig c) ''wpa_passphrase'' = Some (wl_Password (wireless c)) \<longleftrightarrow> set (wl_Password (wireless c)) \<inter> html_special = {})"
proof -
  have br: "html_escape (''br'' @ s) = ''br'' @ html_escape s" for s
    by (simp add: html_escape_def html_escape_char_def)
  note setting = status_set_setting [of "''interface''"] status_set_setting [of "''driver''"] status_set_setting [of "''ssid''"]
    status_set_setting [of "''wpa_passphrase''"] status_set_setting [of "''bridge''"]
  have "read_conf (GenerateConfig c) =
     [''interface'' \<mapsto> html_escape (wl_Interface (wireless c)), ''driver'' \<mapsto> html_escape (wl_HostapdDriver (wireless c)),
      ''ssid'' \<mapsto> html_escape (wl_SSID (wireless c)), ''hw_mode'' \<mapsto> ''g'', ''channel'' \<mapsto> ''7'', ''wmm_enabled'' \<mapsto> ''0'',
      ''macaddr_acl'' \<mapsto> ''0'', ''auth_algs'' \<mapsto> ''1'', ''ignore_broadcast_ssid'' \<mapsto> ''0'', ''wpa'' \<mapsto> ''2'',
      ''wpa_passphrase'' \<mapsto> html_escape (wl_Password (wireless c)), ''wpa_key_mgmt'' \<mapsto> ''WPA-PSK'', ''wpa_pairwise'' \<mapsto> ''TKIP'',
      ''rsn_pairwise'' \<mapsto> ''CCMP'', ''bridge'' \<mapsto> ''br'' @ html_escape (nw_InterfaceIdent (cf_Network c)),
      ''ctrl_interface'' \<mapsto> ''/var/run/hostapd'']"
    unfolding read_conf_def GenerateConfig_def baseConfigTmpl_def
    using assms [THEN newline_html_escape]
    by (simp add: SplitByte_conf_line SplitByte_no_sep br [simplified] setting [simplified] numeral_eq_Suc)
  then show ?thesis by (simp add: html_escape_id_iff)
qed


definition sample_config :: Config where
  "sample_config = \<lparr>cf_Name = ''box'', cf_Listener = '':80'',
     cf_Network = \<lparr>nw_InterfaceIdent = ''vpn'', nw_Subnet = ''192.168.101.1/24'',
       nw_Wireless = \<lparr>wl_Interface = ''wlan0'', wl_SSID = ''net'', wl_Password = ''a&b'', wl_HostapdDriver = ''nl80211''\<rparr>\<rparr>,
     cf_Debug = \<lparr>dbg_DHCP = False, dbg_Hostapd = False\<rparr>,
     cf_VPNConfigurations = [\<lparr>vpn_Name = ''us'', vpn_Path = ''us.ovpn'', vpn_Icon = ''flag'', vpn_Username = ''u'', vpn_Password = ''p''\<rparr>],
     cf_Firewall = \<lparr>fw_VPNBoxBlockedPorts = [22], fw_BlockedSubnets = [''10.0.0.0/8'']\<rparr>\<rparr>"

theorem hostapd_config_readback_witness:
  "read_conf (GenerateConfig sample_config) ''ssid'' = Some ''net''
   \<and> read_conf (GenerateConfig sample_config) ''wpa_passphrase'' \<noteq> Some ''a&b''"
  using hostapd_config_readback [of sample_config]
  by (simp add: sample_config_def html_special_def)

subsection \<open>Status replies\<close>

definition setting_line :: "string \<times> string \<Rightarrow> string" where
  "setting_line kv = fst kv @ CHR ''='' # snd kv"

definition setting_ok :: "string \<times> string \<Rightarrow> bool" where
  "setting_ok kv \<longleftrightarrow> fst kv \<noteq> [] \<and> CHR ''='' \<notin> set (fst kv) \<and> CHR 0x0A \<notin> set (fst kv) \<and> CHR 0x0A \<notin> set (snd kv)"

lemma status_set_settings:
  "\<forall>kv \<in> set kvs. setting_ok kv \<Longrightarrow> status_set (map setting_line kvs @ [[]]) m = m ++ map_of (rev kvs)"
proof (induction kvs arbitrary: m)
  case (Cons kv kvs)
  from Cons.prems have "CHR ''='' \<notin> set (fst kv)" "fst kv \<noteq> []" by (simp_all add: setting_ok_def)
  from status_set_setting [OF this, of "snd kv"]
  have "status_set (setting_line kv # map setting_line kvs @ [[]]) m = status_set (map setting_line kvs @ [[]]) (m(fst kv \<mapsto> snd kv))"
    by (simp only: setting_line_def)
  with Cons have "status_set (map setting_line (kv # kvs) @ [[]]) m = m(fst kv \<mapsto> snd kv) ++ map_of (rev kvs)"
    by (simp del: status_set.simps)
  then show ?case by (cases kv) (simp add: map_add_assoc map_add_upd_left fun_eq_iff map_add_def split: option.splits)
qed simp

lemma SplitByte_settings:
  "\<forall>kv \<in> set kvs. setting_ok kv \<Longrightarrow>
    SplitByte (CHR 0x0A) (concat (map (conf_line \<circ> setting_line) kvs)) = map setting_line kvs @ [[]]"
  by (induction kvs) (auto simp: SplitByte_conf_line setting_line_def setting_ok_def)

text \<open>
  C20 (status_roundtrip): a status reply of lines \<^verbatim>\<open>key=value\<close> is read back: the state is the last
  value given for it, and the numbers are those printed for frequency, channel and stations,
  for every 64-bit value; lines with other keys make no difference.
\<close>

theorem status_roundtrip:
  assumes "\<forall>kv \<in> set kvs. setting_ok kv"
    and "map_of (rev kvs) ''state'' = Some st" and "map_of (rev kvs) ''freq'' = Some (Itoa f)"
    and "map_of (rev kvs) ''channel'' = Some (Itoa ch)" and "map_of (rev kvs) ''num_sta[0]'' = Some (Itoa n)"
    and "\<forall>i \<in> {f, ch, n}. - (2 ^ 63) \<le> i \<and> i < 2 ^ 63"
  shows "parse_status (concat (map (conf_line \<circ> setting_line) kvs)) =
     \<lparr>ap_State = st, ap_Frequency = f, ap_Channel = ch, ap_Stations = n\<rparr>"
  using assms(2-6) Atoi_Itoa
  by (simp add: parse_status_def SplitByte_settings [OF assms(1)] status_set_settings [OF assms(1)] map_get_def atoiAlways_def)

theorem status_roundtrip_witness:
  "parse_status (concat (map (conf_line \<circ> setting_line)
      [(''state'', ''ENABLED''), (''freq'', Itoa 2442), (''channel'', Itoa 7), (''num_sta[0]'', Itoa 3)])) =
   \<lparr>ap_State = ''ENABLED'', ap_Frequency = 2442, ap_Channel = 7, ap_Stations = 3\<rparr>"
proof (rule status_roundtrip)
  have "CHR 0x0A \<notin> set (Itoa i)" for i
  proof -
    have "\<not> is_digit (CHR 0x0A)" by (simp add: is_digit_def)
    then have "CHR 0x0A \<notin> set (dec_of_nat m)" for m using dec_of_nat_digits [of m] by blast
    then show ?thesis by (simp add: Itoa_def)
  qed
  then show "\<forall>kv \<in> set [(''state'', ''ENABLED''), (''freq'', Itoa 2442), (''channel'', Itoa 7), (''num_sta[0]'', Itoa 3)]. setting_ok kv"
    by (simp add: setting_ok_def)
qed simp_all

text \<open>
  C21 (status_after_failed_write): when the command cannot be written to the socket, the caller is
  not told: QueryStatus returns no error and a status with an empty state and zero counts.
\<close>

theorem status_after_failed_write:
  assumes "run_state (randStringFname K) w = (Ok lf, w1)" and "os_DialUnix K lf sock w1 = (Inr c, w2)"
    and "os_SockWrite K c ''STATUS'' w2 = (Inl err, w3)"
  shows "fst (run_state (QueryStatus K sock) w) = Ok \<lparr>ap_State = [], ap_Frequency = 0, ap_Channel = 0, ap_Stations = 0\<rparr>"
proof -
  have "parse_status [] = \<lparr>ap_State = [], ap_Frequency = 0, ap_Channel = 0, ap_Stations = 0\<rparr>"
    by (simp add: parse_status_def map_get_def atoiAlways_def Atoi_def)
  with assms show ?thesis by (simp add: QueryStatus_def Query_def run_simps split: prod.splits sum.splits)
qed

theorem status_after_failed_write_witness:
  "fst (run_state (QueryStatus (sample_os\<lparr>os_SockWrite := \<lambda>s d b. (Inl (ErrorString ''broken''), b)\<rparr>) ''/run/x'') sample_box) =
     Ok \<lparr>ap_State = [], ap_Frequency = 0, ap_Channel = 0, ap_Stations = 0\<rparr>"
proof -
  let ?K = "sample_os\<lparr>os_SockWrite := \<lambda>s d b. (Inl (ErrorString ''broken''), b)\<rparr>"
  have "run_state (rand_letters ?K n) b = (Ok (replicate n (CHR ''a'')), b)" for n b
    by (induction n) (simp_all add: run_simps sample_os_def index_def letterRunes_def)
  then have "run_state (randStringFname ?K) sample_box = (Ok (''/tmp/rnd-s-'' @ replicate 12 (CHR ''a'')), sample_box)"
    by (simp add: randStringFname_def run_simps)
  then show ?thesis
    by (rule status_after_failed_write [where c = 9 and ?w2.0 = sample_box and ?w3.0 = sample_box]) (simp_all add: sample_os_def)
qed

end
