(* ===== verification/Iptables.thy ===== *)
theory Iptables
  imports SampleBox
begin

text \<open>
  The package go-iptables (\<^verbatim>\<open>iptables.go\<close>, \<^verbatim>\<open>lock.go\<close>): the commands it runs, the version check
  that selects the flags, the xtables lock for versions without \<^verbatim>\<open>--wait\<close>, and the parsing of
  the listings. The iptables binary is the operation \<open>os_Run\<close> of the kernel. Under the
  documented behaviour of the binary (\<open>netfilter\<close>), AppendUnique adds a rule exactly when it
  is absent.
\<close>

subsection \<open>Types\<close>

datatype Protocol = ProtocolIPv4 | ProtocolIPv6

record IPTables =
  ipt_path :: string
  ipt_proto :: Protocol
  hasCheck :: bool
  hasWait :: bool

fun ExitStatus :: "error \<Rightarrow> int option" where
  "ExitStatus (IptablesError args st msg) = Some st"
| "ExitStatus e = None"

fun IsNotExist :: "error \<Rightarrow> bool" where
  "IsNotExist (IptablesError args st msg) =
     (st = 1 \<and>
       (msg = ''iptables: Bad rule (does a matching rule exist in that chain?).'' @ [CHR 0x0A] \<or>
        msg = ''iptables: No chain/target/match by that name.'' @ [CHR 0x0A]))"
| "IsNotExist e = False"

subsection \<open>The lock file\<close>

record fileLock =
  mu :: bool
  lock_fd :: int

datatype Unlocker = nopUnlocker | LockedFile fileLock

definition xtablesLockFilePath :: string where
  "xtablesLockFilePath = ''/var/run/xtables.lock''"

definition newXtablesFileLock :: "'w os \<Rightarrow> ('w, error, fileLock) go" where
  "newXtablesFileLock K =
     must (syscall (os_Open K xtablesLockFilePath)) (\<lambda>fd. ok \<lparr>mu = False, lock_fd = fd\<rparr>)"

definition tryLock :: "'w os \<Rightarrow> fileLock \<Rightarrow> ('w, error, Unlocker) go" where
  "tryLock K l =
     (if mu l then halt Blocked
      else do {
        r \<leftarrow> State (os_Flock K (lock_fd l));
        (case r of
           EWOULDBLOCK \<Rightarrow> ok nopUnlocker
         | Locked \<Rightarrow> ok (LockedFile (l\<lparr>mu := True\<rparr>))
         | FlockError e \<Rightarrow> throw e)
      })"

fun Unlock :: "'w os \<Rightarrow> Unlocker \<Rightarrow> ('w, error, unit) go" where
  "Unlock K nopUnlocker = ok ()"
| "Unlock K (LockedFile l) = syscall (os_Close K (lock_fd l))"

subsection \<open>Running the command\<close>

definition cmd_Run :: "'w os \<Rightarrow> string \<Rightarrow> string list \<Rightarrow> ('w, error, string) go" where
  "cmd_Run K path args = do {
     r \<leftarrow> State (os_Run K path args);
     (case r of
        (Exited st, out, msg) \<Rightarrow> if st = 0 then ok out else throw (IptablesError args st msg)
      | (NotRun e, out, msg) \<Rightarrow> throw (ErrorString e))
   }"

definition runWithOutput :: "'w os \<Rightarrow> IPTables \<Rightarrow> string list \<Rightarrow> ('w, error, string) go" where
  "runWithOutput K ipt args0 =
     (let args = ipt_path ipt # args0 in
      if hasWait ipt then cmd_Run K (ipt_path ipt) (args @ [''--wait''])
      else must (newXtablesFileLock K) (\<lambda>fmu.
           must (tryLock K fmu) (\<lambda>ul.
           with_defer (Unlock K ul) (cmd_Run K (ipt_path ipt) args))))"

definition ipt_run :: "'w os \<Rightarrow> IPTables \<Rightarrow> string list \<Rightarrow> ('w, error, unit) go" where
  "ipt_run K ipt args = must (runWithOutput K ipt args) (\<lambda>_. ok ())"

definition executeList :: "'w os \<Rightarrow> IPTables \<Rightarrow> string list \<Rightarrow> ('w, error, string list) go" where
  "executeList K ipt args =
     must (runWithOutput K ipt args) (\<lambda>stdout.
       let rules = SplitByte (CHR 0x0A) stdout in
       ok (if rules \<noteq> [] \<and> last rules = [] then butlast rules else rules))"

subsection \<open>Versions\<close>

definition getIptablesCommand :: "Protocol \<Rightarrow> string" where
  "getIptablesCommand p = (if p = ProtocolIPv6 then ''ip6tables'' else ''iptables'')"

definition getIptablesVersionString :: "'w os \<Rightarrow> string \<Rightarrow> ('w, error, string) go" where
  "getIptablesVersionString K path = do {
     r \<leftarrow> State (os_Run K path [path, ''--version'']);
     (case r of
        (Exited st, out, msg) \<Rightarrow> if st = 0 then ok out else throw (ErrorString (''exit status '' @ Itoa st))
      | (NotRun e, out, msg) \<Rightarrow> throw (ErrorString e))
   }"

text \<open>
  The regular expression \<^verbatim>\<open>v([0-9]+)\.([0-9]+)\.([0-9]+)\<close> at the head of a string, and its
  leftmost match. The repetitions are greedy, and no backtracking is possible since a dot is no
  digit.
\<close>

definition digits_then :: "char \<Rightarrow> string \<Rightarrow> (string \<times> string) option" where
  "digits_then sep s =
     (let d = takeWhile is_digit s; r = dropWhile is_digit s in
      if d \<noteq> [] \<and> r \<noteq> [] \<and> hd r = sep then Some (d, tl r) else None)"

definition version_at :: "string \<Rightarrow> (string \<times> string \<times> string) option" where
  "version_at s =
     (if s = [] \<or> hd s \<noteq> CHR ''v'' then None
      else do {
        (a, s1) \<leftarrow> digits_then (CHR ''.'') (tl s);
        (b, s2) \<leftarrow> digits_then (CHR ''.'') s1;
        let c = takeWhile is_digit s2;
        (if c = [] then None else Some (a, b, c))
      })"

fun FindVersion :: "string \<Rightarrow> (string \<times> string \<times> string) option" where
  "FindVersion [] = None"
| "FindVersion (c # cs) = (case version_at (c # cs) of Some v \<Rightarrow> Some v | None \<Rightarrow> FindVersion cs)"

definition Atoi_sum :: "string \<Rightarrow> error + int" where
  "Atoi_sum s = (case Atoi s of (v, None) \<Rightarrow> Inr v | (v, Some e) \<Rightarrow> Inl (NumError s e))"

definition extractIptablesVersion :: "string \<Rightarrow> error + (int \<times> int \<times> int)" where
  "extractIptablesVersion str =
     (case FindVersion str of
        None \<Rightarrow> Inl (ErrorString (''no iptables version found in string: '' @ str))
      | Some (r1, r2, r3) \<Rightarrow>
          (case Atoi_sum r1 of Inl e \<Rightarrow> Inl e
           | Inr v1 \<Rightarrow> (case Atoi_sum r2 of Inl e \<Rightarrow> Inl e
             | Inr v2 \<Rightarrow> (case Atoi_sum r3 of Inl e \<Rightarrow> Inl e
               | Inr v3 \<Rightarrow> Inr (v1, v2, v3)))))"

definition iptablesHasCheckCommand :: "int \<Rightarrow> int \<Rightarrow> int \<Rightarrow> bool" where
  "iptablesHasCheckCommand v1 v2 v3 =
     (if v1 > 1 then True
      else if v1 = 1 \<and> v2 > 4 then True
      else if v1 = 1 \<and> v2 = 4 \<and> v3 \<ge> 11 then True
      else False)"

definition iptablesHasWaitCommand :: "int \<Rightarrow> int \<Rightarrow> int \<Rightarrow> bool" where
  "iptablesHasWaitCommand v1 v2 v3 =
     (if v1 > 1 then True
      else if v1 = 1 \<and> v2 > 4 then True
      else if v1 = 1 \<and> v2 = 4 \<and> v3 \<ge> 20 then True
      else False)"

definition getIptablesCommandSupport :: "'w os \<Rightarrow> string \<Rightarrow> ('w, error, bool \<times> bool) go" where
  "getIptablesCommandSupport K path =
     must (getIptablesVersionString K path) (\<lambda>vstring.
     must (of_sum (extractIptablesVersion vstring)) (\<lambda>(v1, v2, v3).
       ok (iptablesHasCheckCommand v1 v2 v3, iptablesHasWaitCommand v1 v2 v3)))"

fun error_text :: "error \<Rightarrow> string" where
  "error_text (ErrorString s) = s"
| "error_text (IptablesError args st msg) =
     ''running ['' @ Join args '' '' @ '']: exit status '' @ Itoa st @ '': '' @ msg"
| "error_text (NumError s ErrSyntax) = ''strconv.Atoi: parsing '' @ [CHR 0x22] @ s @ [CHR 0x22] @ '': invalid syntax''"
| "error_text (NumError s ErrRange) = ''strconv.Atoi: parsing '' @ [CHR 0x22] @ s @ [CHR 0x22] @ '': value out of range''"

definition NewWithProtocol :: "'w os \<Rightarrow> Protocol \<Rightarrow> ('w, error, IPTables) go" where
  "NewWithProtocol K proto =
     must (syscall (os_LookPath K (getIptablesCommand proto))) (\<lambda>path.
     catch (getIptablesCommandSupport K path)
       (\<lambda>(checkPresent, waitPresent).
          ok \<lparr>ipt_path = path, ipt_proto = proto, hasCheck = checkPresent, hasWait = waitPresent\<rparr>)
       (\<lambda>err. throw (ErrorString (''error checking iptables version: '' @ error_text err))))"

definition iptables_New :: "'w os \<Rightarrow> ('w, error, IPTables) go" where
  "iptables_New K = NewWithProtocol K ProtocolIPv4"

subsection \<open>Rules and chains\<close>

definition existsForOldIptables :: "'w os \<Rightarrow> IPTables \<Rightarrow> string \<Rightarrow> string \<Rightarrow> string list \<Rightarrow> ('w, error, bool) go" where
  "existsForOldIptables K ipt table chain rulespec =
     (let rs = Join ([''-A'', chain] @ rulespec) '' '' in
      must (runWithOutput K ipt [''-t'', table, ''-S'']) (\<lambda>stdout. ok (Contains stdout rs)))"

definition Exists :: "'w os \<Rightarrow> IPTables \<Rightarrow> string \<Rightarrow> string \<Rightarrow> string list \<Rightarrow> ('w, error, bool) go" where
  "Exists K ipt table chain rulespec =
     (if \<not> hasCheck ipt then existsForOldIptables K ipt table chain rulespec
      else catch (ipt_run K ipt ([''-t'', table, ''-C'', chain] @ rulespec))
             (\<lambda>_. ok True)
             (\<lambda>err. if ExitStatus err = Some 1 then ok False else throw err))"

definition ipt_Insert :: "'w os \<Rightarrow> IPTables \<Rightarrow> string \<Rightarrow> string \<Rightarrow> int \<Rightarrow> string list \<Rightarrow> ('w, error, unit) go" where
  "ipt_Insert K ipt table chain pos rulespec =
     ipt_run K ipt ([''-t'', table, ''-I'', chain, Itoa pos] @ rulespec)"

definition ipt_Append :: "'w os \<Rightarrow> IPTables \<Rightarrow> string \<Rightarrow> string \<Rightarrow> string list \<Rightarrow> ('w, error, unit) go" where
  "ipt_Append K ipt table chain rulespec = ipt_run K ipt ([''-t'', table, ''-A'', chain] @ rulespec)"

definition AppendUnique :: "'w os \<Rightarrow> IPTables \<Rightarrow> string \<Rightarrow> string \<Rightarrow> string list \<Rightarrow> ('w, error, unit) go" where
  "AppendUnique K ipt table chain rulespec =
     must (Exists K ipt table chain rulespec) (\<lambda>exists.
       if \<not> exists then ipt_Append K ipt table chain rulespec else ok ())"

definition ipt_Delete :: "'w os \<Rightarrow> IPTables \<Rightarrow> string \<Rightarrow> string \<Rightarrow> string list \<Rightarrow> ('w, error, unit) go" where
  "ipt_Delete K ipt table chain rulespec = ipt_run K ipt ([''-t'', table, ''-D'', chain] @ rulespec)"

definition ipt_List :: "'w os \<Rightarrow> IPTables \<Rightarrow> string \<Rightarrow> string \<Rightarrow> ('w, error, string list) go" where
  "ipt_List K ipt table chain = executeList K ipt [''-t'', table, ''-S'', chain]"

definition ListWithCounters :: "'w os \<Rightarrow> IPTables \<Rightarrow> string \<Rightarrow> string \<Rightarrow> ('w, error, string list) go" where
  "ListWithCounters K ipt table chain = executeList K ipt [''-t'', table, ''-v'', ''-S'', chain]"

definition NewChain :: "'w os \<Rightarrow> IPTables \<Rightarrow> string \<Rightarrow> string \<Rightarrow> ('w, error, unit) go" where
  "NewChain K ipt table chain = ipt_run K ipt [''-t'', table, ''-N'', chain]"

definition ClearChain :: "'w os \<Rightarrow> IPTables \<Rightarrow> string \<Rightarrow> string \<Rightarrow> ('w, error, unit) go" where
  "ClearChain K ipt table chain =
     catch (NewChain K ipt table chain)
       (\<lambda>_. ok ())
       (\<lambda>err. if ExitStatus err = Some 1 then ipt_run K ipt [''-t'', table, ''-F'', chain] else throw err)"

definition RenameChain :: "'w os \<Rightarrow> IPTables \<Rightarrow> string \<Rightarrow> string \<Rightarrow> string \<Rightarrow> ('w, error, unit) go" where
  "RenameChain K ipt table oldChain newChain = ipt_run K ipt [''-t'', table, ''-E'', oldChain, newChain]"

definition DeleteChain :: "'w os \<Rightarrow> IPTables \<Rightarrow> string \<Rightarrow> string \<Rightarrow> ('w, error, unit) go" where
  "DeleteChain K ipt table chain = ipt_run K ipt [''-t'', table, ''-X'', chain]"

definition ChangePolicy :: "'w os \<Rightarrow> IPTables \<Rightarrow> string \<Rightarrow> string \<Rightarrow> string \<Rightarrow> ('w, error, unit) go" where
  "ChangePolicy K ipt table chain target = ipt_run K ipt [''-t'', table, ''-P'', chain, target]"

subsection \<open>Listings\<close>

text \<open>
  The chains of a listing: the second field of the leading lines that define a policy or a
  chain. A line without a second field is a panic.
\<close>

fun chain_names :: "string list \<Rightarrow> string list option" where
  "chain_names [] = Some []"
| "chain_names (val # vals) =
     (if HasPrefix val ''-P'' \<or> HasPrefix val ''-N''
      then do { c \<leftarrow> index (Fields val) 1; cs \<leftarrow> chain_names vals; Some (c # cs) }
      else Some [])"

definition ListChains :: "'w os \<Rightarrow> IPTables \<Rightarrow> string \<Rightarrow> ('w, error, string list) go" where
  "ListChains K ipt table =
     must (executeList K ipt [''-t'', table, ''-S'']) (\<lambda>result.
       or_panic IndexOutOfRange (chain_names result))"

definition appendSubnet :: "string \<Rightarrow> string" where
  "appendSubnet addr =
     (if IndexByte addr (CHR ''/'') = None
      then if IndexByte addr (CHR ''.'') = None then addr @ ''/128'' else addr @ ''/32''
      else addr)"

definition stats_row :: "bool \<Rightarrow> string \<Rightarrow> string list option" where
  "stats_row ipv6 line = do {
     let fields = Fields (TrimSpace line);
     fields \<leftarrow>
       (if ipv6 then do {
          dest \<leftarrow> index fields 6;
          (if ParseCIDR dest \<noteq> None \<or> ParseIP dest \<noteq> []
           then Some (take 4 fields @ [''  ''] @ drop 4 fields)
           else Some fields)
        } else Some fields);
     f7 \<leftarrow> index fields 7;
     fields \<leftarrow> set_index 7 (appendSubnet f7) fields;
     f8 \<leftarrow> index fields 8;
     fields \<leftarrow> set_index 8 (appendSubnet f8) fields;
     Some (take 9 fields @ [Join (drop 9 fields) '' ''])
   }"

fun stats_rows :: "bool \<Rightarrow> string list \<Rightarrow> string list list option" where
  "stats_rows ipv6 [] = Some []"
| "stats_rows ipv6 (l # ls) =
     do { r \<leftarrow> stats_row ipv6 l; rs \<leftarrow> stats_rows ipv6 ls; Some (r # rs) }"

definition Stats :: "'w os \<Rightarrow> IPTables \<Rightarrow> string \<Rightarrow> string \<Rightarrow> ('w, error, string list list) go" where
  "Stats K ipt table chain =
     must (executeList K ipt [''-t'', table, ''-L'', chain, ''-n'', ''-v'', ''-x'']) (\<lambda>lines.
       or_panic IndexOutOfRange (stats_rows (ipt_proto ipt = ProtocolIPv6) (drop 2 lines)))"

subsection \<open>What the iptables binary does\<close>

text \<open>
  \<open>netfilter\<close> is the documented behaviour of the binary on
  specifications it accepts: a check exits with 0 only when the rule is there and with 1 only
  when it is not, a command that succeeds appends the rule or deletes its first occurrence, and
  one that fails changes nothing.
\<close>

definition netfilter :: "'w os \<Rightarrow> IPTables \<Rightarrow> (string list \<Rightarrow> bool) \<Rightarrow> ('w \<Rightarrow> rules) \<Rightarrow> bool" where
  "netfilter K ipt good rules \<longleftrightarrow>
     (\<forall>w t c r. good r \<longrightarrow>
       (let cmd = (\<lambda>flag. os_Run K (ipt_path ipt) (ipt_path ipt # ([''-t'', t, flag, c] @ r) @ [''--wait'']) w) in
        (case cmd ''-C'' of ((e, _), w') \<Rightarrow>
           rules w' = rules w \<and> (e = Exited 0 \<longrightarrow> has_rule (rules w) t c r) \<and> (e = Exited 1 \<longrightarrow> \<not> has_rule (rules w) t c r))
      \<and> (case cmd ''-A'' of ((e, _), w') \<Rightarrow>
           if e = Exited 0 then \<exists>rs. rules w t c = Some rs \<and> rules w' = put_chain t c (rs @ [r]) (rules w)
           else rules w' = rules w)
      \<and> (case cmd ''-D'' of ((e, _), w') \<Rightarrow>
           if e = Exited 0 then \<exists>rs. rules w t c = Some rs \<and> r \<in> set rs \<and> rules w' = put_chain t c (remove1 r rs) (rules w)
           else rules w' = rules w)))"

lemma netfilter_flags:
  assumes "netfilter K ipt good rules" and "good r"
    and "os_Run K (ipt_path ipt) (ipt_path ipt # ([''-t'', t, flag, c] @ r) @ [''--wait'']) w = ((e, out), w')"
  shows "flag = ''-C'' \<Longrightarrow> rules w' = rules w \<and> (e = Exited 0 \<longrightarrow> has_rule (rules w) t c r) \<and> (e = Exited 1 \<longrightarrow> \<not> has_rule (rules w) t c r)"
    and "flag = ''-A'' \<Longrightarrow> if e = Exited 0 then \<exists>rs. rules w t c = Some rs \<and> rules w' = put_chain t c (rs @ [r]) (rules w) else rules w' = rules w"
    and "flag = ''-D'' \<Longrightarrow> if e = Exited 0 then \<exists>rs. rules w t c = Some rs \<and> r \<in> set rs \<and> rules w' = put_chain t c (remove1 r rs) (rules w) else rules w' = rules w"
  using assms(3) assms(1) [unfolded netfilter_def, rule_format, where w = w and t = t and c = c and r = r, OF assms(2)]
  by (auto simp: Let_def)

text \<open>The reference: a rule is added at the end of its chain unless the chain has it.\<close>

definition ensure :: "string \<Rightarrow> string \<Rightarrow> string list \<Rightarrow> rules \<Rightarrow> rules" where
  "ensure t c r R =
     (case R t c of None \<Rightarrow> R | Some rs \<Rightarrow> if r \<in> set rs then R else put_chain t c (rs @ [r]) R)"

lemma has_rule_chain: "has_rule R t c r \<Longrightarrow> \<exists>rs. R t c = Some rs"
  by (auto simp: has_rule_def split: option.splits)

lemma ensure_has: "R t c \<noteq> None \<Longrightarrow> has_rule (ensure t c r R) t c r"
  by (auto simp: ensure_def has_rule_def put_chain_def)

lemma ensure_id: "has_rule R t c r \<Longrightarrow> ensure t c r R = R"
  by (auto simp: ensure_def has_rule_def split: option.splits)

lemma ensure_mono: "has_rule R t c r \<Longrightarrow> has_rule (ensure t' c' r' R) t c r"
  by (auto simp: ensure_def has_rule_def put_chain_def split: option.splits)

lemma run_ipt_run_wait: "hasWait ipt \<Longrightarrow> run_state (ipt_run K ipt args) w =
    (case os_Run K (ipt_path ipt) (ipt_path ipt # args @ [''--wait'']) w of
       ((Exited st, out, msg), w') \<Rightarrow>
          if st = 0 then (Ok (), w') else (Err (IptablesError (ipt_path ipt # args @ [''--wait'']) st msg), w')
     | ((NotRun e, out, msg), w') \<Rightarrow> (Err (ErrorString e), w'))"
  by (auto simp: ipt_run_def runWithOutput_def cmd_Run_def run_simps split: prod.splits cmd_end.splits)

lemma cmd_result:
  obtains e out msg w' where "(x :: (cmd_end \<times> string \<times> string) \<times> 'w) = ((e, out, msg), w')"
  by (cases x; cases "fst x") auto

lemma Append_triple:
  assumes nf: "netfilter K ipt good rules" and w: "hasWait ipt" and r: "good r"
  shows "triple (\<lambda>w. rules w = R \<and> \<not> has_rule R t c r) (ipt_Append K ipt t c r)
     (\<lambda>_ w. R t c \<noteq> None \<and> rules w = ensure t c r R) (\<lambda>e w. (\<exists>x. e = Error x) \<and> rules w = R)"
proof (rule tripleI, elim conjE)
  fix w assume R: "rules w = R" and n: "\<not> has_rule R t c r"
  obtain e out msg w' where run: "os_Run K (ipt_path ipt) (ipt_path ipt # ([''-t'', t, ''-A'', c] @ r) @ [''--wait'']) w = ((e, out, msg), w')"
    by (rule cmd_result)
  show "case run_state (ipt_Append K ipt t c r) w of (Ok _, w') \<Rightarrow> R t c \<noteq> None \<and> rules w' = ensure t c r R
      | (Stop e, w') \<Rightarrow> (\<exists>x. e = Error x) \<and> rules w' = R"
  proof (cases "e = Exited 0")
    case True
    with netfilter_flags(2) [OF nf r run] R obtain rs where "R t c = Some rs" "rules w' = put_chain t c (rs @ [r]) R"
      by auto
    moreover from this n have "rules w' = ensure t c r R" by (simp add: ensure_def has_rule_def)
    ultimately show ?thesis using run True by (simp add: ipt_Append_def run_ipt_run_wait [OF \<open>hasWait ipt\<close>])
  next
    case False
    with netfilter_flags(2) [OF nf r run] R have "rules w' = R" by simp
    with run False show ?thesis by (cases e) (simp_all add: ipt_Append_def run_ipt_run_wait [OF \<open>hasWait ipt\<close>])
  qed
qed

lemma Exists_triple:
  assumes nf: "netfilter K ipt good rules" and w: "hasWait ipt" and ck: "hasCheck ipt" and r: "good r"
  shows "triple (\<lambda>w. rules w = R) (Exists K ipt t c r)
     (\<lambda>b w. rules w = R \<and> b = has_rule R t c r) (\<lambda>e w. (\<exists>x. e = Error x) \<and> rules w = R)"
proof (rule tripleI)
  fix w assume R: "rules w = R"
  obtain e out msg w' where run: "os_Run K (ipt_path ipt) (ipt_path ipt # ([''-t'', t, ''-C'', c] @ r) @ [''--wait'']) w = ((e, out, msg), w')"
    by (rule cmd_result)
  from netfilter_flags(1) [OF nf r run] R
  have c: "rules w' = R" "e = Exited 0 \<Longrightarrow> has_rule R t c r" "e = Exited 1 \<Longrightarrow> \<not> has_rule R t c r" by auto
  show "case run_state (Exists K ipt t c r) w of (Ok b, w') \<Rightarrow> rules w' = R \<and> b = has_rule R t c r
      | (Stop e, w') \<Rightarrow> (\<exists>x. e = Error x) \<and> rules w' = R"
    using run c by (cases e) (simp_all add: Exists_def ck run_simps run_ipt_run_wait [OF \<open>hasWait ipt\<close>])
qed

lemma AppendUnique_triple:
  assumes "netfilter K ipt good rules" and "hasWait ipt" and "hasCheck ipt" and "good r"
  shows "triple (\<lambda>w. rules w = R) (AppendUnique K ipt t c r)
     (\<lambda>_ w. R t c \<noteq> None \<and> rules w = ensure t c r R) (\<lambda>e w. (\<exists>x. e = Error x) \<and> rules w = R)"
  unfolding AppendUnique_def
proof (rule triple_must [OF Exists_triple [OF assms]], rule triple_if)
  fix b assume "\<not> \<not> b"
  then show "triple (\<lambda>w. rules w = R \<and> b = has_rule R t c r) (ok ())
     (\<lambda>_ w. R t c \<noteq> None \<and> rules w = ensure t c r R) (\<lambda>e w. (\<exists>x. e = Error x) \<and> rules w = R)"
    by (intro triple_ok) (auto simp: ensure_id dest: has_rule_chain)
next
  fix b assume "\<not> b"
  then show "triple (\<lambda>w. rules w = R \<and> b = has_rule R t c r) (ipt_Append K ipt t c r)
     (\<lambda>_ w. R t c \<noteq> None \<and> rules w = ensure t c r R) (\<lambda>e w. (\<exists>x. e = Error x) \<and> rules w = R)"
    by (intro triple_conseq [OF Append_triple [OF assms(1,2,4)]]) auto
qed

lemma Delete_triple:
  assumes nf: "netfilter K ipt good rules" and w: "hasWait ipt" and r: "good r"
  shows "triple (\<lambda>w. rules w = R) (ipt_Delete K ipt t c r)
     (\<lambda>_ w. \<exists>rs. R t c = Some rs \<and> r \<in> set rs \<and> rules w = put_chain t c (remove1 r rs) R)
     (\<lambda>e w. (\<exists>x. e = Error x) \<and> rules w = R)"
proof (rule tripleI)
  fix w assume R: "rules w = R"
  obtain e out msg w' where run: "os_Run K (ipt_path ipt) (ipt_path ipt # ([''-t'', t, ''-D'', c] @ r) @ [''--wait'']) w = ((e, out, msg), w')"
    by (rule cmd_result)
  from netfilter_flags(3) [OF nf r run] R
  have c: "e = Exited 0 \<Longrightarrow> \<exists>rs. R t c = Some rs \<and> r \<in> set rs \<and> rules w' = put_chain t c (remove1 r rs) R"
    "e \<noteq> Exited 0 \<Longrightarrow> rules w' = R" by auto
  show "case run_state (ipt_Delete K ipt t c r) w of
      (Ok _, w') \<Rightarrow> \<exists>rs. R t c = Some rs \<and> r \<in> set rs \<and> rules w' = put_chain t c (remove1 r rs) R
    | (Stop e, w') \<Rightarrow> (\<exists>x. e = Error x) \<and> rules w' = R"
    using run c by (cases e) (simp_all add: ipt_Delete_def run_ipt_run_wait [OF \<open>hasWait ipt\<close>])
qed

subsection \<open>The rule table as an interface\<close>

text \<open>
  What a client of the package relies on: AppendUnique and Delete, on an environment \<open>k\<close> in
  which the binary behaves as documented. \<open>install_rules\<close> is a sequence of AppendUnique calls
  that stops at the first error; \<open>ensure_all\<close> is its meaning on the rules.
\<close>

type_synonym rule = "string \<times> string \<times> string list"

fun install_rules :: "(string \<Rightarrow> string \<Rightarrow> string list \<Rightarrow> ('w, error, unit) go) \<Rightarrow> rule list \<Rightarrow> ('w, error, unit) go" where
  "install_rules app [] = ok ()"
| "install_rules app ((t, c, r) # rs) = must (app t c r) (\<lambda>_. install_rules app rs)"

fun ensure_all :: "rule list \<Rightarrow> rules \<Rightarrow> rules" where
  "ensure_all [] R = R"
| "ensure_all ((t, c, r) # rs) R = ensure_all rs (ensure t c r R)"

fun has_all :: "rule list \<Rightarrow> rules \<Rightarrow> bool" where
  "has_all [] R = True"
| "has_all ((t, c, r) # rs) R = (has_rule R t c r \<and> has_all rs R)"

lemma ensure_all_mono: "has_rule R t c r \<Longrightarrow> has_rule (ensure_all rs R) t c r"
  by (induction rs R rule: ensure_all.induct) (auto simp: ensure_mono)

lemma ensure_all_append: "ensure_all (xs @ ys) R = ensure_all ys (ensure_all xs R)"
  by (induction xs R rule: ensure_all.induct) auto

lemma has_all_append: "has_all (xs @ ys) R \<longleftrightarrow> has_all xs R \<and> has_all ys R"
  by (induction xs R rule: has_all.induct) auto

lemma ensure_all_id: "has_all rs R \<Longrightarrow> ensure_all rs R = R"
  by (induction rs R rule: ensure_all.induct) (auto simp: ensure_id)

lemma install_rules_append:
  "install_rules app (xs @ ys) = must (install_rules app xs) (\<lambda>_. install_rules app ys)"
  by (induction app xs rule: install_rules.induct)
    (auto intro!: state_ext simp: run_simps split: prod.splits outcome.splits)

locale rule_table =
  fixes env :: "'k \<Rightarrow> bool"
    and accepted :: "'k \<Rightarrow> string list \<Rightarrow> bool"
    and tab :: "'k \<Rightarrow> 'w \<Rightarrow> rules"
    and append_unique :: "'k \<Rightarrow> string \<Rightarrow> string \<Rightarrow> string list \<Rightarrow> ('w, error, unit) go"
    and delete :: "'k \<Rightarrow> string \<Rightarrow> string \<Rightarrow> string list \<Rightarrow> ('w, error, unit) go"
  assumes append_unique: "env k \<Longrightarrow> accepted k r \<Longrightarrow>
      triple (\<lambda>w. tab k w = R) (append_unique k t c r)
        (\<lambda>_ w. R t c \<noteq> None \<and> tab k w = ensure t c r R) (\<lambda>e w. (\<exists>x. e = Error x) \<and> tab k w = R)"
    and delete: "env k \<Longrightarrow> accepted k r \<Longrightarrow>
      triple (\<lambda>w. tab k w = R) (delete k t c r)
        (\<lambda>_ w. \<exists>rs. R t c = Some rs \<and> r \<in> set rs \<and> tab k w = put_chain t c (remove1 r rs) R)
        (\<lambda>e w. (\<exists>x. e = Error x) \<and> tab k w = R)"
begin

lemma install:
  assumes k: "env k"
  shows "list_all (\<lambda>(t, c, r). accepted k r) rs \<Longrightarrow>
    triple (\<lambda>w. tab k w = R) (install_rules (append_unique k) rs)
      (\<lambda>_ w. tab k w = ensure_all rs R \<and> has_all rs (tab k w))
      (\<lambda>e w. (\<exists>x. e = Error x) \<and> (\<exists>n. tab k w = ensure_all (take n rs) R))"
proof (induction rs arbitrary: R)
  case Nil
  show ?case by (simp add: triple_ok)
next
  case (Cons a rs)
  obtain t c r where a: "a = (t, c, r)" by (cases a)
  let ?E = "\<lambda>e w. (\<exists>x. e = Error x) \<and> (\<exists>n. tab k w = ensure_all (take n (a # rs)) R)"
  from Cons.prems a have r: "accepted k r" and rs: "list_all (\<lambda>(t, c, r). accepted k r) rs" by auto
  have head: "triple (\<lambda>w. tab k w = R) (append_unique k t c r) (\<lambda>_ w. R t c \<noteq> None \<and> tab k w = ensure t c r R) ?E"
    by (rule triple_conseq [OF append_unique [OF k r]]) (auto intro: exI [of _ 0])
  have tail: "triple (\<lambda>w. R t c \<noteq> None \<and> tab k w = ensure t c r R) (install_rules (append_unique k) rs)
      (\<lambda>_ w. tab k w = ensure_all (a # rs) R \<and> has_all (a # rs) (tab k w)) ?E"
  proof (cases "R t c = None")
    case False
    then show ?thesis
      by (intro triple_conseq [OF Cons.IH [OF rs, of "ensure t c r R"]])
        (auto simp: a ensure_has ensure_all_mono intro: exI [of _ "Suc _"])
  qed (simp add: triple_def)
  show ?case using triple_must [OF head tail] by (simp add: a)
qed

lemma delete_removes:
  assumes "env k" and "accepted k r" and "run_state (delete k t c r) w = (Ok (), w')"
    and "tab k w t c = Some rs" and "distinct rs"
  shows "\<not> has_rule (tab k w') t c r"
  using triple_Ok [OF delete [OF assms(1,2)] refl assms(3)] assms(4,5)
  by (auto simp: has_rule_def put_chain_def)

end

type_synonym 'w rule_env = "'w os \<times> IPTables \<times> (string list \<Rightarrow> bool) \<times> ('w \<Rightarrow> rules)"

interpretation nf: rule_table
  "\<lambda>(K, ipt, good, rules). netfilter K ipt good rules \<and> hasCheck ipt \<and> hasWait ipt"
  "\<lambda>(K, ipt, good, rules). good"
  "\<lambda>(K, ipt, good, rules). rules"
  "\<lambda>(K, ipt, good, rules). AppendUnique K ipt"
  "\<lambda>(K, ipt, good, rules). ipt_Delete K ipt"
  by unfold_locales (auto intro: AppendUnique_triple [unfolded not_None_eq] Delete_triple)

lemmas install_triple = nf.install [of "(K, ipt, good, rules)" for K ipt good rules, simplified]
lemmas delete_removes_rule = nf.delete_removes [of "(K, ipt, good, rules)" for K ipt good rules, simplified]

lemma netfilter_sample: "netfilter sample_os ipt good b_rules"
  by (auto simp: netfilter_def sample_os_def box_Run_def box_rule_cmd_def has_rule_def Let_def split: option.splits)

definition sample_ipt :: IPTables where
  "sample_ipt = \<lparr>ipt_path = ''/sbin/iptables'', ipt_proto = ProtocolIPv4, hasCheck = True, hasWait = True\<rparr>"

lemma sample_ipt_simps [simp]: "hasCheck sample_ipt" "hasWait sample_ipt"
  by (simp_all add: sample_ipt_def)

text \<open>
  C17 (append_unique_idempotent): with an iptables binary that behaves as documented,
  AppendUnique that returns no error leaves the rule in its chain, having added it at the end
  exactly when it was absent; an error leaves the rules as they were; and a second call never
  changes them again.
\<close>

theorem append_unique_idempotent:
  assumes "netfilter K ipt good rules" and "hasWait ipt" and "hasCheck ipt" and "good r"
  shows "case run_state (AppendUnique K ipt t c r) w of
      (Ok _, w') \<Rightarrow> has_rule (rules w') t c r
        \<and> rules w' = (if has_rule (rules w) t c r then rules w else put_chain t c (the (rules w t c) @ [r]) (rules w))
        \<and> rules (snd (run_state (AppendUnique K ipt t c r) w')) = rules w'
    | (Err _, w') \<Rightarrow> rules w' = rules w
    | _ \<Rightarrow> False"
proof -
  note au = AppendUnique_triple [OF assms]
  have keep: "rules (snd (run_state (AppendUnique K ipt t c r) w')) = rules w'" if "has_rule (rules w') t c r" for w'
    using au [of "rules w'"] that ensure_id [OF that]
    by (cases "run_state (AppendUnique K ipt t c r) w'"; cases "fst (run_state (AppendUnique K ipt t c r) w')")
      (auto dest: triple_Ok [OF au refl] triple_Stop [OF au refl])
  show ?thesis
  proof (cases "fst (run_state (AppendUnique K ipt t c r) w)")
    case (Ok x)
    then obtain w' where w': "run_state (AppendUnique K ipt t c r) w = (Ok x, w')" by (metis prod.collapse)
    from triple_Ok [OF au refl this] have R: "rules w t c \<noteq> None" "rules w' = ensure t c r (rules w)" by auto
    then have "has_rule (rules w') t c r" by (simp add: ensure_has)
    with R w' keep [OF this] show ?thesis by (auto simp: ensure_def has_rule_def split: option.splits)
  next
    case (Stop e)
    then obtain w' where w': "run_state (AppendUnique K ipt t c r) w = (Stop e, w')" by (metis prod.collapse)
    from triple_Stop [OF au refl this] w' show ?thesis by auto
  qed
qed

lemma sample_append:
  "run_state (AppendUnique sample_os sample_ipt t c r) b =
     (case b_rules b t c of None \<Rightarrow> (Err (IptablesError ([''/sbin/iptables'', ''-t'', t, ''-A'', c] @ r @ [''--wait'']) 1
           (''iptables: No chain/target/match by that name.'' @ [CHR 0x0A])), b)
      | Some rs \<Rightarrow> (Ok (), if r \<in> set rs then b else b\<lparr>b_rules := put_chain t c (rs @ [r]) (b_rules b)\<rparr>))"
  by (auto simp: AppendUnique_def Exists_def ipt_Append_def run_simps run_ipt_run_wait
      sample_os_def box_Run_def box_rule_cmd_def sample_ipt_def split: option.splits)

theorem append_unique_idempotent_witness:
  "has_rule (b_rules (snd (run_state (AppendUnique sample_os sample_ipt ''filter'' ''INPUT'' [''-j'', ''DROP'']) sample_box)))
     ''filter'' ''INPUT'' [''-j'', ''DROP'']"
proof -
  have "b_rules sample_box ''filter'' ''INPUT'' = Some []" by (simp add: sample_box_def)
  then obtain b where b: "run_state (AppendUnique sample_os sample_ipt ''filter'' ''INPUT'' [''-j'', ''DROP'']) sample_box = (Ok (), b)"
    by (simp add: sample_append)
  from append_unique_idempotent [OF netfilter_sample sample_ipt_simps(2,1), where good = "\<lambda>_. True", OF TrueI,
      where t = "''filter''" and c = "''INPUT''" and r = "[''-j'', ''DROP'']" and w = sample_box]
  show ?thesis unfolding b prod.case outcome.case snd_conv by (rule conjunct1)
qed

subsection \<open>Versions\<close>

definition version_le :: "int \<times> int \<times> int \<Rightarrow> int \<times> int \<times> int \<Rightarrow> bool" where
  "version_le a b = (case (a, b) of ((a1, a2, a3), (b1, b2, b3)) \<Rightarrow>
     a1 < b1 \<or> a1 = b1 \<and> (a2 < b2 \<or> a2 = b2 \<and> a3 \<le> b3))"

lemma takeWhile_dropWhile_digits:
  assumes "\<forall>c \<in> set d. is_digit c" and "r \<noteq> []" and "\<not> is_digit (hd r)"
  shows "takeWhile is_digit (d @ r) = d" and "dropWhile is_digit (d @ r) = r"
  using assms by (cases r; simp add: takeWhile_append dropWhile_append)+

lemma dot_not_digit [simp]: "\<not> is_digit (CHR ''.'')" "\<not> is_digit (CHR ''v'')"
  by (simp_all add: is_digit_def)

lemma digits_then_dec: "digits_then (CHR ''.'') (dec_of_nat a @ CHR ''.'' # s) = Some (dec_of_nat a, s)"
  using takeWhile_dropWhile_digits [of "dec_of_nat a" "CHR ''.'' # s"] dec_of_nat_digits [of a]
  by (simp add: digits_then_def)

definition version_string :: "nat \<Rightarrow> nat \<Rightarrow> nat \<Rightarrow> string" where
  "version_string a b c = CHR ''v'' # dec_of_nat a @ CHR ''.'' # dec_of_nat b @ CHR ''.'' # dec_of_nat c"

lemma takeWhile_digits_end:
  "rest = [] \<or> \<not> is_digit (hd rest) \<Longrightarrow> takeWhile is_digit (dec_of_nat c @ rest) = dec_of_nat c"
  using dec_of_nat_digits [of c] takeWhile_dropWhile_digits(1) [of "dec_of_nat c" rest]
  by (cases rest) auto

lemma version_at_string:
  assumes "rest = [] \<or> \<not> is_digit (hd rest)"
  shows "version_at (version_string a b c @ rest) = Some (dec_of_nat a, dec_of_nat b, dec_of_nat c)"
  by (simp add: version_at_def version_string_def digits_then_dec takeWhile_digits_end [OF assms])

lemma FindVersion_skip:
  "CHR ''v'' \<notin> set pre \<Longrightarrow> FindVersion (pre @ s) = FindVersion s"
  by (induction pre) (auto simp: version_at_def)

lemma Atoi_sum_dec: "n < 2 ^ 63 \<Longrightarrow> Atoi_sum (dec_of_nat n) = Inr (int n)"
  using Atoi_Itoa [of "int n"] by (simp add: Atoi_sum_def Itoa_def)

lemma extract_version_string:
  assumes "CHR ''v'' \<notin> set pre" and "rest = [] \<or> \<not> is_digit (hd rest)"
    and "a < 2 ^ 63" and "b < 2 ^ 63" and "c < 2 ^ 63"
  shows "extractIptablesVersion (pre @ version_string a b c @ rest) = Inr (int a, int b, int c)"
proof -
  obtain s where "version_string a b c @ rest = CHR ''v'' # s" by (simp add: version_string_def)
  then have "FindVersion (version_string a b c @ rest) = Some (dec_of_nat a, dec_of_nat b, dec_of_nat c)"
    using version_at_string [OF assms(2), of a b c] by simp
  with assms show ?thesis by (simp add: extractIptablesVersion_def FindVersion_skip Atoi_sum_dec)
qed

lemma HasCheck_version: "iptablesHasCheckCommand a b c = version_le (1, 4, 11) (a, b, c)"
  by (auto simp: iptablesHasCheckCommand_def version_le_def)

lemma HasWait_version: "iptablesHasWaitCommand a b c = version_le (1, 4, 20) (a, b, c)"
  by (auto simp: iptablesHasWaitCommand_def version_le_def)

text \<open>
  When the binary is found and prints a version, New selects the check
  flag exactly from version 1.4.11 and the wait flag exactly from 1.4.20 in the order of
  versions, whatever else is on the line.
\<close>

theorem version_support:
  assumes "os_LookPath K ''iptables'' w = (Inr path, w1)"
    and "os_Run K path [path, ''--version''] w1 = ((Exited 0, pre @ version_string a b c @ rest, msg), w2)"
    and "CHR ''v'' \<notin> set pre" and "rest = [] \<or> \<not> is_digit (hd rest)"
    and "a < 2 ^ 63" and "b < 2 ^ 63" and "c < 2 ^ 63"
  shows "\<exists>ipt. run_state (iptables_New K) w = (Ok ipt, w2) \<and> ipt_path ipt = path \<and> ipt_proto ipt = ProtocolIPv4
      \<and> (hasCheck ipt \<longleftrightarrow> version_le (1, 4, 11) (int a, int b, int c))
      \<and> (hasWait ipt \<longleftrightarrow> version_le (1, 4, 20) (int a, int b, int c))
      \<and> (hasWait ipt \<longrightarrow> hasCheck ipt)"
proof -
  have "run_state (getIptablesVersionString K path) w1 = (Ok (pre @ version_string a b c @ rest), w2)"
    using assms(2) by (simp add: getIptablesVersionString_def run_simps)
  then have "run_state (getIptablesCommandSupport K path) w1 =
      (Ok (iptablesHasCheckCommand (int a) (int b) (int c), iptablesHasWaitCommand (int a) (int b) (int c)), w2)"
    using extract_version_string [OF assms(3-7)] by (simp add: getIptablesCommandSupport_def run_simps)
  with assms(1) show ?thesis
    by (auto simp: iptables_New_def NewWithProtocol_def getIptablesCommand_def run_simps HasCheck_version HasWait_version)
      (auto simp: version_le_def)
qed

theorem version_support_witness:
  "\<exists>ipt. run_state (iptables_New sample_os) sample_box = (Ok ipt, sample_box) \<and> hasCheck ipt \<and> hasWait ipt"
proof -
  have "version_string 1 6 1 = ''v1.6.1''"
    by (simp add: version_string_def dec_of_nat.simps digit_char_def char_of_def bit_0)
  then have "os_Run sample_os ''/sbin/iptables'' [''/sbin/iptables'', ''--version''] sample_box =
      ((Exited 0, ''iptables '' @ version_string 1 6 1 @ [], []), sample_box)"
    by (simp add: sample_os_def box_Run_def sample_box_def)
  from version_support [OF _ this, of sample_box] show ?thesis
    by (auto simp: sample_os_def version_le_def)
qed

subsection \<open>The lock file\<close>

text \<open>
  The descriptors of the process: opening adds a new one, closing removes it, and no other call
  changes them.
\<close>

definition descriptors :: "'w os \<Rightarrow> ('w \<Rightarrow> int set) \<Rightarrow> bool" where
  "descriptors K fds \<longleftrightarrow>
     (\<forall>p w fd w'. os_Open K p w = (Inr fd, w') \<longrightarrow> fd \<notin> fds w \<and> fds w' = insert fd (fds w))
   \<and> (\<forall>fd w. fds (snd (os_Flock K fd w)) = fds w)
   \<and> (\<forall>p args w. fds (snd (os_Run K p args w)) = fds w)
   \<and> (\<forall>fd w. fds (snd (os_Close K fd w)) = fds w - {fd})"

lemma cmd_Run_fds:
  assumes "descriptors K fds"
  shows "fds (snd (run_state (cmd_Run K p args) w)) = fds w" and "fst (run_state (cmd_Run K p args) w) \<noteq> Stop Blocked"
proof -
  obtain e out msg w' where run: "os_Run K p args w = ((e, out, msg), w')" by (rule cmd_result)
  from assms have "fds (snd (os_Run K p args w)) = fds w" unfolding descriptors_def by blast
  with run show "fds (snd (run_state (cmd_Run K p args) w)) = fds w" and "fst (run_state (cmd_Run K p args) w) \<noteq> Stop Blocked"
    by (simp_all add: cmd_Run_def run_simps split: cmd_end.splits)
qed

text \<open>
  C18 (lock_descriptor): without the wait flag a command takes the xtables lock on a descriptor
  it opens. The descriptor is closed when the lock was obtained; when the lock is held by
  another process, or taking it fails, it stays open after the command.
\<close>

theorem lock_descriptor:
  assumes K: "descriptors K fds" and "\<not> hasWait ipt"
    and op: "os_Open K xtablesLockFilePath w = (Inr fd, w1)" and fl: "os_Flock K fd w1 = (st, w2)"
  shows "fd \<notin> fds w \<and> fds (snd (run_state (runWithOutput K ipt args) w)) =
     (if st = Locked then fds w else insert fd (fds w))"
proof -
  let ?cmd = "cmd_Run K (ipt_path ipt) (ipt_path ipt # args)"
  from K op have fd: "fd \<notin> fds w" and w1: "fds w1 = insert fd (fds w)" by (auto simp: descriptors_def)
  from K have "fds (snd (os_Flock K fd w1)) = fds w1" by (simp add: descriptors_def)
  with fl w1 have w2: "fds w2 = insert fd (fds w)" by simp
  from K have cl: "fds (snd (os_Close K fd v)) = fds v - {fd}" for v by (simp add: descriptors_def)
  obtain r w3 where r: "run_state ?cmd w2 = (r, w3)" by fastforce
  with cmd_Run_fds [OF K, of "ipt_path ipt" "ipt_path ipt # args" w2] have w3: "fds w3 = fds w2" and "r \<noteq> Stop Blocked"
    by simp_all
  then show ?thesis using assms(2) fd w2 cl [of w3] r
    by (cases st; cases r) (auto simp: runWithOutput_def newXtablesFileLock_def tryLock_def run_simps op fl
        split: stop.splits prod.splits sum.splits)
qed

lemma fold_max_ge: "(m :: int) \<le> fold max xs m \<and> (\<forall>x \<in> set xs. x \<le> fold max xs m)"
  by (induction xs arbitrary: m) (auto, (meson max.cobounded1 max.cobounded2 order_trans)+)

lemma descriptors_sample: "descriptors sample_os (set \<circ> b_fds)"
proof -
  have "1 + fold max xs 2 \<notin> set xs" for xs :: "int list"
    using fold_max_ge [of 2 xs] by force
  moreover have "b_fds (snd (box_rule_cmd t f c r b)) = b_fds b" for t f c r b
    by (auto simp: box_rule_cmd_def split: option.splits)
  then have "b_fds (snd (box_Run p args b)) = b_fds b" for p args b
    by (auto simp: box_Run_def split: list.splits)
  ultimately show ?thesis
    by (auto simp: descriptors_def sample_os_def box_Open_def box_Close_def Let_def)
qed

theorem lock_descriptor_witness:
  "set (b_fds (snd (run_state (runWithOutput sample_os (sample_ipt\<lparr>hasWait := False\<rparr>) [''-S'']) sample_box))) = {3}"
proof -
  have "os_Open sample_os xtablesLockFilePath sample_box = (Inr 3, sample_box\<lparr>b_fds := [3]\<rparr>)"
    and "os_Flock sample_os 3 (sample_box\<lparr>b_fds := [3]\<rparr>) = (EWOULDBLOCK, sample_box\<lparr>b_fds := [3]\<rparr>)"
    by (simp_all add: sample_os_def box_Open_def sample_box_def)
  from lock_descriptor [OF descriptors_sample _ this, of "sample_ipt\<lparr>hasWait := False\<rparr>" "[''-S'']"]
  show ?thesis by (simp add: sample_box_def)
qed

subsection \<open>Reading the listings\<close>

definition plain_word :: "string \<Rightarrow> bool" where
  "plain_word s \<longleftrightarrow> s \<noteq> [] \<and> (\<forall>c \<in> set s. \<not> is_space c)"

lemma Fields_word: "plain_word f \<Longrightarrow> r = [] \<or> is_space (hd r) \<Longrightarrow> Fields (f @ r) = f # Fields r"
proof (cases f)
  case (Cons c cs)
  assume f: "plain_word f" and r: "r = [] \<or> is_space (hd r)"
  from f Cons have c: "\<not> is_space c" and cs: "\<forall>x \<in> set cs. \<not> is_space x" by (auto simp: plain_word_def)
  from cs r have "takeWhile (\<lambda>x. \<not> is_space x) (cs @ r) = cs" "dropWhile (\<lambda>x. \<not> is_space x) (cs @ r) = r"
    by (cases r; simp add: takeWhile_append dropWhile_append)+
  with c Cons show ?thesis by simp
qed (simp add: plain_word_def)

lemma Fields_spaces: "\<forall>c \<in> set s. is_space c \<Longrightarrow> Fields (s @ r) = Fields r"
  by (induction s) auto

lemma Fields_trailing: "\<forall>c \<in> set s. is_space c \<Longrightarrow> Fields (r @ s) = Fields r"
proof (induction r rule: Fields.induct)
  case 1
  then show ?case using Fields_spaces [of s "[]"] by simp
next
  case (2 c cs)
  have *: "takeWhile (\<lambda>x. \<not> is_space x) (cs @ s) = takeWhile (\<lambda>x. \<not> is_space x) cs"
    using 2(3) by (cases s) (auto simp: takeWhile_append takeWhile_eq_all_conv [THEN iffD2])
  have **: "Fields (dropWhile (\<lambda>x. \<not> is_space x) (cs @ s)) = Fields (dropWhile (\<lambda>x. \<not> is_space x) cs)" if "\<not> is_space c"
  proof (cases "\<forall>x \<in> set cs. \<not> is_space x")
    case True
    then have "dropWhile (\<lambda>x. \<not> is_space x) cs = []" by simp
    moreover from True have "dropWhile (\<lambda>x. \<not> is_space x) (cs @ s) = s"
      using 2(3) by (cases s; auto simp: dropWhile_append)
    ultimately show ?thesis using Fields_spaces [OF 2(3), of "[]"] by (simp only: append_Nil2 Fields.simps(1))
  next
    case False
    then show ?thesis using 2(2) [OF that 2(3)] by (auto simp: dropWhile_append)
  qed
  show ?case using 2(1) [OF _ 2(3)] * ** by auto
qed

lemma TrimSpace_decomp:
  "\<exists>a b. s = a @ TrimSpace s @ b \<and> (\<forall>c \<in> set a. is_space c) \<and> (\<forall>c \<in> set b. is_space c)"
proof -
  let ?t = "dropWhile is_space s"
  have "s = takeWhile is_space s @ ?t" by simp
  moreover have "?t = TrimSpace s @ rev (takeWhile is_space (rev ?t))"
    unfolding TrimSpace_def by (metis rev_append rev_rev_ident takeWhile_dropWhile_id)
  ultimately have "s = takeWhile is_space s @ TrimSpace s @ rev (takeWhile is_space (rev ?t))" by simp
  then show ?thesis by (intro exI conjI) (assumption, auto dest: set_takeWhileD)
qed

lemma Fields_TrimSpace: "Fields (TrimSpace s) = Fields s"
  using TrimSpace_decomp [of s] Fields_spaces Fields_trailing by metis

text \<open>
  A line of the IPv4 statistics is read exactly: with at least nine
  fields the row has ten, the two addresses completed by a netmask and the options joined; with
  fewer the code panics.
\<close>

theorem stats_row_exact:
  "stats_row False line =
     (let f = Fields line in
      if length f < 9 then None
      else Some (take 7 f @ [appendSubnet (f ! 7), appendSubnet (f ! 8), Join (drop 9 f) '' '']))"
proof (cases "length (Fields line) < 9")
  case True
  then show ?thesis
    by (simp add: stats_row_def Fields_TrimSpace index_def set_index_def Let_def)
next
  case False
  then have n: "7 < length (Fields line)" "8 < length (Fields line)" by simp_all
  let ?g = "(Fields line)[7 := appendSubnet (Fields line ! 7), 8 := appendSubnet (Fields line ! 8)]"
  have "take 9 ?g = take 7 ?g @ [?g ! 7, ?g ! 8]"
    using n take_Suc_conv_app_nth [of 7 ?g] take_Suc_conv_app_nth [of 8 ?g] by simp
  then have "take 9 ?g = take 7 (Fields line) @ [appendSubnet (Fields line ! 7), appendSubnet (Fields line ! 8)]"
    using n by simp
  with False n show ?thesis
    by (simp add: stats_row_def Fields_TrimSpace index_def set_index_def Let_def)
qed

lemma SplitByte_lines:
  "\<forall>l \<in> set ls. sep \<notin> set l \<Longrightarrow> SplitByte sep (concat (map (\<lambda>l. l @ [sep]) ls)) = ls @ [[]]"
  by (induction ls) (auto simp: SplitByte_append_sep SplitByte_no_sep)

definition chain_line :: "string \<times> string option \<Rightarrow> string" where
  "chain_line ch = (case ch of (n, Some target) \<Rightarrow> ''-P '' @ n @ '' '' @ target | (n, None) \<Rightarrow> ''-N '' @ n)"

lemma chain_names_lines:
  assumes "\<forall>ch \<in> set chs. plain_word (fst ch)"
    and "rs = [] \<or> \<not> HasPrefix (hd rs) ''-P'' \<and> \<not> HasPrefix (hd rs) ''-N''"
  shows "chain_names (map chain_line chs @ rs) = Some (map fst chs)"
  using assms(1)
proof (induction chs)
  case Nil
  with assms(2) show ?case by (cases rs) auto
next
  case (Cons ch chs)
  obtain n t where ch: "ch = (n, t)" by (cases ch)
  have sp: "is_space (CHR '' '')" "\<not> is_space (CHR ''-'')" "\<not> is_space (CHR ''N'')" "\<not> is_space (CHR ''P'')"
    by (simp_all add: is_space_def)
  from Cons.prems ch have n: "plain_word n" by simp
  have "\<exists>fs. Fields (chain_line ch) = (if t = None then ''-N'' else ''-P'') # n # fs"
    using Fields_word [OF n, of "[]"] Fields_word [OF n, of "CHR '' '' # the t"] sp
    by (cases t) (auto simp: chain_line_def ch)
  then have "index (Fields (chain_line ch)) 1 = Some n" by (auto simp: index_def)
  moreover have "HasPrefix (chain_line ch) ''-P'' \<or> HasPrefix (chain_line ch) ''-N''"
    by (cases t) (auto simp: chain_line_def ch HasPrefix_def)
  ultimately show ?case using Cons by (simp add: ch)
qed

text \<open>
  When the listing command prints the chains of a table, one
  declaration per line before the rules, ListChains returns exactly their names, in order.
\<close>

theorem ListChains_listing:
  assumes "hasWait ipt"
    and "os_Run K (ipt_path ipt) [ipt_path ipt, ''-t'', table, ''-S'', ''--wait''] w =
      ((Exited 0, concat (map (\<lambda>l. l @ [CHR 0x0A]) (map chain_line chs @ rs)), msg), w')"
    and "\<forall>l \<in> set (map chain_line chs @ rs). CHR 0x0A \<notin> set l"
    and "\<forall>ch \<in> set chs. plain_word (fst ch)"
    and "rs = [] \<or> \<not> HasPrefix (hd rs) ''-P'' \<and> \<not> HasPrefix (hd rs) ''-N''"
  shows "run_state (ListChains K ipt table) w = (Ok (map fst chs), w')"
  using assms(1,2) SplitByte_lines [OF assms(3)] chain_names_lines [OF assms(4,5)]
  by (simp add: ListChains_def executeList_def runWithOutput_def cmd_Run_def run_simps Let_def butlast_append)

theorem ListChains_listing_witness:
  "fst (run_state (ListChains (sample_os\<lparr>os_Run := \<lambda>p args b. ((Exited 0, concat (map (\<lambda>l. l @ [CHR 0x0A])
       [''-P INPUT ACCEPT'', ''-N user'', ''-A INPUT -j DROP'']), []), b)\<rparr>) sample_ipt ''filter'') sample_box) = Ok [''INPUT'', ''user'']"
proof -
  let ?K = "sample_os\<lparr>os_Run := \<lambda>p args b. ((Exited 0, concat (map (\<lambda>l. l @ [CHR 0x0A])
       [''-P INPUT ACCEPT'', ''-N user'', ''-A INPUT -j DROP'']), []), b)\<rparr>"
  have ls: "map chain_line [(''INPUT'', Some ''ACCEPT''), (''user'', None)] @ [''-A INPUT -j DROP''] =
      [''-P INPUT ACCEPT'', ''-N user'', ''-A INPUT -j DROP'']"
    by (simp add: chain_line_def)
  have "run_state (ListChains ?K sample_ipt ''filter'') sample_box = (Ok (map fst [(''INPUT'', Some ''ACCEPT''), (''user'', None)]), sample_box)"
    by (rule ListChains_listing [where rs = "[''-A INPUT -j DROP'']"], unfold ls)
      (simp_all add: plain_word_def is_space_def HasPrefix_def)
  then show ?thesis by simp
qed

end
