(* ===== verification/NetUtil.thy ===== *)
theory NetUtil
  imports SampleBox
begin

text \<open>
  The helpers on interfaces, routes and forwarding (\<^verbatim>\<open>src/netctrl/netutil.go\<close>).
\<close>

definition ErrDeviceExists :: error where
  "ErrDeviceExists = ErrorString ''interface with that name already exists''"

definition CreateNetBridge :: "'w os \<Rightarrow> string \<Rightarrow> IP \<Rightarrow> bytes \<Rightarrow> ('w, error, iface) go" where
  "CreateNetBridge K devName ip m0 =
     catch (syscall (os_InterfaceByName K devName))
       (\<lambda>_. throw ErrDeviceExists)
       (\<lambda>_. must (syscall (os_LinkAdd K devName)) (\<lambda>_.
             must (syscall (os_AddrAdd K devName \<lparr>net_IP = ip, net_Mask = m0\<rparr>)) (\<lambda>_.
             must (syscall (os_LinkSetUp K devName)) (\<lambda>_.
             syscall (os_InterfaceByName K devName)))))"

definition DeleteNetBridge :: "'w os \<Rightarrow> string \<Rightarrow> ('w, error, unit) go" where
  "DeleteNetBridge K devName = syscall (os_LinkDel K devName)"

fun link_name :: "nlink \<Rightarrow> string" where
  "link_name (BridgeLink n) = n"
| "link_name (OtherLink n) = n"

definition AttachNetBridge :: "'w os \<Rightarrow> iface \<Rightarrow> iface \<Rightarrow> ('w, error, unit) go" where
  "AttachNetBridge K bridge client =
     must (syscall (os_LinkByName K (if_Name bridge))) (\<lambda>bridgeLink.
     must (syscall (os_LinkByName K (if_Name client))) (\<lambda>clientLink.
       case bridgeLink of
         BridgeLink b \<Rightarrow> syscall (os_LinkSetMaster K (link_name clientLink) b)
       | OtherLink b \<Rightarrow> halt (Panic TypeAssertion)))"

definition RouteAddViaGatewayFromAddr :: "'w os \<Rightarrow> IPNet \<Rightarrow> IP \<Rightarrow> IP \<Rightarrow> ('w, error, unit) go" where
  "RouteAddViaGatewayFromAddr K destination source gateway = syscall (os_RouteAdd K destination source gateway 1337)"

definition SetInterfaceAddr :: "'w os \<Rightarrow> string \<Rightarrow> IPNet \<Rightarrow> ('w, error, unit) go" where
  "SetInterfaceAddr K iName addr =
     must (syscall (os_LinkByName K iName)) (\<lambda>intf. syscall (os_AddrAdd K (link_name intf) addr))"

definition IPv4ForwardingEnabled :: "'w os \<Rightarrow> ('w, error, bool) go" where
  "IPv4ForwardingEnabled K =
     must (syscall (os_ReadFile K ''/proc/sys/net/ipv4/ip_forward'')) (\<lambda>d.
       if length d \<noteq> 2 then throw (ErrorString (''expected single byte read, got '' @ dec_of_nat (length d)))
       else must (or_panic IndexOutOfRange (index d 0)) (\<lambda>b. ok (b = CHR ''1'')))"

definition IPv4EnableForwarding :: "'w os \<Rightarrow> bool \<Rightarrow> ('w, error, unit) go" where
  "IPv4EnableForwarding K state =
     syscall (os_WriteFile K ''/proc/sys/net/ipv4/ip_forward'' (if state then ''1'' else ''0''))"

text \<open>
  The statement that turns forwarding off, which SetVPN and the circuit breaker share: errors
  are only printed.
\<close>

definition disable_forwarding :: "'w os \<Rightarrow> ('w, error, unit) go" where
  "disable_forwarding K =
     catch (IPv4ForwardingEnabled K)
       (\<lambda>forwardingEnabled.
          if forwardingEnabled
          then catch (IPv4EnableForwarding K False) (\<lambda>_. ok ()) (\<lambda>err3. ok ())
          else ok ())
       (\<lambda>err2. ok ())"

subsection \<open>Forwarding\<close>

text \<open>
  The file of procfs that controls forwarding: it reads as one digit and a newline, and a write
  sets it. \<open>fwd\<close> tells whether the kernel forwards.
\<close>

definition procfs :: "'w os \<Rightarrow> ('w \<Rightarrow> bool) \<Rightarrow> bool" where
  "procfs K fwd \<longleftrightarrow>
     (\<forall>w. \<exists>w'. os_ReadFile K ip_forward_path w = (Inr ((if fwd w then ''1'' else ''0'') @ [CHR 0x0A]), w') \<and> fwd w' = fwd w)
   \<and> (\<forall>d w. \<exists>w'. os_WriteFile K ip_forward_path d w = (Inr (), w') \<and> fwd w' = (d = ''1''))"

lemma run_ForwardingEnabled:
  assumes "procfs K fwd"
  obtains w' where "run_state (IPv4ForwardingEnabled K) w = (Ok (fwd w), w')" and "fwd w' = fwd w"
proof -
  from assms obtain w' where "os_ReadFile K ip_forward_path w = (Inr ((if fwd w then ''1'' else ''0'') @ [CHR 0x0A]), w')"
    and "fwd w' = fwd w"
    unfolding procfs_def by blast
  then show ?thesis
    by (intro that [of w']; cases "fwd w")
      (simp_all add: IPv4ForwardingEnabled_def ip_forward_path_def run_simps index_def)
qed

lemma run_EnableForwarding:
  assumes "procfs K fwd"
  obtains w' where "run_state (IPv4EnableForwarding K b) w = (Ok (), w')" and "fwd w' = b"
proof -
  from assms obtain w' where "os_WriteFile K ip_forward_path (if b then ''1'' else ''0'') w = (Inr (), w')"
    and "fwd w' = ((if b then ''1'' else ''0'') = ''1'')"
    unfolding procfs_def by blast
  then show ?thesis
    by (intro that [of w']) (simp_all add: IPv4EnableForwarding_def ip_forward_path_def run_simps)
qed

lemma disable_forwarding_off:
  assumes "procfs K fwd"
  obtains w' where "run_state (disable_forwarding K) w = (Ok (), w')" and "\<not> fwd w'"
proof -
  from run_ForwardingEnabled [OF assms] obtain w1
    where w1: "run_state (IPv4ForwardingEnabled K) w = (Ok (fwd w), w1)" "fwd w1 = fwd w" .
  from run_EnableForwarding [OF assms] obtain w2
    where w2: "run_state (IPv4EnableForwarding K False) w1 = (Ok (), w2)" "fwd w2 = False" .
  show ?thesis
    using w1 w2 by (intro that [of "if fwd w then w2 else w1"]) (simp_all add: disable_forwarding_def run_simps)
qed

lemma procfs_sample: "procfs sample_os b_forward"
  by (simp add: procfs_def sample_os_def box_ReadFile_def box_WriteFile_def)

end
