(* ===== verification/Controller.thy ===== *)
theory Controller
  imports Hostapd Iptables NetUtil Dhcp4
begin

text \<open>
  The network controller (\<^verbatim>\<open>src/netctrl/main.go\<close>, \<^verbatim>\<open>src/netctrl/state.go\<close>): switching the VPN, the
  circuit breaker, hostapd, the firewall, start and shutdown. A method is a program on the pair
  of the controller and the world. Waiting in a \<^verbatim>\<open>select\<close> on two tickers consumes a list of
  ticks, one for each time the select fires, in the order in which the channels deliver; a wait
  that reaches the end of the list has not returned.
\<close>

subsection \<open>State\<close>

text \<open>\<^verbatim>\<open>exec.Cmd\<close>: the field Process is nil until Start has succeeded.\<close>

record Cmd =
  cmd_Args :: "string list"
  cmd_Process :: "int option"

record Controller =
  ct_shutdown :: bool
  ct_config :: Config
  bridgeInterface :: "iface option"
  bridgeAddr :: IP
  ct_subnet :: IPNet
  areMasquerading :: bool
  ct_ipt :: IPTables
  wlanAddr :: IP
  hostapdProc :: "Cmd option"
  lastAPState :: "APStatus option"
  vpnProc :: "Cmd option"
  vpnInterface :: "iface option"
  vpnAddr :: IP
  vpnConf :: "VPNOpt option"
  breakerUpdated :: nat
  breakerTripped :: bool

type_synonym ('w, 'a) ctl = "(Controller \<times> 'w, error, 'a) go"

datatype tick = Timeout | Checker

abbreviation getc :: "(Controller \<Rightarrow> 'a) \<Rightarrow> ('w, 'a) ctl" where
  "getc f \<equiv> gets (\<lambda>s. f (fst s))"

abbreviation setc :: "(Controller \<Rightarrow> Controller) \<Rightarrow> ('w, unit) ctl" where
  "setc f \<equiv> modify (\<lambda>s. (f (fst s), snd s))"

abbreviation sys :: "('w \<Rightarrow> (error + 'a) \<times> 'w) \<Rightarrow> ('w, 'a) ctl" where
  "sys f \<equiv> in_world (syscall f)"

definition newline :: string where
  "newline = [CHR 0x0A]"

definition tun_name :: "Controller \<Rightarrow> string" where
  "tun_name c = ''tun'' @ nw_InterfaceIdent (cf_Network (ct_config c))"

definition probe_addr :: IP where
  "probe_addr = [8, 8, 8, 8]"

subsection \<open>Killing a process\<close>

definition kill_proc :: "'w os \<Rightarrow> Cmd \<Rightarrow> ('w, error, unit) go" where
  "kill_proc K cmd =
     must (or_panic NilDereference (cmd_Process cmd)) (\<lambda>pid.
     must (syscall (os_FindProcess K pid)) (\<lambda>_.
     catch (syscall (os_Signal0 K pid))
       (\<lambda>_. catch (syscall (os_Kill K pid)) (\<lambda>_. ok ()) (\<lambda>_. ok ()))
       (\<lambda>_. ok ())))"

subsection \<open>Switching the VPN\<close>

fun wait_vpn_down :: "'w os \<Rightarrow> string \<Rightarrow> tick list \<Rightarrow> ('w, error, unit) go" where
  "wait_vpn_down K dev [] = halt Blocked"
| "wait_vpn_down K dev (Timeout # ts) = throw (ErrorString ''timeout waiting for VPN to shut down'')"
| "wait_vpn_down K dev (Checker # ts) =
     catch (syscall (os_InterfaceByName K dev)) (\<lambda>_. wait_vpn_down K dev ts) (\<lambda>err2. ok ())"

text \<open>The two later waits share their tickers: the first returns the ticks that are left.\<close>

fun wait_vpn_up :: "'w os \<Rightarrow> string \<Rightarrow> tick list \<Rightarrow> ('w, error, tick list) go" where
  "wait_vpn_up K dev [] = halt Blocked"
| "wait_vpn_up K dev (Timeout # ts) = throw (ErrorString ''timeout waiting for VPN to come up'')"
| "wait_vpn_up K dev (Checker # ts) =
     catch (syscall (os_InterfaceByName K dev)) (\<lambda>_. ok ts) (\<lambda>err2. wait_vpn_up K dev ts)"

fun wait_vpn_routes :: "'w os \<Rightarrow> int \<Rightarrow> tick list \<Rightarrow> ('w, error, unit) go" where
  "wait_vpn_routes K idx [] = halt Blocked"
| "wait_vpn_routes K idx (Timeout # ts) = throw (ErrorString ''timeout waiting for VPN to routes up'')"
| "wait_vpn_routes K idx (Checker # ts) =
     catch (syscall (os_RouteGet K probe_addr))
       (\<lambda>rts. must (or_panic IndexOutOfRange (index rts 0)) (\<lambda>li.
          if li \<noteq> idx then wait_vpn_routes K idx ts else ok ()))
       (\<lambda>err. wait_vpn_routes K idx ts)"

definition stop_vpn :: "'w os \<Rightarrow> tick list \<Rightarrow> ('w, unit) ctl" where
  "stop_vpn K down =
     must (getc vpnProc) (\<lambda>pr. case pr of
       None \<Rightarrow> ok ()
     | Some cmd \<Rightarrow>
         must (in_world (kill_proc K cmd)) (\<lambda>_.
         must (setc (\<lambda>c. c\<lparr>vpnProc := None, vpnInterface := None\<rparr>)) (\<lambda>_.
         must (getc tun_name) (\<lambda>dev. in_world (wait_vpn_down K dev down)))))"

definition vpn_args :: "Controller \<Rightarrow> VPNOpt \<Rightarrow> string \<Rightarrow> string list" where
  "vpn_args c vpn pw =
     [''openvpn'', ''--config'', vpn_Path vpn, ''--dev'', tun_name c, ''--auth-user-pass'', pw, ''--auth-nocache'']"

definition start_vpn :: "'w os \<Rightarrow> VPNOpt \<Rightarrow> string \<Rightarrow> ('w, unit) ctl" where
  "start_vpn K vpn pw =
     must (getc (\<lambda>c. vpn_args c vpn pw)) (\<lambda>args.
     must (setc (\<lambda>c. c\<lparr>vpnProc := Some \<lparr>cmd_Args = args, cmd_Process = None\<rparr>\<rparr>)) (\<lambda>_.
     must (sys (os_Start K args)) (\<lambda>pid.
     setc (\<lambda>c. c\<lparr>vpnProc := Some \<lparr>cmd_Args = args, cmd_Process = Some pid\<rparr>\<rparr>))))"

definition find_vpn :: "'w os \<Rightarrow> ('w, iface) ctl" where
  "find_vpn K =
     must (getc tun_name) (\<lambda>dev.
     catch (sys (os_InterfaceByName K dev))
       (\<lambda>i. must (setc (\<lambda>c. c\<lparr>vpnInterface := Some i\<rparr>)) (\<lambda>_.
             must (sys (os_Addrs K i)) (\<lambda>addrs.
             if length addrs < 1 then throw (ErrorString ''expected at least one address assigned to VPN'')
             else (case hd addrs of
                     IPNetAddr n \<Rightarrow> must (setc (\<lambda>c. c\<lparr>vpnAddr := net_IP n\<rparr>)) (\<lambda>_. ok i)
                   | OtherAddr \<Rightarrow> halt (Panic TypeAssertion)))))
       (\<lambda>err. must (setc (\<lambda>c. c\<lparr>vpnInterface := None\<rparr>)) (\<lambda>_. throw err)))"

definition SetVPN :: "'w os \<Rightarrow> tick list \<Rightarrow> tick list \<Rightarrow> VPNOpt \<Rightarrow> ('w, unit) ctl" where
  "SetVPN K down up vpn =
     must (in_world (disable_forwarding K)) (\<lambda>_.
     must (stop_vpn K down) (\<lambda>_.
     must (setc (\<lambda>c. c\<lparr>vpnConf := Some vpn\<rparr>)) (\<lambda>_.
     must (sys (os_TempFile K)) (\<lambda>pw.
     must (sys (os_FileWrite K pw (vpn_Username vpn @ newline @ vpn_Password vpn))) (\<lambda>_.
     must (sys (os_FileClose K pw)) (\<lambda>_.
     with_defer (sys (os_Remove K pw))
       (must (start_vpn K vpn pw) (\<lambda>_.
        must (getc tun_name) (\<lambda>dev.
        must (in_world (wait_vpn_up K dev up)) (\<lambda>ts.
        must (find_vpn K) (\<lambda>i.
        must (in_world (wait_vpn_routes K (if_Index i) ts)) (\<lambda>_.
        in_world (IPv4EnableForwarding K True)))))))))))))"

subsection \<open>The circuit breaker\<close>

text \<open>
  One tick of the routine. The guard is read before the lock is taken; the rest runs under the
  lock that SetVPN also holds.
\<close>

definition breaker_armed :: "Controller \<Rightarrow> bool" where
  "breaker_armed c \<longleftrightarrow> vpnInterface c \<noteq> None \<and> \<not> breakerTripped c"

definition breaker_locked :: "'w os \<Rightarrow> ('w, unit) ctl" where
  "breaker_locked K =
     catch (sys (os_RouteGet K probe_addr))
       (\<lambda>rts.
          must (or_panic IndexOutOfRange (index rts 0)) (\<lambda>li.
          must (getc vpnInterface) (\<lambda>vi.
          must (or_panic NilDereference vi) (\<lambda>i.
          if li \<noteq> if_Index i then
            must (setc (\<lambda>c. c\<lparr>breakerTripped := True\<rparr>)) (\<lambda>_.
            must (in_world (syscall_total (os_Now K))) (\<lambda>t.
            must (setc (\<lambda>c. c\<lparr>breakerUpdated := t\<rparr>)) (\<lambda>_.
            in_world (disable_forwarding K))))
          else ok ()))))
       (\<lambda>err. ok ())"

definition breaker_idle :: "'w os \<Rightarrow> ('w, unit) ctl" where
  "breaker_idle K = must (in_world (syscall_total (os_Now K))) (\<lambda>t. setc (\<lambda>c. c\<lparr>breakerUpdated := t\<rparr>))"

definition breaker_tick :: "'w os \<Rightarrow> ('w, unit) ctl" where
  "breaker_tick K = must (getc breaker_armed) (\<lambda>armed. if armed then breaker_locked K else breaker_idle K)"

text \<open>
  The routine, on the sequence of events its select receives. Receiving from the shutdown
  channel is possible once it is closed; when the ticker is ready too, either may be chosen.
\<close>

datatype routine_event = Tick | Shutdown

fun circuitBreakerRoutine :: "'w os \<Rightarrow> routine_event list \<Rightarrow> ('w, unit) ctl" where
  "circuitBreakerRoutine K [] = halt Blocked"
| "circuitBreakerRoutine K (Tick # es) = must (breaker_tick K) (\<lambda>_. circuitBreakerRoutine K es)"
| "circuitBreakerRoutine K (Shutdown # es) =
     must (getc ct_shutdown) (\<lambda>closed. if closed then ok () else circuitBreakerRoutine K es)"

subsection \<open>Hostapd\<close>

definition hostapd_socket :: "Controller \<Rightarrow> string" where
  "hostapd_socket c = ''/var/run/hostapd/'' @ wl_Interface (wireless (ct_config c))"

fun wait_hostapd :: "'w os \<Rightarrow> int \<Rightarrow> string \<Rightarrow> tick list \<Rightarrow> ('w, error, unit) go" where
  "wait_hostapd K pid sock [] = halt Blocked"
| "wait_hostapd K pid sock (Timeout # ts) = throw (ErrorString ''timeout waiting for hostapd to come up'')"
| "wait_hostapd K pid sock (Checker # ts) =
     must (syscall (os_FindProcess K pid)) (\<lambda>_.
     catch (syscall (os_Signal0 K pid))
       (\<lambda>_. catch (Query K sock ''STATUS'')
              (\<lambda>resp. if Contains resp ''state=ENABLED'' then ok () else wait_hostapd K pid sock ts)
              (\<lambda>err. wait_hostapd K pid sock ts))
       (\<lambda>_. throw (ErrorString ''hostapd has stopped'')))"

definition masquerade_rule :: "Controller \<Rightarrow> string list" where
  "masquerade_rule c =
     [''-m'', ''physdev'', ''--physdev-in'', wl_Interface (wireless (ct_config c)), ''-j'', ''MASQUERADE'']"

definition startHostapd :: "'w os \<Rightarrow> tick list \<Rightarrow> ('w, unit) ctl" where
  "startHostapd K ts =
     must (sys (os_TempFile K)) (\<lambda>pw.
     must (getc (\<lambda>c. GenerateConfig (ct_config c))) (\<lambda>conf.
     must (sys (os_FileWrite K pw conf)) (\<lambda>_.
     must (sys (os_FileClose K pw)) (\<lambda>_.
     with_defer (sys (os_Remove K pw))
       (must (setc (\<lambda>c. c\<lparr>hostapdProc := Some \<lparr>cmd_Args = [''hostapd'', ''-dd'', pw], cmd_Process = None\<rparr>\<rparr>)) (\<lambda>_.
        must (sys (os_Start K [''hostapd'', ''-dd'', pw])) (\<lambda>pid.
        must (setc (\<lambda>c. c\<lparr>hostapdProc := Some \<lparr>cmd_Args = [''hostapd'', ''-dd'', pw], cmd_Process = Some pid\<rparr>\<rparr>)) (\<lambda>_.
        must (getc hostapd_socket) (\<lambda>sock.
        must (in_world (wait_hostapd K pid sock ts)) (\<lambda>_.
        must (getc (\<lambda>c. (ct_ipt c, masquerade_rule c))) (\<lambda>(ipt, rule).
        must (in_world (AppendUnique K ipt ''nat'' ''POSTROUTING'' rule)) (\<lambda>_.
        setc (\<lambda>c. c\<lparr>areMasquerading := True\<rparr>)))))))))))))"

definition hostapdStatus_tick :: "'w os \<Rightarrow> ('w, unit) ctl" where
  "hostapdStatus_tick K =
     must (getc (\<lambda>c. (hostapdProc c, hostapd_socket c))) (\<lambda>(pr, sock).
       if pr = None then ok ()
       else catch (in_world (QueryStatus K sock))
              (\<lambda>resp. setc (\<lambda>c. c\<lparr>lastAPState := Some resp\<rparr>))
              (\<lambda>err. ok ()))"

fun hostapdStatusRoutine :: "'w os \<Rightarrow> routine_event list \<Rightarrow> ('w, unit) ctl" where
  "hostapdStatusRoutine K [] = halt Blocked"
| "hostapdStatusRoutine K (Tick # es) = must (hostapdStatus_tick K) (\<lambda>_. hostapdStatusRoutine K es)"
| "hostapdStatusRoutine K (Shutdown # es) =
     must (getc ct_shutdown) (\<lambda>closed. if closed then ok () else hostapdStatusRoutine K es)"

subsection \<open>The firewall\<close>

definition port_rule :: "string \<Rightarrow> string \<Rightarrow> int \<Rightarrow> string list" where
  "port_rule subnet proto port =
     [''-s'', subnet, ''-p'', proto, ''--destination-port'', Itoa port, ''-j'', ''DROP'']"

definition subnet_rule :: "string \<Rightarrow> string \<Rightarrow> string list" where
  "subnet_rule subnet dest = [''-s'', subnet, ''-d'', dest, ''-j'', ''DROP'']"

fun block_ports :: "'w os \<Rightarrow> IPTables \<Rightarrow> string \<Rightarrow> int list \<Rightarrow> ('w, error, unit) go" where
  "block_ports K ipt subnet [] = ok ()"
| "block_ports K ipt subnet (port # ports) =
     must (AppendUnique K ipt ''filter'' ''INPUT'' (port_rule subnet ''tcp'' port)) (\<lambda>_.
     must (AppendUnique K ipt ''filter'' ''INPUT'' (port_rule subnet ''udp'' port)) (\<lambda>_.
     block_ports K ipt subnet ports))"

fun block_subnets :: "'w os \<Rightarrow> IPTables \<Rightarrow> string \<Rightarrow> string list \<Rightarrow> ('w, error, unit) go" where
  "block_subnets K ipt subnet [] = ok ()"
| "block_subnets K ipt subnet (dest # dests) =
     must (AppendUnique K ipt ''filter'' ''FORWARD'' (subnet_rule subnet dest)) (\<lambda>_.
     block_subnets K ipt subnet dests)"

definition setupFirewall :: "'w os \<Rightarrow> ('w, unit) ctl" where
  "setupFirewall K =
     must (getc id) (\<lambda>c.
     let subnet = nw_Subnet (cf_Network (ct_config c)); fw = cf_Firewall (ct_config c) in
     must (in_world (block_ports K (ct_ipt c) subnet (fw_VPNBoxBlockedPorts fw))) (\<lambda>_.
     in_world (block_subnets K (ct_ipt c) subnet (fw_BlockedSubnets fw))))"

subsection \<open>Start and shutdown\<close>

text \<open>A program of the controller, started on a given controller.\<close>

definition run_ctl :: "Controller \<Rightarrow> ('w, 'a) ctl \<Rightarrow> ('w, error, 'a \<times> Controller) go" where
  "run_ctl c m = State (\<lambda>w. case run_state m (c, w) of
       (Ok x, (c', w')) \<Rightarrow> (Ok (x, c'), w') | (Stop e, (c', w')) \<Rightarrow> (Stop e, w'))"

definition or_delete_bridge :: "'w os \<Rightarrow> string \<Rightarrow> ('w, error, 'a) go \<Rightarrow> ('w, error, 'a) go" where
  "or_delete_bridge K name m =
     catch m ok (\<lambda>err. catch (DeleteNetBridge K name) (\<lambda>_. throw err) (\<lambda>_. throw err))"

definition new_controller :: "Config \<Rightarrow> IPTables \<Rightarrow> Controller" where
  "new_controller cf ipt =
     \<lparr>ct_shutdown = False, ct_config = cf, bridgeInterface = None, bridgeAddr = [],
      ct_subnet = \<lparr>net_IP = [], net_Mask = []\<rparr>, areMasquerading = False, ct_ipt = ipt, wlanAddr = [],
      hostapdProc = None, lastAPState = None, vpnProc = None, vpnInterface = None, vpnAddr = [],
      vpnConf = None, breakerUpdated = 0, breakerTripped = False\<rparr>"

definition NewController :: "'w os \<Rightarrow> tick list \<Rightarrow> Config \<Rightarrow> ('w, error, Controller) go" where
  "NewController K ts cf =
     must (iptables_New K) (\<lambda>ipt.
     must (of_sum (case ParseCIDR (nw_Subnet (cf_Network cf)) of
             None \<Rightarrow> Inl (ErrorString (''invalid CIDR address: '' @ nw_Subnet (cf_Network cf)))
           | Some r \<Rightarrow> Inr r)) (\<lambda>(ip, net).
     must (CreateNetBridge K (''br'' @ nw_InterfaceIdent (cf_Network cf)) ip (net_Mask net)) (\<lambda>br.
     must (or_panic IndexOutOfRange (IPAdd ip 1)) (\<lambda>wlan.
     let ctr = (new_controller cf ipt)\<lparr>bridgeAddr := ip, ct_subnet := net, bridgeInterface := Some br, wlanAddr := wlan\<rparr> in
     must (or_delete_bridge K (if_Name br)
             (if wl_Interface (wireless cf) \<noteq> []
              then SetInterfaceAddr K (wl_Interface (wireless cf)) \<lparr>net_IP = wlan, net_Mask = net_Mask net\<rparr>
              else ok ())) (\<lambda>_.
     must (or_delete_bridge K (if_Name br) (run_ctl ctr (setupFirewall K))) (\<lambda>(_, ctr).
     must (or_delete_bridge K (if_Name br) (run_ctl ctr (startHostapd K ts))) (\<lambda>(_, ctr).
     ok ctr)))))))"

definition kill_if :: "'w os \<Rightarrow> Cmd option \<Rightarrow> ('w, error, unit) go" where
  "kill_if K pr = (case pr of None \<Rightarrow> ok () | Some cmd \<Rightarrow> kill_proc K cmd)"

definition Close :: "'w os \<Rightarrow> ('w, unit) ctl" where
  "Close K =
     must (getc id) (\<lambda>c.
     if ct_shutdown c then halt (Panic ClosedChannel)
     else
       must (setc (\<lambda>c. c\<lparr>ct_shutdown := True\<rparr>)) (\<lambda>_.
       must (in_world (kill_if K (vpnProc c))) (\<lambda>_.
       must (in_world (kill_if K (hostapdProc c))) (\<lambda>_.
       must (if areMasquerading c
             then in_world (ipt_Delete K (ct_ipt c) ''nat'' ''POSTROUTING'' (masquerade_rule c))
             else ok ()) (\<lambda>_.
       must (or_panic NilDereference (bridgeInterface c)) (\<lambda>br.
       in_world (DeleteNetBridge K (if_Name br))))))))"

subsection \<open>The reported state\<close>

record ControllerState =
  st_Tripped :: bool
  st_Updated :: nat
  st_Configured :: bool
  st_VPNName :: string
  st_Icon :: string
  st_Subnet :: string
  st_SSID :: string
  st_AP :: "APStatus option"

definition GetState :: "Controller \<Rightarrow> ControllerState option" where
  "GetState c = do {
     v \<leftarrow> vpnConf c;
     Some \<lparr>st_Tripped = breakerTripped c, st_Updated = breakerUpdated c, st_Configured = (vpnInterface c \<noteq> None),
       st_VPNName = vpn_Name v, st_Icon = vpn_Icon v, st_Subnet = IPNet_String (ct_subnet c),
       st_SSID = wl_SSID (wireless (ct_config c)), st_AP = lastAPState c\<rparr>
   }"

subsection \<open>What the kernel keeps\<close>

text \<open>
  \<open>quiet K obs\<close>: none of the calls that SetVPN and the breaker make changes the observation,
  writing the forwarding file apart. \<open>routing K via\<close>: a route lookup that succeeds shows the
  interface that carries the traffic, which neither removing a file nor writing the forwarding
  file changes.
\<close>

definition quiet :: "'w os \<Rightarrow> ('w \<Rightarrow> 'o) \<Rightarrow> bool" where
  "quiet K obs \<longleftrightarrow> (\<forall>w.
     obs (snd (os_TempFile K w)) = obs w
   \<and> (\<forall>f d. obs (snd (os_FileWrite K f d w)) = obs w)
   \<and> (\<forall>f. obs (snd (os_FileClose K f w)) = obs w)
   \<and> (\<forall>f. obs (snd (os_Remove K f w)) = obs w)
   \<and> (\<forall>a. obs (snd (os_Start K a w)) = obs w)
   \<and> (\<forall>p. obs (snd (os_FindProcess K p w)) = obs w)
   \<and> (\<forall>p. obs (snd (os_Signal0 K p w)) = obs w)
   \<and> (\<forall>p. obs (snd (os_Kill K p w)) = obs w)
   \<and> (\<forall>n. obs (snd (os_InterfaceByName K n w)) = obs w)
   \<and> (\<forall>i. obs (snd (os_Addrs K i w)) = obs w)
   \<and> (\<forall>a. obs (snd (os_RouteGet K a w)) = obs w)
   \<and> obs (snd (os_Now K w)) = obs w)"

definition routing :: "'w os \<Rightarrow> ('w \<Rightarrow> int option) \<Rightarrow> bool" where
  "routing K via \<longleftrightarrow>
     (\<forall>w li r w'. os_RouteGet K probe_addr w = (Inr (li # r), w') \<longrightarrow> via w' = Some li)
   \<and> (\<forall>d w. via (snd (os_WriteFile K ip_forward_path d w)) = via w)
   \<and> (\<forall>f w. via (snd (os_Remove K f w)) = via w)"

lemma quiet_sample: "quiet sample_os b_forward"
  by (auto simp: quiet_def sample_os_def box_Start_def box_Signal0_def box_Kill_def box_InterfaceByName_def
      box_Addrs_def split: list.splits option.splits)

lemma routing_sample: "routing sample_os (\<lambda>b. case b_route b of [] \<Rightarrow> None | li # _ \<Rightarrow> Some li)"
  by (simp add: routing_def sample_os_def box_WriteFile_def)

lemma quiet_comp: "quiet K obs \<Longrightarrow> quiet K (\<lambda>w. f (obs w))"
  by (simp add: quiet_def)

lemma quiet_keeps:
  assumes "quiet K I"
  shows "keeps I (syscall (os_TempFile K))" "keeps I (syscall (os_FileWrite K f d))"
    "keeps I (syscall (os_FileClose K f))" "keeps I (syscall (os_Remove K f))"
    "keeps I (syscall (os_Start K a))" "keeps I (syscall (os_FindProcess K p))"
    "keeps I (syscall (os_Signal0 K p))" "keeps I (syscall (os_Kill K p))"
    "keeps I (syscall (os_InterfaceByName K n))" "keeps I (syscall (os_Addrs K i))"
    "keeps I (syscall (os_RouteGet K ip))" "keeps I (syscall_total (os_Now K))"
  using assms unfolding quiet_def by (auto intro!: keeps_syscall keeps_syscall_total)

lemma wait_keeps:
  assumes q: "quiet K I"
  shows "keeps I (wait_vpn_down K dev ts)" "keeps I (wait_vpn_up K dev ts)"
    "keeps I (wait_vpn_routes K idx ts)"
proof -
  show "keeps I (wait_vpn_down K dev ts)"
    using q by (induction K dev ts rule: wait_vpn_down.induct) (auto intro!: keeps_intro quiet_keeps)
  show "keeps I (wait_vpn_up K dev ts)"
    using q by (induction K dev ts rule: wait_vpn_up.induct) (auto intro!: keeps_intro quiet_keeps)
  show "keeps I (wait_vpn_routes K idx ts)"
    using q by (induction K idx ts rule: wait_vpn_routes.induct) (auto intro!: keeps_intro quiet_keeps)
qed

lemma kill_proc_keeps: "quiet K I \<Longrightarrow> keeps I (kill_proc K cmd)"
  unfolding kill_proc_def by (intro keeps_intro quiet_keeps)

lemmas world_keeps = quiet_keeps wait_keeps kill_proc_keeps


lemma stop_vpn_keeps: "quiet K I \<Longrightarrow> keeps (\<lambda>s. I (snd s)) (stop_vpn K down)"
  unfolding stop_vpn_def by (intro keeps_intro keeps_in_world) (simp_all add: world_keeps)

lemma start_vpn_keeps: "quiet K I \<Longrightarrow> keeps (\<lambda>s. I (snd s)) (start_vpn K vpn pw)"
  unfolding start_vpn_def by (intro keeps_intro keeps_in_world) (simp_all add: world_keeps)

lemma find_vpn_keeps: "quiet K I \<Longrightarrow> keeps (\<lambda>s. I (snd s)) (find_vpn K)"
  unfolding find_vpn_def
  by (intro keeps_intro keeps_in_world) (auto simp: world_keeps split: netaddr.splits intro!: keeps_intro)


text \<open>The controller fields that a step leaves alone.\<close>

lemma in_world_keeps_fst: "keeps (\<lambda>s. I (fst s)) (in_world m)"
  by (rule keeps_in_world) (simp add: keeps_def)

lemma find_vpn_result: "triple (\<lambda>s. vpnConf (fst s) = v) (find_vpn K)
    (\<lambda>i s. vpnConf (fst s) = v \<and> vpnInterface (fst s) = Some i) (\<lambda>_ _. True)"
proof (rule tripleI)
  fix s :: "Controller \<times> 'a" assume v: "vpnConf (fst s) = v"
  obtain c w where s: "s = (c, w)" by (cases s)
  show "case run_state (find_vpn K) s of (Ok i, s') \<Rightarrow> vpnConf (fst s') = v \<and> vpnInterface (fst s') = Some i | (Stop e, s') \<Rightarrow> True"
    using v unfolding s
    by (auto simp: find_vpn_def run_simps split: prod.splits sum.splits outcome.splits netaddr.splits)
qed

lemma wait_routes_result:
  "routing K via \<Longrightarrow> run_state (wait_vpn_routes K idx ts) w = (Ok (), w') \<Longrightarrow> via w' = Some idx"
proof (induction K idx ts arbitrary: w rule: wait_vpn_routes.induct)
  case (3 K idx ts)
  show ?case
  proof (cases "os_RouteGet K probe_addr w")
    case (Pair r w1)
    show ?thesis
    proof (cases r)
      case (Inl e)
      with 3 Pair show ?thesis by (simp add: run_simps)
    next
      case (Inr rts)
      with 3(4) Pair obtain li r' where rts: "rts = li # r'"
        by (cases rts) (auto simp: run_simps index_def)
      with 3 Pair Inr show ?thesis
        by (cases "li = idx") (auto simp: run_simps index_def routing_def)
    qed
  qed
qed (simp_all add: run_simps)

subsection \<open>Forwarding under SetVPN\<close>

definition forwarding :: "'w os \<Rightarrow> ('w \<Rightarrow> bool) \<Rightarrow> bool" where
  "forwarding K fwd \<longleftrightarrow> procfs K fwd \<and> quiet K fwd"

lemma forwarding_sample: "forwarding sample_os b_forward"
  by (simp add: forwarding_def procfs_sample quiet_sample)

lemma forwarding_procfs: "forwarding K fwd \<Longrightarrow> procfs K fwd"
  and forwarding_quiet: "forwarding K fwd \<Longrightarrow> quiet K (\<lambda>w. \<not> fwd w)"
  by (auto simp: forwarding_def quiet_comp)

lemma disable_triple:
  assumes "forwarding K fwd"
  shows "triple (\<lambda>s. A (fst s)) (in_world (disable_forwarding K)) (\<lambda>_ s. \<not> fwd (snd s) \<and> A (fst s)) (\<lambda>_ _. False)"
proof (rule tripleI)
  fix s :: "'b \<times> 'a" assume "A (fst s)"
  moreover obtain w' where "run_state (disable_forwarding K) (snd s) = (Ok (), w')" "\<not> fwd w'"
    by (rule disable_forwarding_off [OF forwarding_procfs [OF assms]])
  ultimately show "case run_state (in_world (disable_forwarding K)) s of
      (Ok _, s) \<Rightarrow> \<not> fwd (snd s) \<and> A (fst s) | (Stop _, _) \<Rightarrow> False"
    by (cases s) (simp add: run_simps)
qed

lemma enable_triple:
  assumes "forwarding K fwd" and "routing K via"
  shows "triple (\<lambda>s. A (fst s) \<and> via (snd s) = x) (in_world (IPv4EnableForwarding K True))
     (\<lambda>_ s. fwd (snd s) \<and> A (fst s) \<and> via (snd s) = x) (\<lambda>_ _. False)"
proof (rule tripleI)
  fix s :: "'b \<times> 'a" assume A: "A (fst s) \<and> via (snd s) = x"
  obtain w' where w': "run_state (IPv4EnableForwarding K True) (snd s) = (Ok (), w')" "fwd w' = True"
    by (rule run_EnableForwarding [OF forwarding_procfs [OF assms(1)]])
  have "w' = snd (os_WriteFile K ip_forward_path ''1'' (snd s))"
    using w'(1) by (auto simp: IPv4EnableForwarding_def ip_forward_path_def run_simps split: prod.splits sum.splits)
  then have "via w' = via (snd s)" using assms(2) by (simp add: routing_def)
  with A w' show "case run_state (in_world (IPv4EnableForwarding K True)) s of
      (Ok _, s) \<Rightarrow> fwd (snd s) \<and> A (fst s) \<and> via (snd s) = x | (Stop _, _) \<Rightarrow> False"
    by (cases s) (simp add: run_simps)
qed

lemma start_vpn_keeps_conf: "keeps (\<lambda>s. vpnConf (fst s) = v) (start_vpn K vpn pw)"
  unfolding start_vpn_def by (intro keeps_intro in_world_keeps_fst) simp_all

text \<open>
  From the start of openvpn to forwarding: while this part runs forwarding stays off, and when
  it returns the device of the VPN is known, carries the traffic, and forwarding is on.
\<close>

definition connected :: "VPNOpt \<Rightarrow> ('w \<Rightarrow> int option) \<Rightarrow> Controller \<times> 'w \<Rightarrow> bool" where
  "connected vpn via s \<longleftrightarrow> vpnConf (fst s) = Some vpn
     \<and> (\<exists>i. vpnInterface (fst s) = Some i \<and> via (snd s) = Some (if_Index i))"

lemma connect_triple:
  assumes fw: "forwarding K fwd" and rt: "routing K via"
  shows "triple (\<lambda>s. \<not> fwd (snd s) \<and> vpnConf (fst s) = Some vpn)
     (must (start_vpn K vpn pw) (\<lambda>_.
      must (getc tun_name) (\<lambda>dev.
      must (in_world (wait_vpn_up K dev up)) (\<lambda>ts.
      must (find_vpn K) (\<lambda>i.
      must (in_world (wait_vpn_routes K (if_Index i) ts)) (\<lambda>_.
      in_world (IPv4EnableForwarding K True)))))))
     (\<lambda>_ s. fwd (snd s) \<and> connected vpn via s) (\<lambda>_ s. \<not> fwd (snd s))"
proof -
  note q = forwarding_quiet [OF fw]
  let ?A = "\<lambda>s :: Controller \<times> 'a. \<not> fwd (snd s) \<and> vpnConf (fst s) = Some vpn"
  let ?E = "\<lambda>(_ :: error stop) (s :: Controller \<times> 'a). \<not> fwd (snd s)"
  let ?Q = "\<lambda>_ s. fwd (snd s) \<and> connected vpn via s"
  have keep: "triple ?A m (\<lambda>_. ?A) ?E" if "keeps (\<lambda>s. \<not> fwd (snd s)) m" and "keeps (\<lambda>s. vpnConf (fst s) = Some vpn) m"
    for m :: "('a, 'z) ctl"
    by (rule triple_conseq [OF iffD1 [OF keeps_triple keeps_conj [OF that]]]) auto
  have start: "triple ?A (start_vpn K vpn pw) (\<lambda>_. ?A) ?E"
    by (intro keep start_vpn_keeps [OF q] start_vpn_keeps_conf)
  have dev: "triple ?A (getc tun_name) (\<lambda>_. ?A) ?E"
    by (intro keep keeps_gets)
  have up: "triple ?A (in_world (wait_vpn_up K dev up)) (\<lambda>_. ?A) ?E" for dev
    by (intro keep in_world_keeps_fst keeps_in_world) (simp add: world_keeps [OF q])
  have find: "triple ?A (find_vpn K) (\<lambda>i s. \<not> fwd (snd s) \<and> vpnConf (fst s) = Some vpn \<and> vpnInterface (fst s) = Some i) ?E"
    by (rule triple_conseq [OF triple_frame [OF find_vpn_result [of "Some vpn" K] find_vpn_keeps [OF q]]]) auto
  have routes: "triple (\<lambda>s. \<not> fwd (snd s) \<and> vpnConf (fst s) = Some vpn \<and> vpnInterface (fst s) = Some i)
      (in_world (wait_vpn_routes K (if_Index i) ts))
      (\<lambda>_ s. (vpnConf (fst s) = Some vpn \<and> vpnInterface (fst s) = Some i) \<and> via (snd s) = Some (if_Index i)) ?E" for i ts
  proof (rule triple_in_world, rule tripleI)
    fix c w assume a: "\<not> fwd (snd (c, w)) \<and> vpnConf (fst (c, w)) = Some vpn \<and> vpnInterface (fst (c, w)) = Some i"
    have "\<not> fwd (snd (run_state (wait_vpn_routes K (if_Index i) ts) w))"
      using wait_keeps(3) [OF q] a by (simp add: keeps_def)
    with a wait_routes_result [OF rt, of "if_Index i" ts w]
    show "case run_state (wait_vpn_routes K (if_Index i) ts) w of
        (Ok _, w) \<Rightarrow> (vpnConf (fst (c, w)) = Some vpn \<and> vpnInterface (fst (c, w)) = Some i) \<and> via (snd (c, w)) = Some (if_Index i)
      | (Stop e, w) \<Rightarrow> \<not> fwd (snd (c, w))"
      by (auto split: prod.splits outcome.splits)
  qed
  have enable: "triple (\<lambda>s. (vpnConf (fst s) = Some vpn \<and> vpnInterface (fst s) = Some i) \<and> via (snd s) = Some (if_Index i))
      (in_world (IPv4EnableForwarding K True)) ?Q ?E" for i
    by (rule triple_conseq [OF enable_triple [OF fw rt, where A = "\<lambda>c. vpnConf c = Some vpn \<and> vpnInterface c = Some i" and x = "Some (if_Index i)"]])
      (auto simp: connected_def)
  show ?thesis
    by (intro triple_must [OF start] triple_must [OF dev] triple_must [OF up] triple_must [OF find] triple_must [OF routes] enable)
qed


lemma stop_vpn_triple:
  assumes "quiet K (\<lambda>w. \<not> fwd w)"
  shows "triple (\<lambda>s. \<not> fwd (snd s)) (stop_vpn K down) (\<lambda>_ s. \<not> fwd (snd s)) (\<lambda>_ s. \<not> fwd (snd s))"
  using stop_vpn_keeps [OF assms] by (simp add: keeps_triple)

lemma SetVPN_triple:
  assumes fw: "forwarding K fwd" and rt: "routing K via"
  shows "triple (\<lambda>_. True) (SetVPN K down up vpn) (\<lambda>_ s. fwd (snd s) \<and> connected vpn via s) (\<lambda>_ s. \<not> fwd (snd s))"
proof -
  note q = forwarding_quiet [OF fw]
  let ?N = "\<lambda>s :: Controller \<times> 'a. \<not> fwd (snd s)"
  let ?A = "\<lambda>s :: Controller \<times> 'a. \<not> fwd (snd s) \<and> vpnConf (fst s) = Some vpn"
  let ?Q = "\<lambda>_ s. fwd (snd s) \<and> connected vpn via s"
  have off: "triple (\<lambda>_. True) (in_world (disable_forwarding K)) (\<lambda>_. ?N) (\<lambda>_. ?N)"
    by (rule triple_conseq [OF disable_triple [OF fw, where A = "\<lambda>_. True"]]) auto
  have conf: "triple ?N (setc (\<lambda>c. c\<lparr>vpnConf := Some vpn\<rparr>)) (\<lambda>_. ?A) (\<lambda>_. ?N)"
    by (rule triple_modify) simp
  have io: "triple ?A (sys f) (\<lambda>_. ?A) (\<lambda>_. ?N)" if "keeps (\<lambda>w. \<not> fwd w) (syscall f)" for f :: "'a \<Rightarrow> (error + 'z) \<times> 'a"
    by (rule triple_conseq [OF iffD1 [OF keeps_triple keeps_conj [OF keeps_in_world in_world_keeps_fst [of "\<lambda>c. vpnConf c = Some vpn"]]]])
      (auto simp: that)
  have rm: "fwd (snd (os_Remove K f w)) = fwd w" "via (snd (os_Remove K f w)) = via w" for f w
    using fw rt by (simp_all add: forwarding_def quiet_def routing_def)
  have body: "triple ?A (with_defer (sys (os_Remove K pw)) (must (start_vpn K vpn pw) (\<lambda>_.
      must (getc tun_name) (\<lambda>dev.
      must (in_world (wait_vpn_up K dev up)) (\<lambda>ts.
      must (find_vpn K) (\<lambda>i.
      must (in_world (wait_vpn_routes K (if_Index i) ts)) (\<lambda>_.
      in_world (IPv4EnableForwarding K True)))))))) ?Q (\<lambda>_. ?N)" for pw
    by (rule triple_defer [OF connect_triple [OF fw rt]])
      (auto simp: snd_run_in_world snd_run_syscall rm connected_def)
  show ?thesis
    unfolding SetVPN_def
    by (intro triple_must [OF off] triple_must [OF stop_vpn_triple [OF q]] triple_must [OF conf]
        triple_must [OF io] body) (simp_all add: world_keeps [OF q])
qed

text \<open>
  C1 (SetVPN_safe): SetVPN never leaves traffic forwarded outside the VPN. When it returns
  without error forwarding is on, the new VPN is the configured one, and the traffic is carried
  by its interface; at every other end (an error, a panic, or while it waits) forwarding is off.
\<close>

theorem SetVPN_safe:
  assumes "forwarding K fwd" and "routing K via"
  shows "case run_state (SetVPN K down up vpn) (c, w) of
      (Ok _, (c', w')) \<Rightarrow> fwd w' \<and> vpnConf c' = Some vpn
         \<and> (\<exists>i. vpnInterface c' = Some i \<and> via w' = Some (if_Index i))
    | (Stop _, (c', w')) \<Rightarrow> \<not> fwd w'"
proof -
  note t = SetVPN_triple [OF assms, of down up vpn]
  obtain r s' where "run_state (SetVPN K down up vpn) (c, w) = (r, s')" by (meson surj_pair)
  then show ?thesis
    by (cases r; cases s') (auto simp: connected_def dest: triple_Ok [OF t TrueI] triple_Stop [OF t TrueI])
qed

definition sample_vpn :: VPNOpt where
  "sample_vpn = \<lparr>vpn_Name = ''us'', vpn_Path = ''us.ovpn'', vpn_Icon = ''flag'', vpn_Username = ''u'', vpn_Password = ''p''\<rparr>"

definition sample_ctl :: Controller where
  "sample_ctl = new_controller sample_config sample_ipt"

lemmas sample_eval = run_simps sample_os_def box_ReadFile_def box_WriteFile_def box_Start_def box_Signal0_def box_Kill_def
  box_InterfaceByName_def box_Addrs_def ip_forward_path_def index_def

lemma sample_tun: "ct_config c = sample_config \<Longrightarrow> tun_name c = ''tunvpn''"
  by (simp add: tun_name_def sample_config_def)

lemma sample_SetVPN_first:
  assumes c: "ct_config c = sample_config" "vpnProc c = None"
    and b: "b_ifs b = [(''wlan0'', 3, [])]" "b_alive b = []"
  shows "\<exists>c' b'. run_state (SetVPN sample_os [] [Checker, Checker] sample_vpn) (c, b) = (Ok (), (c', b'))
     \<and> vpnProc c' = Some \<lparr>cmd_Args = vpn_args c sample_vpn ''/tmp/t'', cmd_Process = Some 100\<rparr>
     \<and> vpnInterface c' = Some \<lparr>if_Index = 7, if_Name = ''tunvpn''\<rparr> \<and> breakerTripped c' = breakerTripped c
     \<and> b_alive b' = [100] \<and> b_route b' = [7]"
  by (cases "b_forward b")
    (simp_all add: SetVPN_def disable_forwarding_def IPv4ForwardingEnabled_def IPv4EnableForwarding_def stop_vpn_def
        start_vpn_def find_vpn_def vpn_args_def sample_tun sample_eval c b)

text \<open>A second call, whose old device does not disappear in time.\<close>

lemma sample_SetVPN_timeout:
  assumes c: "vpnProc c = Some \<lparr>cmd_Args = args, cmd_Process = Some 100\<rparr>" and b: "b_alive b = [100]"
  shows "\<exists>e c' b'. run_state (SetVPN sample_os [Timeout] up vpn) (c, b) = (Err e, (c', b'))
     \<and> vpnInterface c' = None \<and> b_route b' = [2]"
  by (cases "b_forward b")
    (simp_all add: SetVPN_def disable_forwarding_def IPv4ForwardingEnabled_def IPv4EnableForwarding_def stop_vpn_def
        kill_proc_def sample_eval c b)

lemma sample_box_simps: "b_ifs sample_box = [(''wlan0'', 3, [])]" "b_alive sample_box = []"
  by (simp_all add: sample_box_def)

lemma sample_ctl_simps: "ct_config sample_ctl = sample_config" "vpnProc sample_ctl = None" "\<not> breakerTripped sample_ctl"
  by (simp_all add: sample_ctl_def new_controller_def)

theorem SetVPN_safe_witness:
  "\<exists>c b i. run_state (SetVPN sample_os [] [Checker, Checker] sample_vpn) (sample_ctl, sample_box) = (Ok (), (c, b))
     \<and> b_forward b \<and> vpnInterface c = Some i \<and> b_route b = [if_Index i]"
  using SetVPN_safe [OF forwarding_sample routing_sample,
      where down = "[]" and up = "[Checker, Checker]" and vpn = sample_vpn and c = sample_ctl and w = sample_box]
    sample_SetVPN_first [OF sample_ctl_simps(1,2) sample_box_simps] by auto

end
