(* ===== verification/Breaker.thy ===== *)
theory Breaker
  imports Controller
begin

text \<open>
  Properties of the controller while it runs: SetVPN returns, what the circuit breaker does at a
  tick, and the interleaving of the breaker routine with calls of SetVPN and with changes of the
  machine outside.
\<close>

subsection \<open>SetVPN returns\<close>

lemma wait_down_returns: "Timeout \<in> set ts \<Longrightarrow> returns (wait_vpn_down K dev ts)"
  by (induction K dev ts rule: wait_vpn_down.induct) (auto intro!: returns_intro)

lemma wait_up_returns: "Timeout \<in> set ts \<Longrightarrow> returns (wait_vpn_up K dev ts)"
  by (induction K dev ts rule: wait_vpn_up.induct) (auto intro!: returns_intro)

lemma wait_routes_returns: "Timeout \<in> set ts \<Longrightarrow> returns (wait_vpn_routes K idx ts)"
  by (induction K idx ts rule: wait_vpn_routes.induct) (auto intro!: returns_intro)

text \<open>The ticks that the wait for the device leaves still have the timeout.\<close>

lemma wait_up_left: "Timeout \<in> set ts \<Longrightarrow> run_state (wait_vpn_up K dev ts) w = (Ok ts', w') \<Longrightarrow> Timeout \<in> set ts'"
  by (induction K dev ts arbitrary: w rule: wait_vpn_up.induct)
    (auto simp: run_simps split: prod.splits sum.splits)

lemma run_in_world_Ok: "run_state (in_world m) s = (Ok x, s') \<longleftrightarrow> run_state m (snd s) = (Ok x, snd s') \<and> fst s' = fst s"
  by (cases s; cases s') (auto simp: run_simps split: prod.splits)

lemma forwarding_returns [returns_intro]: "returns (disable_forwarding K)" "returns (IPv4EnableForwarding K b)"
  unfolding disable_forwarding_def IPv4ForwardingEnabled_def IPv4EnableForwarding_def
  by (intro returns_intro; simp)+

lemma kill_proc_returns [returns_intro]: "returns (kill_proc K cmd)"
  unfolding kill_proc_def by (intro returns_intro)

lemma vpn_parts_return:
  "Timeout \<in> set down \<Longrightarrow> returns (stop_vpn K down)" "returns (start_vpn K vpn pw)" "returns (find_vpn K)"
  unfolding stop_vpn_def start_vpn_def find_vpn_def
  by (intro returns_intro wait_down_returns; simp)
    (intro returns_intro, auto split: netaddr.splits intro!: returns_intro)+

text \<open>
  C6 (SetVPN_returns): SetVPN never waits for ever: once each of its two tickers delivers a
  timeout, however the kernel answers, it returns (or panics).
\<close>

theorem SetVPN_returns:
  assumes "Timeout \<in> set down" and "Timeout \<in> set up"
  shows "fst (run_state (SetVPN K down up vpn) (c, w)) \<noteq> Stop Blocked"
proof -
  have up: "returns (must (in_world (wait_vpn_up K dev up)) (\<lambda>ts. must (find_vpn K) (\<lambda>i.
      must (in_world (wait_vpn_routes K (if_Index i) ts)) (\<lambda>_. in_world (IPv4EnableForwarding K True)))))" for dev
  proof (rule returns_must)
    show "returns (in_world (wait_vpn_up K dev up))" by (intro returns_intro wait_up_returns assms(2))
    fix ts s s' assume "run_state (in_world (wait_vpn_up K dev up)) s = (Ok ts, s')"
    then have "Timeout \<in> set ts" by (auto simp: run_in_world_Ok dest: wait_up_left [OF assms(2)])
    then show "returns (must (find_vpn K) (\<lambda>i. must (in_world (wait_vpn_routes K (if_Index i) ts))
        (\<lambda>_. in_world (IPv4EnableForwarding K True))))"
      by (intro returns_intro vpn_parts_return wait_routes_returns)
  qed
  have "returns (SetVPN K down up vpn)"
    unfolding SetVPN_def by (intro returns_intro up vpn_parts_return assms(1))
  then show ?thesis by (simp add: returns_def)
qed

theorem SetVPN_returns_witness:
  "fst (run_state (SetVPN sample_os [Checker, Timeout] [Timeout] sample_vpn) (sample_ctl, sample_box)) \<noteq> Stop Blocked"
  by (rule SetVPN_returns) simp_all

subsection \<open>A VPN that does not start\<close>

text \<open>
  C7 (failed_start_is_fatal): when openvpn cannot be started, SetVPN returns the error but
  keeps a command without a process; from then on every SetVPN and the shutdown of the
  controller panic on the nil process.
\<close>

theorem failed_start_is_fatal:
  assumes fw: "forwarding K fwd" and none: "vpnProc c = None" and "\<not> ct_shutdown c"
    and temp: "\<And>w. \<exists>f w'. os_TempFile K w = (Inr f, w')"
    and wr: "\<And>f d w. \<exists>w'. os_FileWrite K f d w = (Inr (), w')"
    and cl: "\<And>f w. \<exists>w'. os_FileClose K f w = (Inr (), w')"
    and start: "\<And>args w. \<exists>e w'. os_Start K args w = (Inl e, w')"
  shows "\<exists>e c' w'. run_state (SetVPN K down up vpn) (c, w) = (Err e, (c', w'))
     \<and> fst (run_state (SetVPN K down2 up2 vpn2) (c', w')) = Panicked NilDereference
     \<and> fst (run_state (Close K) (c', w')) = Panicked NilDereference"
proof -
  obtain w1 where w1: "run_state (disable_forwarding K) w = (Ok (), w1)"
    by (rule disable_forwarding_off [OF forwarding_procfs [OF fw]])
  obtain f w2 where w2: "os_TempFile K w1 = (Inr f, w2)" using temp by blast
  obtain w3 where w3: "os_FileWrite K f (vpn_Username vpn @ newline @ vpn_Password vpn) w2 = (Inr (), w3)" using wr by blast
  obtain w4 where w4: "os_FileClose K f w3 = (Inr (), w4)" using cl by blast
  define args where "args = vpn_args (c\<lparr>vpnConf := Some vpn\<rparr>) vpn f"
  obtain e w5 where w5: "os_Start K args w4 = (Inl e, w5)" using start by blast
  obtain r w6 where w6: "os_Remove K f w5 = (r, w6)" by fastforce
  define c' where "c' = c\<lparr>vpnConf := Some vpn, vpnProc := Some \<lparr>cmd_Args = args, cmd_Process = None\<rparr>\<rparr>"
  have "run_state (SetVPN K down up vpn) (c, w) = (Err e, (c', w6))"
    by (simp add: SetVPN_def stop_vpn_def start_vpn_def run_simps w1 none w2 w3 w4 w5 w6 c'_def flip: args_def split: sum.splits)
  moreover obtain w7 where "run_state (disable_forwarding K) w6 = (Ok (), w7)"
    by (rule disable_forwarding_off [OF forwarding_procfs [OF fw]])
  then have "fst (run_state (SetVPN K down2 up2 vpn2) (c', w6)) = Panicked NilDereference"
    by (simp add: SetVPN_def stop_vpn_def kill_proc_def run_simps c'_def)
  moreover have "fst (run_state (Close K) (c', w6)) = Panicked NilDereference"
    using assms(3) by (simp add: Close_def kill_if_def kill_proc_def run_simps c'_def)
  ultimately show ?thesis by blast
qed


theorem failed_start_is_fatal_witness:
  "\<exists>e c' w'. run_state (SetVPN (sample_os\<lparr>os_Start := \<lambda>args b. (Inl (ErrorString ''not found''), b)\<rparr>) [] [] sample_vpn) (sample_ctl, sample_box) = (Err e, (c', w'))
     \<and> fst (run_state (Close (sample_os\<lparr>os_Start := \<lambda>args b. (Inl (ErrorString ''not found''), b)\<rparr>)) (c', w')) = Panicked NilDereference"
proof -
  let ?K = "sample_os\<lparr>os_Start := \<lambda>args b. (Inl (ErrorString ''not found''), b)\<rparr>"
  have "forwarding ?K b_forward"
    using forwarding_sample by (simp add: forwarding_def procfs_def quiet_def)
  from failed_start_is_fatal [OF this, of sample_ctl "[]" "[]" sample_vpn sample_box] show ?thesis
    by (fastforce simp: sample_os_def sample_ctl_def new_controller_def)
qed

subsection \<open>The circuit breaker\<close>



text \<open>SetVPN does not touch the state of the breaker.\<close>

lemma SetVPN_keeps_tripped: "keeps (\<lambda>s. breakerTripped (fst s) = b) (SetVPN K down up vpn)"
proof -
  have "keeps (\<lambda>s. breakerTripped (fst s) = b) (stop_vpn K down)" "keeps (\<lambda>s. breakerTripped (fst s) = b) (start_vpn K vpn pw)" for pw
    unfolding stop_vpn_def start_vpn_def by (intro keeps_intro in_world_keeps_fst; simp)+
  moreover have "keeps (\<lambda>s. breakerTripped (fst s) = b) (find_vpn K)"
    unfolding find_vpn_def by (intro keeps_intro in_world_keeps_fst) (auto split: netaddr.splits intro!: keeps_intro)
  ultimately show ?thesis
    unfolding SetVPN_def by (intro keeps_intro in_world_keeps_fst) simp_all
qed

lemma tripped_tick:
  assumes "quiet K fwd" and "breakerTripped c"
  obtains c' w' where "run_state (breaker_tick K) (c, w) = (Ok (), (c', w'))" and "breakerTripped c'" and "fwd w' = fwd w"
proof -
  obtain t w1 where w1: "os_Now K w = (t, w1)" by fastforce
  moreover from assms(1) have "fwd (snd (os_Now K w)) = fwd w" by (simp add: quiet_def)
  ultimately show ?thesis
    using assms(2) by (intro that [of "c\<lparr>breakerUpdated := t\<rparr>" w1])
      (simp_all add: breaker_tick_def breaker_armed_def breaker_idle_def run_simps)
qed

lemma tripped_ticks:
  "quiet K fwd \<Longrightarrow> breakerTripped c \<Longrightarrow>
    fwd (snd (snd (run_state (circuitBreakerRoutine K (replicate n Tick)) (c, w)))) = fwd w"
proof (induction n arbitrary: c w)
  case (Suc n)
  obtain c' w' where "run_state (breaker_tick K) (c, w) = (Ok (), (c', w'))" "breakerTripped c'" "fwd w' = fwd w"
    by (rule tripped_tick [OF Suc.prems])
  with Suc show ?case by (simp add: run_simps)
qed (simp add: run_simps)

text \<open>
  C4 (breaker_not_rearmed): the breaker works once. After it has tripped, a SetVPN that succeeds
  turns forwarding on again but leaves the breaker tripped, and no number of later ticks turns
  forwarding off, whatever the routes are.
\<close>

theorem breaker_not_rearmed:
  assumes "forwarding K fwd" and "routing K via" and "breakerTripped c"
    and "run_state (SetVPN K down up vpn) (c, w) = (Ok (), (c', w'))"
  shows "breakerTripped c' \<and> fwd w'
     \<and> fwd (snd (snd (run_state (circuitBreakerRoutine K (replicate n Tick)) (c', w'))))"
proof -
  have "breakerTripped c'" using keepsD [OF SetVPN_keeps_tripped [of True] _ assms(4)] assms(3) by simp
  moreover have "fwd w'" using triple_Ok [OF SetVPN_triple [OF assms(1,2)] TrueI assms(4)] by simp
  ultimately show ?thesis using tripped_ticks [of K fwd c' n w'] assms(1) by (simp add: forwarding_def)
qed


theorem breaker_not_rearmed_witness:
  "\<exists>c' w'. run_state (SetVPN sample_os [] [Checker, Checker] sample_vpn) (sample_ctl\<lparr>breakerTripped := True\<rparr>, sample_box) = (Ok (), (c', w'))
     \<and> b_forward (snd (snd (run_state (circuitBreakerRoutine sample_os (replicate 5 Tick)) (c', w'))))"
proof -
  let ?c = "sample_ctl\<lparr>breakerTripped := True\<rparr>"
  obtain c' w' where r: "run_state (SetVPN sample_os [] [Checker, Checker] sample_vpn) (?c, sample_box) = (Ok (), (c', w'))"
    using sample_SetVPN_first [of ?c sample_box] by (auto simp: sample_ctl_simps sample_box_simps)
  from breaker_not_rearmed [OF forwarding_sample routing_sample _ r, of 5] r show ?thesis by auto
qed

subsection \<open>Reachable states\<close>

inductive reach :: "('s \<Rightarrow> 's \<Rightarrow> bool) \<Rightarrow> ('s \<Rightarrow> bool) \<Rightarrow> 's \<Rightarrow> bool" for step init where
  start: "init s \<Longrightarrow> reach step init s"
| next_state: "reach step init s \<Longrightarrow> step s t \<Longrightarrow> reach step init t"

locale safe_system =
  fixes step :: "'s \<Rightarrow> 's \<Rightarrow> bool" and init :: "'s \<Rightarrow> bool" and inv :: "'s \<Rightarrow> bool"
  assumes initially: "init s \<Longrightarrow> inv s"
    and preserved: "inv s \<Longrightarrow> step s t \<Longrightarrow> inv t"
begin

lemma always: "reach step init s \<Longrightarrow> inv s"
  by (induction rule: reach.induct) (auto intro: initially preserved)

end

subsection \<open>The breaker routine beside SetVPN\<close>

text \<open>
  The breaker routine reads its guard without the lock and then takes the lock, which SetVPN
  holds from beginning to end. So a state has the controller, the world, whether the routine is
  between its guard and the lock, and whether a panic has ended the daemon. A guard read while
  SetVPN runs sees the device of before or of after the call, and is therefore a guard read
  before or after it.
\<close>

record 'w system =
  sy_ctl :: Controller
  sy_world :: 'w
  sy_pending :: bool
  sy_crashed :: bool

inductive sys_step :: "'w os \<Rightarrow> ('w \<Rightarrow> 'w \<Rightarrow> bool) \<Rightarrow> 'w system \<Rightarrow> 'w system \<Rightarrow> bool" for K env where
  guard: "\<not> sy_crashed s \<Longrightarrow> \<not> sy_pending s \<Longrightarrow> breaker_armed (sy_ctl s) \<Longrightarrow> sys_step K env s (s\<lparr>sy_pending := True\<rparr>)"
| idle: "\<not> sy_crashed s \<Longrightarrow> \<not> sy_pending s \<Longrightarrow> \<not> breaker_armed (sy_ctl s) \<Longrightarrow>
    run_state (breaker_idle K) (sy_ctl s, sy_world s) = (Ok (), (c, w)) \<Longrightarrow> sys_step K env s (s\<lparr>sy_ctl := c, sy_world := w\<rparr>)"
| locked: "\<not> sy_crashed s \<Longrightarrow> sy_pending s \<Longrightarrow>
    run_state (breaker_locked K) (sy_ctl s, sy_world s) = (r, (c, w)) \<Longrightarrow>
    sys_step K env s (s\<lparr>sy_ctl := c, sy_world := w, sy_pending := False, sy_crashed := (\<exists>p. r = Panicked p)\<rparr>)"
| switch: "\<not> sy_crashed s \<Longrightarrow> run_state (SetVPN K down up vpn) (sy_ctl s, sy_world s) = (r, (c, w)) \<Longrightarrow>
    r \<noteq> Stop Blocked \<Longrightarrow> sys_step K env s (s\<lparr>sy_ctl := c, sy_world := w\<rparr>)"
| outside: "env (sy_world s) w \<Longrightarrow> sys_step K env s (s\<lparr>sy_world := w\<rparr>)"

definition kernel_ok :: "'w os \<Rightarrow> ('w \<Rightarrow> 'w \<Rightarrow> bool) \<Rightarrow> ('w \<Rightarrow> bool) \<Rightarrow> ('w \<Rightarrow> int option) \<Rightarrow> bool" where
  "kernel_ok K env fwd via \<longleftrightarrow> forwarding K fwd \<and> routing K via \<and> (\<forall>w w'. env w w' \<longrightarrow> fwd w' = fwd w)"

definition guarded :: "('w \<Rightarrow> bool) \<Rightarrow> 'w system \<Rightarrow> bool" where
  "guarded fwd s \<longleftrightarrow> (fwd (sy_world s) \<longrightarrow> breakerTripped (sy_ctl s) \<or> vpnInterface (sy_ctl s) \<noteq> None)"

lemma breaker_locked_guarded:
  assumes fw: "forwarding K fwd" and r: "run_state (breaker_locked K) (c, w) = (r, (c', w'))"
    and g: "fwd w \<longrightarrow> breakerTripped c \<or> vpnInterface c \<noteq> None"
  shows "fwd w' \<longrightarrow> breakerTripped c' \<or> vpnInterface c' \<noteq> None"
proof -
  let ?I = "\<lambda>s. fwd (snd s) \<longrightarrow> breakerTripped (fst s) \<or> vpnInterface (fst s) \<noteq> None"
  have q: "quiet K fwd" using fw by (simp add: forwarding_def)
  have route: "keeps ?I (sys (os_RouteGet K probe_addr))" and now: "keeps ?I (in_world (syscall_total (os_Now K)))"
    using q by (auto intro!: keeps_in_world keeps_syscall keeps_syscall_total simp: quiet_def)
  have off: "keeps ?I (in_world (disable_forwarding K))"
  proof (rule keeps_in_world)
    fix c show "keeps (\<lambda>w. ?I (c, w)) (disable_forwarding K)"
      unfolding keeps_def using disable_forwarding_off [OF forwarding_procfs [OF fw]] by (metis snd_conv)
  qed
  have "keeps ?I (breaker_locked K)"
    unfolding breaker_locked_def by (intro keeps_intro route now off) simp_all
  from keepsD [OF this _ r] g show ?thesis by simp
qed

interpretation daemon: safe_system "sys_step K env"
  "\<lambda>s. kernel_ok K env fwd via \<and> \<not> fwd (sy_world s)" "\<lambda>s. kernel_ok K env fwd via \<and> guarded fwd s" for K env fwd via
proof
  fix s t assume inv: "kernel_ok K env fwd via \<and> guarded fwd s" and "sys_step K env s t"
  then have fw: "forwarding K fwd" and rt: "routing K via" and q: "quiet K fwd"
    and out: "\<And>w w'. env w w' \<Longrightarrow> fwd w' = fwd w" and g: "guarded fwd s"
    by (auto simp: kernel_ok_def forwarding_def)
  from \<open>sys_step K env s t\<close> have "guarded fwd t"
  proof cases
    case (idle c w)
    obtain t w1 where "os_Now K (sy_world s) = (t, w1)" by fastforce
    moreover from q have "fwd (snd (os_Now K (sy_world s))) = fwd (sy_world s)" by (simp add: quiet_def)
    ultimately have "c = (sy_ctl s)\<lparr>breakerUpdated := t\<rparr>" "fwd w = fwd (sy_world s)"
      using idle(5) by (simp_all add: breaker_idle_def run_simps)
    with g idle(1) show ?thesis by (simp add: guarded_def)
  next
    case (locked r c w)
    from breaker_locked_guarded [OF fw locked(4)] g locked(1) show ?thesis by (simp add: guarded_def)
  next
    case (switch down up vpn r c w)
    from triple_Ok [OF SetVPN_triple [OF fw rt] TrueI] triple_Stop [OF SetVPN_triple [OF fw rt] TrueI] switch
    show ?thesis by (cases r) (fastforce simp: guarded_def connected_def)+
  qed (use g out in \<open>auto simp: guarded_def\<close>)
  with inv show "kernel_ok K env fwd via \<and> guarded fwd t" by simp
qed (simp add: guarded_def)



definition sample_start :: "box system" where
  "sample_start = \<lparr>sy_ctl = sample_ctl, sy_world = sample_box\<lparr>b_forward := False\<rparr>, sy_pending = False, sy_crashed = False\<rparr>"

lemma kernel_ok_sample: "kernel_ok sample_os (=) b_forward (\<lambda>b. case b_route b of [] \<Rightarrow> None | li # _ \<Rightarrow> Some li)"
  by (simp add: kernel_ok_def forwarding_sample routing_sample)

text \<open>A state of the sample machine in which a VPN is up.\<close>

lemma sample_connected:
  obtains s where "reach (sys_step sample_os (=)) (\<lambda>s. \<not> b_forward (sy_world s)) s"
    and "\<exists>args. vpnProc (sy_ctl s) = Some \<lparr>cmd_Args = args, cmd_Process = Some 100\<rparr>"
    and "b_alive (sy_world s) = [100]" and "b_forward (sy_world s)" and "breaker_armed (sy_ctl s)"
    and "\<not> sy_pending s" and "\<not> sy_crashed s"
proof -
  let ?s = sample_start
  have s: "sy_ctl ?s = sample_ctl" "\<not> b_forward (sy_world ?s)" "\<not> sy_crashed ?s" "\<not> sy_pending ?s"
    "b_ifs (sy_world ?s) = [(''wlan0'', 3, [])]" "b_alive (sy_world ?s) = []"
    by (simp_all add: sample_start_def sample_box_simps)
  obtain c b where r: "run_state (SetVPN sample_os [] [Checker, Checker] sample_vpn) (sy_ctl ?s, sy_world ?s) = (Ok (), (c, b))"
    and c: "vpnProc c = Some \<lparr>cmd_Args = vpn_args (sy_ctl ?s) sample_vpn ''/tmp/t'', cmd_Process = Some 100\<rparr>"
      "vpnInterface c = Some \<lparr>if_Index = 7, if_Name = ''tunvpn''\<rparr>" "breakerTripped c = breakerTripped (sy_ctl ?s)" "b_alive b = [100]"
    using sample_SetVPN_first [of "sy_ctl ?s" "sy_world ?s"] s by (auto simp: sample_ctl_simps)
  have "b_forward b" using triple_Ok [OF SetVPN_triple [OF forwarding_sample routing_sample] TrueI r] by simp
  moreover have "reach (sys_step sample_os (=)) (\<lambda>s. \<not> b_forward (sy_world s)) (?s\<lparr>sy_ctl := c, sy_world := b\<rparr>)"
  proof (rule reach.next_state)
    show "reach (sys_step sample_os (=)) (\<lambda>s. \<not> b_forward (sy_world s)) ?s" by (rule reach.start) (simp add: s)
    show "sys_step sample_os (=) ?s (?s\<lparr>sy_ctl := c, sy_world := b\<rparr>)" by (rule switch [OF _ r]) (simp_all add: s)
  qed
  ultimately show ?thesis
    using c s by (intro that [of "?s\<lparr>sy_ctl := c, sy_world := b\<rparr>"]) (simp_all add: breaker_armed_def sample_ctl_simps)
qed



end
