(* ===== verification/Lifecycle.thy ===== *)
theory Lifecycle
  imports Breaker
begin

text \<open>
  Properties of start and shutdown of the controller: the firewall rules, the bridge, the state
  that is reported, and what is left of both when the daemon ends.
\<close>

subsection \<open>The firewall\<close>

definition firewall_rules :: "Config \<Rightarrow> rule list" where
  "firewall_rules cf =
     (let subnet = nw_Subnet (cf_Network cf); fw = cf_Firewall cf in
      concat (map (\<lambda>port. [(''filter'', ''INPUT'', port_rule subnet ''tcp'' port), (''filter'', ''INPUT'', port_rule subnet ''udp'' port)])
        (fw_VPNBoxBlockedPorts fw))
      @ map (\<lambda>dest. (''filter'', ''FORWARD'', subnet_rule subnet dest)) (fw_BlockedSubnets fw))"

lemma block_ports_install:
  "block_ports K ipt subnet ports = install_rules (AppendUnique K ipt)
     (concat (map (\<lambda>port. [(''filter'', ''INPUT'', port_rule subnet ''tcp'' port), (''filter'', ''INPUT'', port_rule subnet ''udp'' port)]) ports))"
  by (induction K ipt subnet ports rule: block_ports.induct) simp_all

lemma block_subnets_install:
  "block_subnets K ipt subnet dests = install_rules (AppendUnique K ipt)
     (map (\<lambda>dest. (''filter'', ''FORWARD'', subnet_rule subnet dest)) dests)"
  by (induction K ipt subnet dests rule: block_subnets.induct) simp_all

lemma run_setupFirewall:
  "run_state (setupFirewall K) (c, w) =
     (case run_state (install_rules (AppendUnique K (ct_ipt c)) (firewall_rules (ct_config c))) w of (r, w') \<Rightarrow> (r, (c, w')))"
  by (simp add: setupFirewall_def firewall_rules_def Let_def run_simps block_ports_install block_subnets_install
      install_rules_append split: prod.splits outcome.splits)

text \<open>
  C8 (firewall_refines): setupFirewall refines the specification on rule tables. When it returns
  without error every configured port is dropped for both protocols and every configured subnet
  is blocked, the missing rules having been appended in order and nothing else changed; an error
  leaves a prefix of that; and a second run changes nothing.
\<close>

theorem firewall_refines:
  assumes "netfilter K (ct_ipt c) good rules" and "hasCheck (ct_ipt c)" and "hasWait (ct_ipt c)"
    and "list_all (\<lambda>(t, ch, r). good r) (firewall_rules (ct_config c))"
  shows "case run_state (setupFirewall K) (c, w) of
      (Ok _, (c', w')) \<Rightarrow> c' = c \<and> rules w' = ensure_all (firewall_rules (ct_config c)) (rules w)
        \<and> has_all (firewall_rules (ct_config c)) (rules w')
        \<and> ensure_all (firewall_rules (ct_config c)) (rules w') = rules w'
    | (Err _, (c', w')) \<Rightarrow> c' = c \<and> (\<exists>n. rules w' = ensure_all (take n (firewall_rules (ct_config c))) (rules w))
    | _ \<Rightarrow> False"
proof -
  note t = install_triple [OF conjI [OF assms(1) conjI [OF assms(2,3)]] assms(4)]
  obtain r w' where r: "run_state (install_rules (AppendUnique K (ct_ipt c)) (firewall_rules (ct_config c))) w = (r, w')"
    by fastforce
  show ?thesis
  proof (cases r)
    case (Ok x)
    with r have "run_state (install_rules (AppendUnique K (ct_ipt c)) (firewall_rules (ct_config c))) w = (Ok x, w')" by simp
    note p = triple_Ok [OF t refl this]
    from r Ok p ensure_all_id [OF conjunct2 [OF p]] show ?thesis by (auto simp: run_setupFirewall)
  next
    case (Stop e)
    with r have "run_state (install_rules (AppendUnique K (ct_ipt c)) (firewall_rules (ct_config c))) w = (Stop e, w')" by simp
    note p = triple_Stop [OF t refl this]
    from r Stop p show ?thesis by (auto simp: run_setupFirewall)
  qed
qed

theorem firewall_refines_witness:
  "case run_state (setupFirewall sample_os) (sample_ctl, sample_box) of
      (Ok _, (c', w')) \<Rightarrow> has_all (firewall_rules sample_config) (b_rules w')
    | (Err _, (c', w')) \<Rightarrow> \<exists>n. b_rules w' = ensure_all (take n (firewall_rules sample_config)) (b_rules sample_box)
    | _ \<Rightarrow> False"
proof -
  have "ct_ipt sample_ctl = sample_ipt" by (simp add: sample_ctl_def new_controller_def)
  with firewall_refines [of sample_os sample_ctl "\<lambda>_. True" b_rules sample_box] show ?thesis
    by (auto simp: netfilter_sample sample_ctl_simps list_all_iff split: prod.splits outcome.splits stop.splits)
qed

subsection \<open>The bridge\<close>

text \<open>
  The links of the machine: an interface is found exactly when it is there, adding and deleting
  change them, and giving a link an address or setting it up does not.
\<close>

definition link_table :: "'w os \<Rightarrow> ('w \<Rightarrow> string set) \<Rightarrow> bool" where
  "link_table K links \<longleftrightarrow>
     (\<forall>n w. links (snd (os_InterfaceByName K n w)) = links w \<and> (n \<in> links w \<longleftrightarrow> (\<exists>i. fst (os_InterfaceByName K n w) = Inr i)))
   \<and> (\<forall>n w w'. os_LinkAdd K n w = (Inr (), w') \<longrightarrow> links w' = insert n (links w))
   \<and> (\<forall>n a w. links (snd (os_AddrAdd K n a w)) = links w)
   \<and> (\<forall>n w. links (snd (os_LinkSetUp K n w)) = links w)
   \<and> (\<forall>n w. links (snd (os_LinkDel K n w)) = links w - {n})"

text \<open>
  C23 (bridge_left_behind): when the bridge is created but its address cannot be set, the call
  fails and the bridge stays; the next attempt to create it is then refused because the device
  exists.
\<close>

theorem bridge_left_behind:
  assumes K: "link_table K links" and "dev \<notin> links w"
    and "os_InterfaceByName K dev w = (r0, w0)" and "os_LinkAdd K dev w0 = (Inr (), w1)"
    and "os_AddrAdd K dev \<lparr>net_IP = ip, net_Mask = m0\<rparr> w1 = (Inl e, w2)"
  shows "run_state (CreateNetBridge K dev ip m0) w = (Err e, w2) \<and> dev \<in> links w2
     \<and> fst (run_state (CreateNetBridge K dev ip m0) w2) = Err ErrDeviceExists"
proof -
  have find: "n \<in> links v \<longleftrightarrow> (\<exists>i. fst (os_InterfaceByName K n v) = Inr i)" for n v
    using K by (simp add: link_table_def)
  obtain e0 where r0: "r0 = Inl e0" using find [of dev w] assms(2,3) by (cases r0) auto
  have "links w1 = insert dev (links w0)" using K assms(4) by (simp add: link_table_def)
  moreover have "links (snd (os_AddrAdd K dev \<lparr>net_IP = ip, net_Mask = m0\<rparr> w1)) = links w1"
    using K by (simp add: link_table_def)
  ultimately have d: "dev \<in> links w2" using assms(5) by simp
  then obtain i where "fst (os_InterfaceByName K dev w2) = Inr i" using find by blast
  then obtain w3 where "os_InterfaceByName K dev w2 = (Inr i, w3)" by (cases "os_InterfaceByName K dev w2") auto
  with d r0 show ?thesis using assms(3-5) by (simp add: CreateNetBridge_def run_simps)
qed

lemma map_of_Some_iff: "(\<exists>y. map_of xs k = Some y) \<longleftrightarrow> k \<in> fst ` set xs"
  using map_of_eq_None_iff [of xs k] by (cases "map_of xs k") auto

lemma link_table_sample: "link_table sample_os (\<lambda>b. fst ` set (b_ifs b))"
proof -
  have addr: "fst ` (\<lambda>(m, i, as). if m = n then (m, i, as @ [IPNetAddr a]) else (m, i, as)) ` S = fst ` S" for n a S
    by (force simp: image_image split: if_splits prod.splits)
  have del: "fst ` {x \<in> set xs. case x of (m, i, as) \<Rightarrow> m \<noteq> n} = fst ` set xs - {n}" for n and xs :: "(string \<times> int \<times> netaddr list) list"
    by (auto simp: image_iff)
  have find: "(\<exists>i. fst (box_InterfaceByName n b) = Inr i) \<longleftrightarrow> n \<in> fst ` set (b_ifs b)" "snd (box_InterfaceByName n b) = b" for n b
    using map_of_Some_iff [of "b_ifs b" n] by (auto simp: box_InterfaceByName_def split: option.splits)
  show ?thesis
    unfolding link_table_def
    by (intro conjI allI impI) (auto simp: sample_os_def find box_LinkAdd_def box_LinkDel_def box_AddrAdd_def addr del)
qed

theorem bridge_left_behind_witness:
  "fst (run_state (CreateNetBridge (sample_os\<lparr>os_AddrAdd := \<lambda>n a b. (Inl (ErrorString ''no buffer space''), b)\<rparr>) ''brvpn'' [10, 0, 0, 1] [255, 0, 0, 0])
     (snd (run_state (CreateNetBridge (sample_os\<lparr>os_AddrAdd := \<lambda>n a b. (Inl (ErrorString ''no buffer space''), b)\<rparr>) ''brvpn'' [10, 0, 0, 1] [255, 0, 0, 0]) sample_box)))
   = Err ErrDeviceExists"
proof -
  let ?K = "sample_os\<lparr>os_AddrAdd := \<lambda>n a b. (Inl (ErrorString ''no buffer space''), b)\<rparr>"
  have "link_table ?K (\<lambda>b. fst ` set (b_ifs b))" using link_table_sample by (simp add: link_table_def)
  from bridge_left_behind [OF this, where dev = "''brvpn''" and w = sample_box and ip = "[10, 0, 0, 1]" and ?m0.0 = "[255, 0, 0, 0]"]
  show ?thesis
    by (simp add: sample_box_simps sample_os_def box_InterfaceByName_def box_LinkAdd_def)
qed


lemma or_delete_bridge_Err:
  assumes K: "\<And>n w. links (snd (os_LinkDel K n w)) = links w - {n}"
    and "run_state (or_delete_bridge K n m) w = (Err e, w')"
  shows "n \<notin> links w'"
proof -
  obtain r w1 where r: "run_state m w = (r, w1)" by fastforce
  obtain d w2 where d: "os_LinkDel K n w1 = (d, w2)" by fastforce
  have "links w2 = links w1 - {n}" using K [of n w1] d by simp
  moreover have "w' = w2"
    using assms(2) r d
    by (auto simp: or_delete_bridge_def DeleteNetBridge_def run_simps split: outcome.splits stop.splits sum.splits)
  ultimately show ?thesis by simp
qed


lemma sample_subnet: "\<exists>net. ParseCIDR ''192.168.101.1/24'' = Some (IPv4 192 168 101 1, net)"
proof -
  have "ipv4_string [192, 168, 101, 1] = ''192.168.101.1''" "dec_of_nat 24 = ''24''"
    by (simp_all add: ipv4_string_def dec_of_nat.simps digit_char_def char_of_def bit_0)
  with ParseCIDR_print [of 24 192 168 101 1] show ?thesis by simp
qed


subsection \<open>The reported state\<close>

lemma startHostapd_keeps_conf: "keeps (\<lambda>s. vpnConf (fst s) = v) (startHostapd K ts)"
  unfolding startHostapd_def by (intro keeps_intro in_world_keeps_fst) (auto intro!: keeps_intro in_world_keeps_fst)

lemma run_ctl_keeps:
  assumes "keeps (\<lambda>s. I (fst s)) m" and "I c" and "run_state (run_ctl c m) w = (Ok (x, c'), w')"
  shows "I c'"
  using assms unfolding run_ctl_def keeps_def
  by (auto split: prod.splits outcome.splits) (metis fst_conv snd_conv)

lemma or_delete_bridge_Ok: "run_state (or_delete_bridge K n m) w = (Ok x, w') \<longleftrightarrow> run_state m w = (Ok x, w')"
  by (auto simp: or_delete_bridge_def DeleteNetBridge_def run_simps split: prod.splits outcome.splits stop.splits sum.splits)

lemma setupFirewall_keeps: "keeps (\<lambda>s. I (fst s)) (setupFirewall K)"
  unfolding setupFirewall_def Let_def by (intro keeps_intro in_world_keeps_fst)

lemma NewController_no_vpn:
  assumes "run_state (NewController K ts cf) w = (Ok c, w')"
  shows "vpnConf c = None"
proof -
  have fw: "vpnConf c1 = None" if "run_state (run_ctl c0 (setupFirewall K)) v = (Ok (x, c1), v')" "vpnConf c0 = None" for c0 c1 v v' x
    by (rule run_ctl_keeps [where I = "\<lambda>c. vpnConf c = None", OF setupFirewall_keeps that(2) that(1)])
  have ho: "vpnConf c1 = None" if "run_state (run_ctl c0 (startHostapd K ts)) v = (Ok (x, c1), v')" "vpnConf c0 = None" for c0 c1 v v' x
    by (rule run_ctl_keeps [where I = "\<lambda>c. vpnConf c = None", OF startHostapd_keeps_conf that(2) that(1)])
  show ?thesis
    using assms fw ho
    by (auto simp: NewController_def run_simps Let_def or_delete_bridge_Ok new_controller_def
        split: prod.splits outcome.splits sum.splits option.splits)
qed


text \<open>
  C24 (status_needs_vpn): the state is reported exactly when SetVPN has been called: a controller
  that has just been started has no VPN configuration, and reporting its state dereferences nil;
  after a SetVPN that returns, the report names that VPN.
\<close>

theorem status_needs_vpn:
  assumes "forwarding K fwd" and "routing K via" and "run_state (NewController K ts cf) w = (Ok c, w1)"
    and "run_state (SetVPN K down up vpn) (c, w2) = (Ok (), (c', w3))"
  shows "GetState c = None \<and> (\<exists>st. GetState c' = Some st \<and> st_Configured st \<and> st_VPNName st = vpn_Name vpn)"
proof -
  have "connected vpn via (c', w3)" using triple_Ok [OF SetVPN_triple [OF assms(1,2)] TrueI assms(4)] by simp
  with NewController_no_vpn [OF assms(3)] show ?thesis by (auto simp: GetState_def connected_def)
qed


text \<open>The sample machine starts a controller, once hostapd answers that it is enabled.\<close>

lemma sample_install:
  "\<forall>(t, c, r) \<in> set rs. b_rules b t c \<noteq> None \<Longrightarrow>
   \<exists>R. run_state (install_rules (AppendUnique sample_os sample_ipt) rs) b = (Ok (), b\<lparr>b_rules := R\<rparr>)
     \<and> (\<forall>t c. b_rules b t c \<noteq> None \<longrightarrow> R t c \<noteq> None)"
proof (induction rs arbitrary: b)
  case Nil
  show ?case by (intro exI [of _ "b_rules b"]) (simp add: run_simps)
next
  case (Cons a rs)
  obtain t c r where a: "a = (t, c, r)" by (cases a)
  with Cons.prems obtain rules where rules: "b_rules b t c = Some rules" by auto
  let ?R = "if r \<in> set rules then b_rules b else put_chain t c (rules @ [r]) (b_rules b)"
  have step: "run_state (AppendUnique sample_os sample_ipt t c r) b = (Ok (), b\<lparr>b_rules := ?R\<rparr>)"
    by (simp add: sample_append rules)
  have mono: "b_rules b t' c' \<noteq> None \<longrightarrow> ?R t' c' \<noteq> None" for t' c'
    by (simp add: put_chain_def)
  with Cons.prems Cons.IH [of "b\<lparr>b_rules := ?R\<rparr>"] obtain R where
    "run_state (install_rules (AppendUnique sample_os sample_ipt) rs) (b\<lparr>b_rules := ?R\<rparr>) = (Ok (), b\<lparr>b_rules := R\<rparr>)"
    "\<forall>t c. ?R t c \<noteq> None \<longrightarrow> R t c \<noteq> None" by fastforce
  with step mono show ?case by (intro exI [of _ R]) (auto simp: a run_simps)
qed

definition enabled_box :: box where
  "enabled_box = sample_box\<lparr>b_reply := ''state=ENABLED''\<rparr>"

lemma sample_iptables_New: "run_state (iptables_New sample_os) enabled_box = (Ok sample_ipt, enabled_box)"
proof -
  have "version_string 1 6 1 = ''v1.6.1''"
    by (simp add: version_string_def dec_of_nat.simps digit_char_def char_of_def bit_0)
  with extract_version_string [of "''iptables ''" "[]" 1 6 1]
  have v: "extractIptablesVersion ''iptables v1.6.1'' = Inr (1, 6, 1)" by simp
  show ?thesis
    by (simp add: iptables_New_def NewWithProtocol_def getIptablesCommandSupport_def getIptablesVersionString_def run_simps
        getIptablesCommand_def iptablesHasCheckCommand_def iptablesHasWaitCommand_def sample_os_def box_Run_def enabled_box_def sample_box_def v sample_ipt_def)
qed

lemma sample_Query: "b_reply b = ''state=ENABLED'' \<Longrightarrow> run_state (Query sample_os sock cmd) b = (Ok ''state=ENABLED'', b)"
proof -
  assume b: "b_reply b = ''state=ENABLED''"
  have "run_state (rand_letters sample_os n) b = (Ok (replicate n (CHR ''a'')), b)" for n
    by (induction n) (simp_all add: run_simps sample_os_def index_def letterRunes_def)
  then have "run_state (randStringFname sample_os) b = (Ok (''/tmp/rnd-s-'' @ replicate 12 (CHR ''a'')), b)"
    by (simp add: randStringFname_def run_simps)
  with b show ?thesis by (simp add: Query_def run_simps sample_os_def maxResponseSize_def)
qed

lemma sample_startHostapd:
  assumes "b_reply b = ''state=ENABLED''" and "ct_ipt c = sample_ipt" and "b_rules b ''nat'' ''POSTROUTING'' \<noteq> None"
  shows "\<exists>c' b'. run_state (startHostapd sample_os [Checker]) (c, b) = (Ok (), (c', b'))
     \<and> ct_config c' = ct_config c \<and> vpnProc c' = vpnProc c \<and> b_ifs b' = b_ifs b \<and> areMasquerading c'"
proof -
  from assms(3) obtain rs where rs: "b_rules b ''nat'' ''POSTROUTING'' = Some rs" by blast
  have os: "os_TempFile sample_os = (\<lambda>b. (Inr ''/tmp/t'', b))" "os_FileWrite sample_os = (\<lambda>f d b. (Inr (), b))"
    "os_FileClose sample_os = (\<lambda>f b. (Inr (), b))" "os_Remove sample_os = (\<lambda>f b. (Inr (), b))" "os_Start sample_os = box_Start"
    "os_FindProcess sample_os = (\<lambda>p b. (Inr (), b))" "os_Signal0 sample_os = box_Signal0"
    by (simp_all add: sample_os_def)
  have "Contains ''state=ENABLED'' ''state=ENABLED''" by (simp add: Contains_iff) (metis append_Nil append_Nil2)
  with rs assms show ?thesis
    by (simp add: startHostapd_def run_simps os box_Start_def box_Signal0_def sample_Query sample_append)
qed

lemma sample_CreateNetBridge:
  "\<exists>br b. run_state (CreateNetBridge sample_os ''brvpn'' ip m) enabled_box = (Ok br, b) \<and> if_Name br = ''brvpn''
     \<and> b_rules b = b_rules enabled_box \<and> b_reply b = b_reply enabled_box \<and> map_of (b_ifs b) ''wlan0'' \<noteq> None"
  by (simp add: CreateNetBridge_def run_simps sample_os_def box_InterfaceByName_def box_LinkAdd_def box_AddrAdd_def
      enabled_box_def sample_box_simps)

lemma sample_SetInterfaceAddr:
  "map_of (b_ifs b) ''wlan0'' \<noteq> None \<Longrightarrow>
   \<exists>b'. run_state (SetInterfaceAddr sample_os ''wlan0'' a) b = (Ok (), b') \<and> b_rules b' = b_rules b \<and> b_reply b' = b_reply b"
  by (auto simp: SetInterfaceAddr_def run_simps sample_os_def box_LinkByName_def box_AddrAdd_def HasPrefix_def)

lemma sample_NewController:
  "\<exists>c b. run_state (NewController sample_os [Checker] sample_config) enabled_box = (Ok c, b)
     \<and> ct_config c = sample_config \<and> vpnProc c = None"
proof -
  obtain net where net: "ParseCIDR ''192.168.101.1/24'' = Some (IPv4 192 168 101 1, net)" using sample_subnet by blast
  have cf: "nw_Subnet (cf_Network sample_config) = ''192.168.101.1/24''" "nw_InterfaceIdent (cf_Network sample_config) = ''vpn''"
    "wl_Interface (wireless sample_config) = ''wlan0''" by (simp_all add: sample_config_def)
  obtain br b1 where b1: "run_state (CreateNetBridge sample_os ''brvpn'' (IPv4 192 168 101 1) (net_Mask net)) enabled_box = (Ok br, b1)"
    "b_rules b1 = b_rules enabled_box" "b_reply b1 = b_reply enabled_box" "map_of (b_ifs b1) ''wlan0'' \<noteq> None"
    using sample_CreateNetBridge by blast
  obtain wlan where wlan: "IPAdd (IPv4 192 168 101 1) 1 = Some wlan" by (simp add: IPAdd_def Uint32_def)
  obtain b2 where b2: "run_state (SetInterfaceAddr sample_os ''wlan0'' \<lparr>net_IP = wlan, net_Mask = net_Mask net\<rparr>) b1 = (Ok (), b2)"
    "b_rules b2 = b_rules b1" "b_reply b2 = b_reply b1"
    using sample_SetInterfaceAddr [OF b1(4)] by blast
  define c0 where "c0 = (new_controller sample_config sample_ipt)\<lparr>bridgeAddr := IPv4 192 168 101 1, ct_subnet := net, bridgeInterface := Some br, wlanAddr := wlan\<rparr>"
  have c0: "ct_config c0 = sample_config" "ct_ipt c0 = sample_ipt" "vpnProc c0 = None" by (simp_all add: c0_def new_controller_def)
  have chains: "b_rules b2 ''filter'' ''INPUT'' \<noteq> None" "b_rules b2 ''filter'' ''FORWARD'' \<noteq> None" "b_rules b2 ''nat'' ''POSTROUTING'' \<noteq> None"
    using b1 b2 by (simp_all add: enabled_box_def sample_box_def)
  then have "\<forall>(t, c, r) \<in> set (firewall_rules sample_config). b_rules b2 t c \<noteq> None"
    by (auto simp: firewall_rules_def Let_def)
  from sample_install [OF this] obtain R where R: "run_state (setupFirewall sample_os) (c0, b2) = (Ok (), (c0, b2\<lparr>b_rules := R\<rparr>))"
    "R ''nat'' ''POSTROUTING'' \<noteq> None"
    using chains by (auto simp: run_setupFirewall c0)
  obtain c1 b3 where b3: "run_state (startHostapd sample_os [Checker]) (c0, b2\<lparr>b_rules := R\<rparr>) = (Ok (), (c1, b3))"
    "ct_config c1 = sample_config" "vpnProc c1 = None"
    using sample_startHostapd [of "b2\<lparr>b_rules := R\<rparr>" c0] R b1 b2 c0 by (auto simp: enabled_box_def)
  have "run_state (NewController sample_os [Checker] sample_config) enabled_box = (Ok c1, b3)"
    by (simp add: NewController_def run_simps sample_iptables_New cf net b1 wlan b2 R b3 Let_def or_delete_bridge_def run_ctl_def flip: c0_def)
  with b3 show ?thesis by blast
qed

theorem status_needs_vpn_witness:
  "\<exists>c w1 c' w3 st. run_state (NewController sample_os [Checker] sample_config) enabled_box = (Ok c, w1) \<and> GetState c = None
     \<and> run_state (SetVPN sample_os [] [Checker, Checker] sample_vpn) (c, sample_box) = (Ok (), (c', w3))
     \<and> GetState c' = Some st \<and> st_VPNName st = ''us''"
proof -
  obtain c w1 where c: "run_state (NewController sample_os [Checker] sample_config) enabled_box = (Ok c, w1)"
    "ct_config c = sample_config" "vpnProc c = None" using sample_NewController by blast
  obtain c' w3 where s: "run_state (SetVPN sample_os [] [Checker, Checker] sample_vpn) (c, sample_box) = (Ok (), (c', w3))"
    using sample_SetVPN_first [OF c(2,3) sample_box_simps] by blast
  from status_needs_vpn [OF forwarding_sample routing_sample c(1) s] c(1) s show ?thesis
    by (auto simp: sample_vpn_def)
qed

subsection \<open>Shutdown\<close>

lemma kill_if_keeps: "quiet K I \<Longrightarrow> keeps I (kill_if K pr)"
  unfolding kill_if_def by (intro keeps_intro kill_proc_keeps)

lemma run_in_world_Ok_conv: "run_state (in_world m) (c, w) = (Ok x, (c', w')) \<longleftrightarrow> run_state m w = (Ok x, w') \<and> c' = c"
  by (auto simp: run_simps split: prod.splits)

lemma run_must_Ok: "run_state (must m k) s = (Ok y, s') \<longleftrightarrow> (\<exists>x s1. run_state m s = (Ok x, s1) \<and> run_state (k x) s1 = (Ok y, s'))"
  by (auto simp: run_simps split: prod.splits outcome.splits)

text \<open>
  C25 (Close_effect): a shutdown that returns no error has deleted the bridge and one occurrence
  of the masquerading rule. The rules that drop blocked ports and subnets are as before: they
  stay in the kernel after the daemon has ended.
\<close>

theorem Close_effect:
  assumes "netfilter K (ct_ipt c) good rules" and "hasWait (ct_ipt c)" and "good (masquerade_rule c)"
    and "link_table K links" and "quiet K rules" and "\<And>n w. rules (snd (os_LinkDel K n w)) = rules w"
    and "areMasquerading c" and "bridgeInterface c = Some br"
    and "run_state (Close K) (c, w) = (Ok (), (c', w'))"
  shows "ct_shutdown c' \<and> if_Name br \<notin> links w'
     \<and> (\<exists>rs. rules w ''nat'' ''POSTROUTING'' = Some rs \<and> masquerade_rule c \<in> set rs
           \<and> rules w' = put_chain ''nat'' ''POSTROUTING'' (remove1 (masquerade_rule c) rs) (rules w))"
proof -
  from assms(7-9) obtain w1 w2 w3 where
    w1: "run_state (kill_if K (vpnProc c)) w = (Ok (), w1)" and w2: "run_state (kill_if K (hostapdProc c)) w1 = (Ok (), w2)"
    and w3: "run_state (ipt_Delete K (ct_ipt c) ''nat'' ''POSTROUTING'' (masquerade_rule c)) w2 = (Ok (), w3)"
    and w4: "run_state (DeleteNetBridge K (if_Name br)) w3 = (Ok (), w')" and c': "c' = c\<lparr>ct_shutdown := True\<rparr>"
    unfolding Close_def run_must_Ok
    by (auto simp: run_must_Ok run_gets run_modify run_or_panic run_in_world_Ok_conv run_halt split: if_splits)
  have kill: "keeps (\<lambda>v. rules v = rules w) (kill_if K pr)" for pr
    by (rule kill_if_keeps) (use assms(5) in \<open>simp add: quiet_def\<close>)
  have "rules w2 = rules w" using keepsD [OF kill _ w2] keepsD [OF kill _ w1] by simp
  with triple_Ok [OF Delete_triple [OF assms(1-3)] refl w3] obtain rs where
    "rules w ''nat'' ''POSTROUTING'' = Some rs" "masquerade_rule c \<in> set rs"
    "rules w3 = put_chain ''nat'' ''POSTROUTING'' (remove1 (masquerade_rule c) rs) (rules w)" by auto
  moreover have w': "w' = snd (os_LinkDel K (if_Name br) w3)"
    using w4 by (auto simp: DeleteNetBridge_def run_simps split: prod.splits sum.splits)
  moreover have "links w' = links w3 - {if_Name br}" using assms(4) w' by (simp add: link_table_def)
  ultimately show ?thesis using assms(6) c' by simp
qed

subsection \<open>Forwarding at start\<close>

text \<open>None of the calls that a start of the controller makes changes the observation.\<close>

definition quiet_start :: "'w os \<Rightarrow> ('w \<Rightarrow> 'o) \<Rightarrow> bool" where
  "quiet_start K obs \<longleftrightarrow> quiet K obs \<and> (\<forall>w.
     (\<forall>p. obs (snd (os_LookPath K p w)) = obs w) \<and> (\<forall>p a. obs (snd (os_Run K p a w)) = obs w)
   \<and> (\<forall>p. obs (snd (os_Open K p w)) = obs w) \<and> (\<forall>d. obs (snd (os_Flock K d w)) = obs w) \<and> (\<forall>d. obs (snd (os_Close K d w)) = obs w)
   \<and> (\<forall>n. obs (snd (os_LinkAdd K n w)) = obs w) \<and> (\<forall>n. obs (snd (os_LinkDel K n w)) = obs w)
   \<and> (\<forall>n. obs (snd (os_LinkSetUp K n w)) = obs w) \<and> (\<forall>n. obs (snd (os_LinkByName K n w)) = obs w)
   \<and> (\<forall>n a. obs (snd (os_AddrAdd K n a w)) = obs w) \<and> (\<forall>n. obs (snd (os_Intn K n w)) = obs w)
   \<and> (\<forall>l r. obs (snd (os_DialUnix K l r w)) = obs w) \<and> (\<forall>s d. obs (snd (os_SockWrite K s d w)) = obs w)
   \<and> (\<forall>s n. obs (snd (os_SockRead K s n w)) = obs w) \<and> (\<forall>s. obs (snd (os_SockClose K s w)) = obs w))"

lemma keeps_State: "(\<And>w. I w \<Longrightarrow> I (snd (f w))) \<Longrightarrow> (\<And>x. keeps I (k x)) \<Longrightarrow> keeps I (State_Monad.bind (State f) k)"
  by (simp add: keeps_def split: prod.splits) (metis snd_conv)

lemma start_calls_keep:
  assumes "quiet_start K I"
  shows "keeps I (syscall (os_LookPath K p))" "keeps I (syscall (os_Open K p))" "keeps I (syscall (os_Close K d))"
    "keeps I (syscall (os_LinkAdd K n))" "keeps I (syscall (os_LinkDel K n))" "keeps I (syscall (os_LinkSetUp K n))"
    "keeps I (syscall (os_LinkByName K n))" "keeps I (syscall (os_AddrAdd K n a))" "keeps I (syscall_total (os_Intn K m))"
    "keeps I (syscall (os_DialUnix K l r))" "keeps I (syscall (os_SockWrite K s da))" "keeps I (syscall (os_SockRead K s m))"
    "keeps I (syscall (os_SockClose K s))"
  using assms unfolding quiet_start_def by (auto intro!: keeps_syscall keeps_syscall_total)

lemma start_quiet: "quiet_start K I \<Longrightarrow> quiet K I"
  by (simp add: quiet_start_def)

lemma run_cmd_keeps: "quiet_start K I \<Longrightarrow> keeps I (runWithOutput K ipt args)" (is "?q \<Longrightarrow> _")
proof -
  assume q: ?q
  have ul: "keeps I (Unlock K ul)" for ul
    by (cases ul) (auto intro: keeps_intro start_calls_keep [OF q])
  have run: "keeps I (cmd_Run K p a)" for p a
    unfolding cmd_Run_def
    by (rule keeps_State) (use q in \<open>auto simp: quiet_start_def split: cmd_end.splits intro!: keeps_intro\<close>)
  have lock: "keeps I (tryLock K l)" for l
    unfolding tryLock_def
    by (intro keeps_if keeps_halt keeps_State) (use q in \<open>auto simp: quiet_start_def split: flock_end.splits intro!: keeps_intro\<close>)
  show ?thesis
    unfolding runWithOutput_def newXtablesFileLock_def Let_def
    by (intro keeps_intro run lock ul start_calls_keep [OF q])
qed


lemma run_ctl_keeps_world: "keeps (\<lambda>s. I (snd s)) m \<Longrightarrow> keeps I (run_ctl c m)"
proof -
  assume m: "keeps (\<lambda>s. I (snd s)) m"
  have "snd (run_state (run_ctl c m) w) = snd (snd (run_state m (c, w)))" for w
    by (simp add: run_ctl_def split: prod.splits outcome.splits)
  with m show ?thesis by (simp add: keeps_def)
qed

lemma or_delete_keeps: "quiet_start K I \<Longrightarrow> keeps I m \<Longrightarrow> keeps I (or_delete_bridge K n m)"
  unfolding or_delete_bridge_def DeleteNetBridge_def by (intro keeps_intro start_calls_keep)

lemma AppendUnique_keeps: "quiet_start K I \<Longrightarrow> keeps I (AppendUnique K ipt t c r)"
  unfolding AppendUnique_def Exists_def existsForOldIptables_def ipt_Append_def ipt_run_def Let_def
  by (intro keeps_intro run_cmd_keeps)

lemma install_keeps: "quiet_start K I \<Longrightarrow> keeps I (install_rules (AppendUnique K ipt) rs)"
  by (induction "AppendUnique K ipt" rs rule: install_rules.induct) (auto intro!: keeps_intro AppendUnique_keeps)

lemma rand_keeps: "quiet_start K I \<Longrightarrow> keeps I (rand_letters K n)"
  by (induction K n rule: rand_letters.induct) (auto intro!: keeps_intro start_calls_keep)

lemma Query_keeps: "quiet_start K I \<Longrightarrow> keeps I (Query K sock cmd)"
  unfolding Query_def randStringFname_def
  by (intro keeps_intro start_calls_keep rand_keeps quiet_keeps start_quiet)

lemma wait_hostapd_keeps: "quiet_start K I \<Longrightarrow> keeps I (wait_hostapd K pid sock ts)"
  by (induction K pid sock ts rule: wait_hostapd.induct) (auto intro!: keeps_intro Query_keeps quiet_keeps start_quiet)

lemma iptables_New_keeps: "quiet_start K I \<Longrightarrow> keeps I (iptables_New K)"
proof -
  assume q: "quiet_start K I"
  have "keeps I (getIptablesVersionString K p)" for p
    unfolding getIptablesVersionString_def
    by (rule keeps_State) (use q in \<open>auto simp: quiet_start_def split: cmd_end.splits intro!: keeps_intro\<close>)
  then have "keeps I (getIptablesCommandSupport K p)" for p
    unfolding getIptablesCommandSupport_def by (intro keeps_intro) (auto intro!: keeps_intro)
  then show ?thesis
    unfolding iptables_New_def NewWithProtocol_def
    by (intro keeps_intro start_calls_keep [OF q]) (auto intro!: keeps_intro)
qed

lemma startHostapd_keeps: "quiet_start K I \<Longrightarrow> keeps (\<lambda>s. I (snd s)) (startHostapd K ts)"
  unfolding startHostapd_def
  by (intro keeps_intro keeps_in_world)
    (auto intro!: keeps_intro keeps_in_world quiet_keeps start_quiet wait_hostapd_keeps AppendUnique_keeps split: prod.splits)

lemma setupFirewall_keeps_world: "quiet_start K I \<Longrightarrow> keeps (\<lambda>s. I (snd s)) (setupFirewall K)"
  unfolding setupFirewall_def Let_def block_ports_install block_subnets_install
  by (intro keeps_intro keeps_in_world) (simp_all add: install_keeps)

lemma NewController_keeps:
  assumes "quiet_start K obs"
  shows "keeps (\<lambda>v. obs v = x) (NewController K ts cf)"
proof -
  have q: "quiet_start K (\<lambda>v. obs v = x)" using assms by (simp add: quiet_start_def quiet_def)
  have br: "keeps (\<lambda>v. obs v = x) (CreateNetBridge K n ip m)" for n ip m
    unfolding CreateNetBridge_def by (intro keeps_intro start_calls_keep [OF q] quiet_keeps [OF start_quiet [OF q]])
  have addr: "keeps (\<lambda>v. obs v = x) (SetInterfaceAddr K n a)" for n a
    unfolding SetInterfaceAddr_def by (intro keeps_intro start_calls_keep [OF q])
  show ?thesis
    unfolding NewController_def Let_def
    by (auto intro!: keeps_must keeps_if keeps_ok keeps_of_sum keeps_or_panic br addr iptables_New_keeps [OF q] or_delete_keeps [OF q] run_ctl_keeps_world
        setupFirewall_keeps_world [OF q] startHostapd_keeps [OF q] split: prod.splits)
qed

text \<open>
  C26 (start_keeps_forwarding): starting the controller does not touch forwarding, whether it
  succeeds or not: a machine that forwards before the daemon starts goes on forwarding, without
  any VPN, until SetVPN is called.
\<close>

theorem start_keeps_forwarding:
  assumes "quiet_start K fwd"
  shows "fwd (snd (run_state (NewController K ts cf) w)) = fwd w"
  using NewController_keeps [OF assms, of "fwd w"] by (simp add: keeps_def)

lemma quiet_start_sample: "quiet_start sample_os b_forward"
proof -
  have "b_forward (snd (box_rule_cmd t f c r b)) = b_forward b" for t f c r b
    by (auto simp: box_rule_cmd_def split: option.splits)
  then have "b_forward (snd (box_Run p a b)) = b_forward b" for p a b
    by (auto simp: box_Run_def split: list.splits)
  then show ?thesis
    by (simp add: quiet_start_def quiet_sample) (simp add: sample_os_def box_Open_def box_Close_def box_LinkAdd_def box_LinkDel_def
        box_LinkByName_def box_AddrAdd_def Let_def)
qed

theorem start_keeps_forwarding_witness:
  "b_forward (snd (run_state (NewController sample_os [Checker] sample_config) sample_box))"
  using start_keeps_forwarding [OF quiet_start_sample, of "[Checker]" sample_config sample_box] by (simp add: sample_box_def)

definition closing_ctl :: Controller where
  "closing_ctl = sample_ctl\<lparr>areMasquerading := True, bridgeInterface := Some \<lparr>if_Index = 20, if_Name = ''brvpn''\<rparr>\<rparr>"

definition closing_box :: box where
  "closing_box = sample_box\<lparr>b_ifs := [(''brvpn'', 20, [])],
     b_rules := (\<lambda>t c. Some (if t = ''nat'' then [masquerade_rule closing_ctl] else [[''-j'', ''DROP'']]))\<rparr>"

theorem Close_effect_witness:
  "\<exists>c' w'. run_state (Close sample_os) (closing_ctl, closing_box) = (Ok (), (c', w'))
     \<and> ''brvpn'' \<notin> fst ` set (b_ifs w')
     \<and> b_rules w' ''nat'' ''POSTROUTING'' = Some [] \<and> b_rules w' ''filter'' ''INPUT'' = Some [[''-j'', ''DROP'']]"
proof -
  have quiet: "quiet sample_os b_rules"
    by (auto simp: quiet_def sample_os_def box_Start_def box_Signal0_def box_Kill_def box_InterfaceByName_def
        box_Addrs_def split: list.splits option.splits)
  have del: "b_rules (snd (os_LinkDel sample_os n w)) = b_rules w" for n w
    by (simp add: sample_os_def box_LinkDel_def)
  have c: "ct_ipt closing_ctl = sample_ipt" "areMasquerading closing_ctl" "bridgeInterface closing_ctl = Some \<lparr>if_Index = 20, if_Name = ''brvpn''\<rparr>"
    "vpnProc closing_ctl = None" "hostapdProc closing_ctl = None" "\<not> ct_shutdown closing_ctl"
    by (simp_all add: closing_ctl_def sample_ctl_def new_controller_def)
  have b: "b_rules closing_box ''nat'' ''POSTROUTING'' = Some [masquerade_rule closing_ctl]" "b_rules closing_box ''filter'' ''INPUT'' = Some [[''-j'', ''DROP'']]"
    by (simp_all add: closing_box_def)
  have "\<exists>w1. run_state (ipt_Delete sample_os sample_ipt ''nat'' ''POSTROUTING'' (masquerade_rule closing_ctl)) closing_box = (Ok (), w1)"
    by (simp add: ipt_Delete_def run_ipt_run_wait sample_os_def box_Run_def box_rule_cmd_def b)
  then obtain c' w' where r: "run_state (Close sample_os) (closing_ctl, closing_box) = (Ok (), (c', w'))"
    by (auto simp: Close_def run_simps kill_if_def c DeleteNetBridge_def sample_os_def box_LinkDel_def)
  from Close_effect [OF netfilter_sample _ _ link_table_sample quiet del c(2,3) r, where good = "\<lambda>_. True"] b
  have "''brvpn'' \<notin> fst ` set (b_ifs w') \<and> b_rules w' = put_chain ''nat'' ''POSTROUTING'' [] (b_rules closing_box)"
    by (auto simp: c)
  with r b show ?thesis by (simp add: put_chain_def)
qed

end
