(* ===== verification/HttpServer.thy ===== *)
theory HttpServer
  imports Lifecycle
begin

text \<open>
  The web interface (\<^verbatim>\<open>makeServer\<close> in \<^verbatim>\<open>main.go\<close>): the four handlers and their dispatch. A request
  body is given as the JSON value it parses to, None when it does not parse; a response body is
  text or the JSON value that is marshalled. Files below \<^verbatim>\<open>/static/\<close> are served by the library.
\<close>

subsection \<open>JSON\<close>

datatype json = JNull | JBool bool | JNum int | JStr string | JArr "json list" | JObj "(string \<times> json) list"

definition json_VPNOpt :: "VPNOpt \<Rightarrow> json" where
  "json_VPNOpt v = JObj [(''name'', JStr (vpn_Name v)), (''path'', JStr (vpn_Path v)), (''icon'', JStr (vpn_Icon v))]"

definition json_APStatus :: "APStatus \<Rightarrow> json" where
  "json_APStatus s = JObj [(''state'', JStr (ap_State s)), (''frequency'', JNum (ap_Frequency s)),
     (''channel'', JNum (ap_Channel s)), (''stations_count'', JNum (ap_Stations s))]"

text \<open>The text of a time is a parameter: \<open>fmt\<close>.\<close>

definition json_State :: "(nat \<Rightarrow> string) \<Rightarrow> ControllerState \<Rightarrow> json" where
  "json_State fmt s = JObj
     [(''breaker'', JObj [(''tripped'', JBool (st_Tripped s)), (''last_updated'', JStr (fmt (st_Updated s)))]),
      (''config'', JObj
        [(''vpn'', JObj [(''configured'', JBool (st_Configured s)), (''name'', JStr (st_VPNName s)), (''icon'', JStr (st_Icon s))]),
         (''subnet'', JStr (st_Subnet s)), (''wireless'', JObj [(''SSID'', JStr (st_SSID s))])]),
      (''AP'', case st_AP s of None \<Rightarrow> JNull | Some a \<Rightarrow> json_APStatus a)]"

text \<open>
  Decoding a body into a structure with one string field: keys are compared without regard to
  case, the last one counts, null leaves the field alone, and a value or a body of another type
  is an error.
\<close>

definition to_lower :: "char \<Rightarrow> char" where
  "to_lower c = (if 65 \<le> (of_char c :: nat) \<and> (of_char c :: nat) \<le> 90 then char_of ((of_char c :: nat) + 32) else c)"

definition EqualFold :: "string \<Rightarrow> string \<Rightarrow> bool" where
  "EqualFold s t \<longleftrightarrow> map to_lower s = map to_lower t"

fun name_fields :: "(string \<times> json) list \<Rightarrow> string \<Rightarrow> bool \<Rightarrow> string \<times> bool" where
  "name_fields [] nm bad = (nm, bad)"
| "name_fields ((k, v) # fs) nm bad =
     (if EqualFold k ''name''
      then (case v of JStr s \<Rightarrow> name_fields fs s bad | JNull \<Rightarrow> name_fields fs nm bad | _ \<Rightarrow> name_fields fs nm True)
      else name_fields fs nm bad)"

definition decode_name :: "json option \<Rightarrow> error + string" where
  "decode_name body =
     (case body of
        None \<Rightarrow> Inl (ErrorString ''invalid character'')
      | Some (JObj fs) \<Rightarrow>
          (case name_fields fs [] False of (nm, bad) \<Rightarrow>
             if bad then Inl (ErrorString ''json: cannot unmarshal'') else Inr nm)
      | Some JNull \<Rightarrow> Inr []
      | Some _ \<Rightarrow> Inl (ErrorString ''json: cannot unmarshal''))"

subsection \<open>Handlers\<close>

record http_request =
  rq_Method :: string
  rq_Path :: string
  rq_Body :: "json option"

datatype http_body = Text string | Json json

record http_response =
  rs_Status :: nat
  rs_Body :: http_body

definition respond :: "nat \<Rightarrow> http_body \<Rightarrow> http_response" where
  "respond st b = \<lparr>rs_Status = st, rs_Body = b\<rparr>"

definition http_Error :: "string \<Rightarrow> nat \<Rightarrow> http_response" where
  "http_Error msg st = respond st (Text (msg @ newline))"

definition handle_root :: "'w os \<Rightarrow> http_request \<Rightarrow> ('w, http_response) ctl" where
  "handle_root K req =
     (if rq_Path req \<noteq> ''/'' then ok (http_Error ''404 page not found'' 404)
      else catch (sys (os_ReadFile K ''static/index.html''))
             (\<lambda>d. ok (respond 200 (Text d)))
             (\<lambda>err. ok (respond 200 (Text []))))"

definition handle_status :: "(nat \<Rightarrow> string) \<Rightarrow> ('w, http_response) ctl" where
  "handle_status fmt =
     must (getc GetState) (\<lambda>st.
     must (or_panic NilDereference st) (\<lambda>st. ok (respond 200 (Json (json_State fmt st)))))"

text \<open>Without a \<^verbatim>\<open>vpn_configs\<close> section the slice of VPNs is nil, which is marshalled as null.\<close>

definition handle_vpns :: "Config \<Rightarrow> http_response" where
  "handle_vpns cf =
     respond 200 (Json (case cf_VPNConfigurations cf of [] \<Rightarrow> JNull | vs \<Rightarrow> JArr (map json_VPNOpt vs)))"

fun find_config :: "string \<Rightarrow> VPNOpt list \<Rightarrow> VPNOpt option" where
  "find_config nm [] = None"
| "find_config nm (v # vs) = (if vpn_Name v = nm then Some v else find_config nm vs)"

definition handle_setVPN :: "'w os \<Rightarrow> tick list \<Rightarrow> tick list \<Rightarrow> Config \<Rightarrow> http_request \<Rightarrow> ('w, http_response) ctl" where
  "handle_setVPN K down up cf req =
     (if rq_Method req \<noteq> ''POST'' then ok (http_Error ''Method not allowed'' 405)
      else case decode_name (rq_Body req) of
        Inl err \<Rightarrow> ok (http_Error (error_text err) 400)
      | Inr nm \<Rightarrow>
          (case find_config nm (cf_VPNConfigurations cf) of
             None \<Rightarrow> ok (http_Error ''No VPN with that name'' 400)
           | Some vpn \<Rightarrow>
               catch (SetVPN K down up vpn)
                 (\<lambda>_. ok (respond 200 (Text [])))
                 (\<lambda>err. ok (http_Error (error_text err) 500))))"

definition serve_http :: "'w os \<Rightarrow> (nat \<Rightarrow> string) \<Rightarrow> (string \<Rightarrow> http_response) \<Rightarrow> tick list \<Rightarrow> tick list \<Rightarrow> Config \<Rightarrow> http_request \<Rightarrow> ('w, http_response) ctl" where
  "serve_http K fmt static down up cf req =
     (if rq_Path req = ''/status'' then handle_status fmt
      else if rq_Path req = ''/vpns'' then ok (handle_vpns cf)
      else if rq_Path req = ''/setVPN'' then handle_setVPN K down up cf req
      else if HasPrefix (rq_Path req) ''/static/'' then ok (static (drop 7 (rq_Path req)))
      else handle_root K req)"

subsection \<open>Properties\<close>

lemma find_config_Some: "find_config nm vs = Some v \<Longrightarrow> v \<in> set vs \<and> vpn_Name v = nm"
  by (induction vs) (auto split: if_splits)

lemma handle_setVPN_refused:
  assumes "run_state (handle_setVPN K down up cf req) (c, w) = (r, s)"
    and "\<nexists>nm v. decode_name (rq_Body req) = Inr nm \<and> find_config nm (cf_VPNConfigurations cf) = Some v \<and> rq_Method req = ''POST''"
  shows "s = (c, w) \<and> (\<exists>rs. r = Ok rs \<and> rs_Status rs \<in> {400, 405})"
  using assms
  by (auto simp: handle_setVPN_def run_simps http_Error_def respond_def split: if_splits sum.splits option.splits)

lemma handle_setVPN_switch:
  assumes "decode_name (rq_Body req) = Inr nm" and "find_config nm (cf_VPNConfigurations cf) = Some v" and "rq_Method req = ''POST''"
  shows "run_state (handle_setVPN K down up cf req) (c, w) =
     (case run_state (SetVPN K down up v) (c, w) of
        (Ok _, s) \<Rightarrow> (Ok (respond 200 (Text [])), s)
      | (Stop (Error e), s) \<Rightarrow> (Ok (http_Error (error_text e) 500), s)
      | (Stop (Panic p), s) \<Rightarrow> (Panicked p, s)
      | (Stop Blocked, s) \<Rightarrow> (Stop Blocked, s))"
  using assms by (auto simp: handle_setVPN_def run_simps split: outcome.splits stop.splits prod.splits)


definition web_request :: "string \<Rightarrow> http_request" where
  "web_request nm = \<lparr>rq_Method = ''POST'', rq_Path = ''/setVPN'', rq_Body = Some (JObj [(''Name'', JStr nm)])\<rparr>"

lemma decode_web_request: "decode_name (rq_Body (web_request nm)) = Inr nm" "rq_Method (web_request nm) = ''POST''"
  by (simp_all add: web_request_def decode_name_def EqualFold_def to_lower_def char_of_def bit_0)

lemma sample_find_config: "find_config ''us'' (cf_VPNConfigurations sample_config) = Some sample_vpn"
  by (simp add: sample_config_def sample_vpn_def)


definition relogin :: "string \<Rightarrow> string \<Rightarrow> VPNOpt \<Rightarrow> VPNOpt" where
  "relogin u p v = v\<lparr>vpn_Username := u, vpn_Password := p\<rparr>"

text \<open>
  C28 (credentials_hidden): what the interface reports does not depend on any secret. The list of
  VPNs is the same whatever the user names and passwords of the VPNs are, and so is the state of
  the controller, whatever the credentials of the VPN in use and the password of the access point.
\<close>

theorem credentials_hidden:
  "handle_vpns (cf\<lparr>cf_VPNConfigurations := map (relogin u p) (cf_VPNConfigurations cf)\<rparr>) = handle_vpns cf
   \<and> fst (run_state (handle_status fmt)
        (c\<lparr>vpnConf := map_option (relogin u p) (vpnConf c),
           ct_config := (ct_config c)\<lparr>cf_Network := (cf_Network (ct_config c))\<lparr>nw_Wireless := (wireless (ct_config c))\<lparr>wl_Password := p\<rparr>\<rparr>\<rparr>\<rparr>, w))
      = fst (run_state (handle_status fmt) (c, w))"
proof
  have [simp]: "json_VPNOpt (relogin u p v) = json_VPNOpt v" for v by (simp add: json_VPNOpt_def relogin_def)
  show "handle_vpns (cf\<lparr>cf_VPNConfigurations := map (relogin u p) (cf_VPNConfigurations cf)\<rparr>) = handle_vpns cf"
    by (simp add: handle_vpns_def comp_def split: list.split)
  show "fst (run_state (handle_status fmt)
        (c\<lparr>vpnConf := map_option (relogin u p) (vpnConf c),
           ct_config := (ct_config c)\<lparr>cf_Network := (cf_Network (ct_config c))\<lparr>nw_Wireless := (wireless (ct_config c))\<lparr>wl_Password := p\<rparr>\<rparr>\<rparr>\<rparr>, w))
      = fst (run_state (handle_status fmt) (c, w))"
    by (cases "vpnConf c") (simp_all add: handle_status_def GetState_def relogin_def run_simps)
qed

end
