(* ===== verification/Utf8.thy ===== *)
theory Utf8
  imports GoStd
begin

text \<open>
  Runes and their UTF-8 encoding, as package \<^verbatim>\<open>unicode/utf8\<close> defines them. A rune is an \<^verbatim>\<open>int32\<close>,
  kept as an integer; a byte string that is not well formed decodes to the error rune, one byte
  at a time.
\<close>

abbreviation byte_val :: "char \<Rightarrow> int" where
  "byte_val c \<equiv> of_char c"

definition RuneError :: int where "RuneError = 0xFFFD"

definition MaxRune :: int where "MaxRune = 0x10FFFF"

definition RuneSelf :: int where "RuneSelf = 0x80"

definition cont_byte :: "int \<Rightarrow> int \<Rightarrow> char \<Rightarrow> bool" where
  "cont_byte lo hi c \<longleftrightarrow> lo \<le> byte_val c \<and> byte_val c \<le> hi"

text \<open>The range that the second byte must have, for a first byte of a sequence of two, three or four.\<close>

definition second_range :: "int \<Rightarrow> int \<times> int" where
  "second_range b =
     (if b = 0xE0 then (0xA0, 0xBF) else if b = 0xED then (0x80, 0x9F)
      else if b = 0xF0 then (0x90, 0xBF) else if b = 0xF4 then (0x80, 0x8F) else (0x80, 0xBF))"

definition second_ok :: "int \<Rightarrow> char \<Rightarrow> bool" where
  "second_ok b c = (case second_range b of (lo, hi) \<Rightarrow> cont_byte lo hi c)"

fun decode_tail :: "int \<Rightarrow> string \<Rightarrow> (int \<times> nat) option" where
  "decode_tail b (c1 # s) =
     (if \<not> second_ok b c1 then None
      else if b \<le> 0xDF then Some (64 * (b - 0xC0) + (byte_val c1 - 0x80), 2)
      else case s of
        [] \<Rightarrow> None
      | c2 # s \<Rightarrow>
          (if \<not> cont_byte 0x80 0xBF c2 then None
           else if b \<le> 0xEF then Some (64 * (64 * (b - 0xE0) + (byte_val c1 - 0x80)) + (byte_val c2 - 0x80), 3)
           else case s of
             [] \<Rightarrow> None
           | c3 # s \<Rightarrow>
               (if \<not> cont_byte 0x80 0xBF c3 then None
                else Some (64 * (64 * (64 * (b - 0xF0) + (byte_val c1 - 0x80)) + (byte_val c2 - 0x80)) + (byte_val c3 - 0x80), 4))))"
| "decode_tail b [] = None"

fun DecodeRune :: "string \<Rightarrow> int \<times> nat" where
  "DecodeRune [] = (RuneError, 0)"
| "DecodeRune (c # s) =
     (let b = byte_val c in
      if b < RuneSelf then (b, 1)
      else if b < 0xC2 \<or> 0xF4 < b then (RuneError, 1)
      else case decode_tail b s of None \<Rightarrow> (RuneError, 1) | Some r \<Rightarrow> r)"

definition valid_rune :: "int \<Rightarrow> bool" where
  "valid_rune r \<longleftrightarrow> 0 \<le> r \<and> r \<le> MaxRune \<and> \<not> (0xD800 \<le> r \<and> r \<le> 0xDFFF)"

definition EncodeRune :: "int \<Rightarrow> string" where
  "EncodeRune r' =
     (let r = (if valid_rune r' then r' else RuneError) in
      if r \<le> 0x7F then [char_of r]
      else if r \<le> 0x7FF then [char_of (0xC0 + r div 64), char_of (0x80 + r mod 64)]
      else if r \<le> 0xFFFF then [char_of (0xE0 + r div 4096), char_of (0x80 + r div 64 mod 64), char_of (0x80 + r mod 64)]
      else [char_of (0xF0 + r div 262144), char_of (0x80 + r div 4096 mod 64), char_of (0x80 + r div 64 mod 64),
            char_of (0x80 + r mod 64)])"

lemma byte_val_range [simp]: "0 \<le> byte_val c" "byte_val c < 256"
proof -
  have "(of_char c :: int) = int (of_char c)" by (simp add: of_nat_of_char)
  moreover have "(of_char c :: nat) < 256" by (metis char_of_char of_char_of mod_less_divisor zero_less_numeral)
  ultimately show "0 \<le> byte_val c" "byte_val c < 256" by simp_all
qed

lemma byte_val_char_of: "0 \<le> n \<Longrightarrow> n < 256 \<Longrightarrow> byte_val (char_of n) = n"
  by (simp add: of_char_of)

lemma byte_val_inject: "byte_val c = byte_val d \<longleftrightarrow> c = d"
  by (metis char_of_char)

lemma decode_tail_bounds:
  assumes "decode_tail b s = Some (r, n)" and "0xC2 \<le> b" and "b \<le> 0xF4"
  shows "valid_rune r \<and> 2 \<le> n \<and> n \<le> 4 \<and> n \<le> Suc (length s) \<and> RuneSelf \<le> r"
  using assms
  by (auto simp: valid_rune_def MaxRune_def RuneSelf_def second_ok_def second_range_def cont_byte_def
      split: if_splits list.splits elim!: decode_tail.elims)

lemma DecodeRune_bounds:
  assumes "DecodeRune s = (r, n)"
  shows "valid_rune r" and "n \<le> 4" and "n \<le> length s" and "s \<noteq> [] \<Longrightarrow> 0 < n"
proof -
  have "valid_rune r \<and> n \<le> 4 \<and> n \<le> length s \<and> (s \<noteq> [] \<longrightarrow> 0 < n)"
  proof (cases s)
    case Nil
    with assms show ?thesis by (simp add: valid_rune_def RuneError_def MaxRune_def)
  next
    case (Cons c t)
    with assms decode_tail_bounds [of "byte_val c" t r n] show ?thesis
      by (auto simp: Let_def valid_rune_def RuneError_def MaxRune_def RuneSelf_def split: if_splits option.splits)
  qed
  then show "valid_rune r" and "n \<le> 4" and "n \<le> length s" and "s \<noteq> [] \<Longrightarrow> 0 < n" by auto
qed

lemma EncodeRune_length: "0 < length (EncodeRune r)" "length (EncodeRune r) \<le> 4"
  by (simp_all add: EncodeRune_def Let_def)

lemma EncodeRune_nonempty [simp]: "EncodeRune r \<noteq> []"
  by (simp add: EncodeRune_def Let_def)

text \<open>Decoding undoes encoding, whatever follows.\<close>

lemma DecodeRune_EncodeRune:
  "DecodeRune (EncodeRune r @ t) = (if valid_rune r then r else RuneError, length (EncodeRune r))"
proof -
  define q where "q = (if valid_rune r then r else RuneError)"
  have q: "0 \<le> q" "q \<le> 0x10FFFF" "\<not> (0xD800 \<le> q \<and> q \<le> 0xDFFF)"
    by (simp_all add: q_def valid_rune_def MaxRune_def RuneError_def)
  have v: "valid_rune q" using q by (simp add: valid_rune_def MaxRune_def)
  have e: "EncodeRune r = EncodeRune q" by (simp only: EncodeRune_def v if_True flip: q_def)
  have "DecodeRune (EncodeRune q @ t) = (q, length (EncodeRune q))"
  proof -
    consider "q \<le> 0x7F" | "0x7F < q" "q \<le> 0x7FF" | "0x7FF < q" "q \<le> 0xFFFF" | "0xFFFF < q" by linarith
    then show ?thesis
    proof cases
      case 1
      then show ?thesis using q by (simp add: EncodeRune_def v RuneSelf_def byte_val_char_of)
    next
      case 2
      have "2 \<le> q div 64" "q div 64 < 32" "0 \<le> q mod 64" "q mod 64 < 64" using 2 by auto
      with 2 show ?thesis
        by (simp add: Let_def EncodeRune_def v RuneSelf_def byte_val_char_of second_ok_def second_range_def cont_byte_def)
    next
      case 3
      define x y z where "x = q div 4096" and "y = q div 64 mod 64" and "z = q mod 64"
      have "64 * x + y = q div 64" using zdiv_zmult2_eq [of 64 q 64] by (simp add: x_def y_def)
      then have 1: "64 * (64 * x + y) + z = q" by (simp add: z_def)
      then have 2: "4096 * x + 64 * y + z = q" by simp
      have b: "0 \<le> y" "y < 64" "0 \<le> z" "z < 64" by (simp_all add: y_def z_def)
      moreover have "0 \<le> x" using 3 2 b by linarith
      moreover have "x < 16" using 3 2 b by linarith
      moreover have "x = 0 \<Longrightarrow> 32 \<le> y" using 3 2 b by linarith
      moreover have "x = 13 \<Longrightarrow> y < 32" using q(3) 2 b by linarith
      ultimately show ?thesis using 1 3
        by (simp add: Let_def EncodeRune_def v RuneSelf_def byte_val_char_of second_ok_def second_range_def cont_byte_def
            flip: x_def y_def z_def) auto
    next
      case 4
      define x y z u where "x = q div 262144" and "y = q div 4096 mod 64" and "z = q div 64 mod 64" and "u = q mod 64"
      have "64 * x + y = q div 4096" using zdiv_zmult2_eq [of 64 q 4096] by (simp add: x_def y_def)
      then have "64 * (64 * x + y) + z = q div 64" using zdiv_zmult2_eq [of 64 q 64] by (simp add: z_def)
      then have 1: "64 * (64 * (64 * x + y) + z) + u = q" by (simp add: u_def)
      then have 2: "262144 * x + 4096 * y + 64 * z + u = q" by simp
      have b: "0 \<le> y" "y < 64" "0 \<le> z" "z < 64" "0 \<le> u" "u < 64" by (simp_all add: y_def z_def u_def)
      moreover have "0 \<le> x" using 4 2 b by linarith
      moreover have "x \<le> 4" using q(2) 2 b by linarith
      moreover have "x = 0 \<Longrightarrow> 16 \<le> y" using 4 2 b by linarith
      moreover have "x = 4 \<Longrightarrow> y < 16" using q(2) 2 b by linarith
      ultimately show ?thesis using 1 4
        by (simp add: Let_def EncodeRune_def v RuneSelf_def byte_val_char_of second_ok_def second_range_def cont_byte_def
            flip: x_def y_def z_def u_def) auto
    qed
  qed
  then show ?thesis by (simp add: e flip: q_def)
qed

end
