(* ===== verification/HclToken.thy ===== *)
theory HclToken
  imports Utf8
begin

text \<open>
  The tokens of the configuration language: \<^verbatim>\<open>hcl/hcl/token\<close> (positions, token types and the value
  of a token) and \<^verbatim>\<open>hcl/hcl/strconv\<close> (unquoting a string literal). A function that panics on some
  inputs has an option type, None being the panic.
\<close>

subsection \<open>Unquoting\<close>

abbreviation quote_char :: char where "quote_char \<equiv> CHR 0x22"
abbreviation newline_char :: char where "newline_char \<equiv> CHR 0x0A"

fun contains :: "string \<Rightarrow> char \<Rightarrow> bool" where
  "contains [] c = False"
| "contains (x # xs) c = (x = c \<or> contains xs c)"

definition unhex :: "char \<Rightarrow> int option" where
  "unhex b =
     (let c = byte_val b in
      if 0x30 \<le> c \<and> c \<le> 0x39 then Some (c - 0x30)
      else if 0x61 \<le> c \<and> c \<le> 0x66 then Some (c - 0x61 + 10)
      else if 0x41 \<le> c \<and> c \<le> 0x46 then Some (c - 0x41 + 10)
      else None)"

text \<open>The shift \<^verbatim>\<open>v<<4 | x\<close> on a rune, which has 32 bits.\<close>

fun hex_value :: "int \<Rightarrow> string \<Rightarrow> int option" where
  "hex_value v [] = Some v"
| "hex_value v (c # cs) =
     (case unhex c of None \<Rightarrow> None | Some x \<Rightarrow> hex_value (signed_take_bit 31 (v * 16 + x)) cs)"

fun octal_value :: "int \<Rightarrow> string \<Rightarrow> int option" where
  "octal_value v [] = Some v"
| "octal_value v (c # cs) =
     (let x = byte_val c - 0x30 in if x < 0 \<or> x > 7 then None else octal_value (v * 8 + x) cs)"

definition unquote_hex :: "char \<Rightarrow> string \<Rightarrow> (int \<times> bool \<times> string) option" where
  "unquote_hex c s =
     (let n = (if c = CHR ''x'' then 2 else if c = CHR ''u'' then 4 else 8) in
      if length s < n then None
      else case hex_value 0 (take n s) of
        None \<Rightarrow> None
      | Some v \<Rightarrow>
          if c = CHR ''x'' then Some (v, False, drop n s)
          else if v > MaxRune then None
          else Some (v, True, drop n s))"

definition unquote_octal :: "char \<Rightarrow> string \<Rightarrow> (int \<times> bool \<times> string) option" where
  "unquote_octal c s =
     (if length s < 2 then None
      else case octal_value (byte_val c - 0x30) (take 2 s) of
        None \<Rightarrow> None
      | Some v \<Rightarrow> if v > 255 then None else Some (v, False, drop 2 s))"

definition unquote_escape :: "char \<Rightarrow> char \<Rightarrow> string \<Rightarrow> (int \<times> bool \<times> string) option" where
  "unquote_escape quote c s =
     (if c = CHR ''a'' then Some (7, False, s)
      else if c = CHR ''b'' then Some (8, False, s)
      else if c = CHR ''f'' then Some (12, False, s)
      else if c = CHR ''n'' then Some (10, False, s)
      else if c = CHR ''r'' then Some (13, False, s)
      else if c = CHR ''t'' then Some (9, False, s)
      else if c = CHR ''v'' then Some (11, False, s)
      else if c \<in> {CHR ''x'', CHR ''u'', CHR ''U''} then unquote_hex c s
      else if 0x30 \<le> byte_val c \<and> byte_val c \<le> 0x37 then unquote_octal c s
      else if c = CHR 0x5C then Some (0x5C, False, s)
      else if c = CHR 0x27 \<or> c = quote_char then (if c \<noteq> quote then None else Some (byte_val c, False, s))
      else None)"

fun unquoteChar :: "string \<Rightarrow> char \<Rightarrow> (int \<times> bool \<times> string) option" where
  "unquoteChar [] quote = None"
| "unquoteChar (c # s) quote =
     (if c = quote \<and> (quote = CHR 0x27 \<or> quote = quote_char) then None
      else if byte_val c \<ge> RuneSelf then (case DecodeRune (c # s) of (r, n) \<Rightarrow> Some (r, True, drop n (c # s)))
      else if c \<noteq> CHR 0x5C then Some (byte_val c, False, s)
      else case s of [] \<Rightarrow> None | c # s \<Rightarrow> unquote_escape quote c s)"

lemma unquote_escape_shorter: "unquote_escape quote c s = Some (v, mb, t) \<Longrightarrow> length t \<le> length s"
  by (auto simp: unquote_escape_def unquote_hex_def unquote_octal_def Let_def split: if_splits option.splits)

lemma unquoteChar_shorter: "unquoteChar s quote = Some (v, mb, t) \<Longrightarrow> length t < length s"
  by (cases s)
    (auto simp: DecodeRune_bounds(4) dest: unquote_escape_shorter simp del: DecodeRune.simps
      split: if_splits list.splits prod.splits)

text \<open>The copy of an interpolation, up to the brace that closes it.\<close>

function copy_interpolation :: "string \<Rightarrow> int \<Rightarrow> string \<Rightarrow> (string \<times> int \<times> string) option" where
  "copy_interpolation s braces buf =
     (if s = [] \<or> braces \<le> 0 then Some (s, braces, buf)
      else case DecodeRune s of (r, n) \<Rightarrow>
        if r = RuneError then None
        else copy_interpolation (drop n s)
               (if r = 0x7B then braces + 1 else if r = 0x7D then braces - 1 else braces)
               (buf @ EncodeRune r))"
  by pat_completeness auto
termination
  by (relation "measure (\<lambda>(s, _, _). length s)") (auto simp: DecodeRune_bounds(4) [OF sym])

declare copy_interpolation.simps [simp del]

lemma copy_interpolation_shorter: "copy_interpolation s braces buf = Some (t, b, buf') \<Longrightarrow> length t \<le> length s"
proof (induction s braces buf rule: copy_interpolation.induct)
  case (1 s braces buf)
  then show ?case
    by (subst (asm) (2) copy_interpolation.simps) (force split: if_splits prod.splits)
qed

function unquote_loop :: "char \<Rightarrow> string \<Rightarrow> string \<Rightarrow> string option" where
  "unquote_loop quote s buf =
     (if s = [] then Some buf
      else if take 2 s = ''${'' then
        (case copy_interpolation (drop 2 s) 1 (buf @ ''${'') of
           None \<Rightarrow> None
         | Some (t, braces, buf') \<Rightarrow> if braces \<noteq> 0 then None else if t = [] then Some buf' else unquote_loop quote t buf')
      else if hd s = newline_char then None
      else case unquoteChar s quote of
        None \<Rightarrow> None
      | Some (c, multibyte, t) \<Rightarrow>
          let buf' = (if c < RuneSelf \<or> \<not> multibyte then buf @ [char_of c] else buf @ EncodeRune c)
          in if quote = CHR 0x27 \<and> t \<noteq> [] then None else unquote_loop quote t buf')"
  by pat_completeness auto
termination
proof (relation "measure (\<lambda>(_, s, _). length s)", simp, goal_cases)
  case (1 quote s buf x t' y braces buf')
  then have "length t' \<le> length (drop 2 s)" by (metis copy_interpolation_shorter)
  with 1 show ?case by (cases s) auto
next
  case (2 quote s buf x c y multibyte t buf')
  then show ?case by (auto dest: unquoteChar_shorter)
qed

declare unquote_loop.simps [simp del]

definition Unquote :: "string \<Rightarrow> string option" where
  "Unquote s0 =
     (if length s0 < 2 then None
      else let quote = hd s0; s = butlast (tl s0) in
        if quote \<noteq> last s0 then None
        else if quote \<noteq> quote_char then None
        else if \<not> contains s (CHR ''$'') \<and> \<not> contains s (CHR ''{'') \<and> contains s newline_char then None
        else if \<not> contains s (CHR 0x5C) \<and> \<not> contains s quote \<and> \<not> contains s (CHR ''$'') then Some s
        else unquote_loop quote s [])"

subsection \<open>Positions\<close>

record Pos =
  Filename :: string
  Offset :: int
  Line :: int
  Column :: int

definition no_pos :: Pos where
  "no_pos = \<lparr>Filename = [], Offset = 0, Line = 0, Column = 0\<rparr>"

definition IsValid :: "Pos \<Rightarrow> bool" where
  "IsValid p \<longleftrightarrow> Line p > 0"

definition Pos_String :: "Pos \<Rightarrow> string" where
  "Pos_String p =
     (let s = Filename p;
          s = (if IsValid p
               then (if s \<noteq> [] then s @ '':'' else s) @ Itoa (Line p) @ '':'' @ Itoa (Column p)
               else s)
      in if s = [] then ''-'' else s)"

definition Before :: "Pos \<Rightarrow> Pos \<Rightarrow> bool" where
  "Before p u \<longleftrightarrow> Offset u > Offset p \<or> Line u > Line p"

definition After :: "Pos \<Rightarrow> Pos \<Rightarrow> bool" where
  "After p u \<longleftrightarrow> Offset u < Offset p \<or> Line u < Line p"

subsection \<open>Token types\<close>

datatype token_type = ILLEGAL | EOF | COMMENT | IDENT | NUMBER | FLOAT | BOOL | STRING | HEREDOC
  | LBRACK | LBRACE | COMMA | PERIOD | RBRACK | RBRACE | ASSIGN | ADD | SUB

text \<open>The numbers that the enumeration gives them, the markers of its groups included.\<close>

fun type_number :: "token_type \<Rightarrow> int" where
  "type_number ILLEGAL = 0" | "type_number EOF = 1" | "type_number COMMENT = 2" | "type_number IDENT = 4"
| "type_number NUMBER = 6" | "type_number FLOAT = 7" | "type_number BOOL = 8" | "type_number STRING = 9"
| "type_number HEREDOC = 10" | "type_number LBRACK = 14" | "type_number LBRACE = 15" | "type_number COMMA = 16"
| "type_number PERIOD = 17" | "type_number RBRACK = 18" | "type_number RBRACE = 19" | "type_number ASSIGN = 20"
| "type_number ADD = 21" | "type_number SUB = 22"

definition identifier_beg :: int where "identifier_beg = 3"
definition literal_beg :: int where "literal_beg = 5"
definition literal_end :: int where "literal_end = 11"
definition identifier_end :: int where "identifier_end = 12"
definition operator_beg :: int where "operator_beg = 13"
definition operator_end :: int where "operator_end = 23"

fun Type_String :: "token_type \<Rightarrow> string" where
  "Type_String ILLEGAL = ''ILLEGAL''" | "Type_String EOF = ''EOF''" | "Type_String COMMENT = ''COMMENT''"
| "Type_String IDENT = ''IDENT''" | "Type_String NUMBER = ''NUMBER''" | "Type_String FLOAT = ''FLOAT''"
| "Type_String BOOL = ''BOOL''" | "Type_String STRING = ''STRING''" | "Type_String HEREDOC = ''HEREDOC''"
| "Type_String LBRACK = ''LBRACK''" | "Type_String LBRACE = ''LBRACE''" | "Type_String COMMA = ''COMMA''"
| "Type_String PERIOD = ''PERIOD''" | "Type_String RBRACK = ''RBRACK''" | "Type_String RBRACE = ''RBRACE''"
| "Type_String ASSIGN = ''ASSIGN''" | "Type_String ADD = ''ADD''" | "Type_String SUB = ''SUB''"

definition IsIdentifier :: "token_type \<Rightarrow> bool" where
  "IsIdentifier t \<longleftrightarrow> identifier_beg < type_number t \<and> type_number t < identifier_end"

definition IsLiteral :: "token_type \<Rightarrow> bool" where
  "IsLiteral t \<longleftrightarrow> literal_beg < type_number t \<and> type_number t < literal_end"

definition IsOperator :: "token_type \<Rightarrow> bool" where
  "IsOperator t \<longleftrightarrow> operator_beg < type_number t \<and> type_number t < operator_end"

record Token =
  tok_Type :: token_type
  tok_Pos :: Pos
  tok_Text :: string
  tok_JSON :: bool

definition no_token :: Token where
  "no_token = \<lparr>tok_Type = ILLEGAL, tok_Pos = no_pos, tok_Text = [], tok_JSON = False\<rparr>"

definition Token_String :: "Token \<Rightarrow> string" where
  "Token_String t = Pos_String (tok_Pos t) @ '' '' @ Type_String (tok_Type t) @ '' '' @ tok_Text t"

subsection \<open>The value of a token\<close>

text \<open>
  \<^verbatim>\<open>strconv.ParseInt\<close> with base 0 and 64 bits: a prefix \<^verbatim>\<open>0x\<close> is hexadecimal, a leading zero octal.
\<close>

fun parse_base :: "int \<Rightarrow> int \<Rightarrow> string \<Rightarrow> int \<times> num_error option" where
  "parse_base base n [] = (n, None)"
| "parse_base base n (c # cs) =
     (let b = byte_val c;
          v = (if 0x30 \<le> b \<and> b \<le> 0x39 then b - 0x30
               else if 0x61 \<le> b \<and> b \<le> 0x7A then b - 0x61 + 10
               else if 0x41 \<le> b \<and> b \<le> 0x5A then b - 0x41 + 10 else 36)
      in if v \<ge> base then (0, Some ErrSyntax)
         else if n * base + v \<ge> 2 ^ 64 then (2 ^ 64 - 1, Some ErrRange)
         else parse_base base (n * base + v) cs)"

definition ParseUint0 :: "string \<Rightarrow> int \<times> num_error option" where
  "ParseUint0 s =
     (case s of
        [] \<Rightarrow> (0, Some ErrSyntax)
      | c # t \<Rightarrow>
          if c = CHR ''0'' \<and> t \<noteq> [] \<and> (hd t = CHR ''x'' \<or> hd t = CHR ''X'')
          then (if tl t = [] then (0, Some ErrSyntax) else parse_base 16 0 (tl t))
          else if c = CHR ''0'' then parse_base 8 0 t
          else parse_base 10 0 s)"

definition ParseInt :: "string \<Rightarrow> int \<times> num_error option" where
  "ParseInt s =
     (if s = [] then (0, Some ErrSyntax)
      else let neg = (hd s = CHR ''-'');
               body = (if hd s = CHR ''+'' \<or> hd s = CHR ''-'' then tl s else s);
               (un, err) = ParseUint0 body
           in if err = Some ErrSyntax then (0, err)
              else if \<not> neg \<and> 2 ^ 63 \<le> un then (2 ^ 63 - 1, Some ErrRange)
              else if neg \<and> 2 ^ 63 < un then (- (2 ^ 63), Some ErrRange)
              else (if neg then - un else un, None))"

fun trim_left :: "(char \<Rightarrow> bool) \<Rightarrow> string \<Rightarrow> string" where
  "trim_left p [] = []"
| "trim_left p (c # cs) = (if p c then trim_left p cs else c # cs)"

definition TrimRight :: "(char \<Rightarrow> bool) \<Rightarrow> string \<Rightarrow> string" where
  "TrimRight p s = rev (trim_left p (rev s))"

definition TrimPrefix :: "string \<Rightarrow> string \<Rightarrow> string" where
  "TrimPrefix s pre = (if HasPrefix s pre then drop (length pre) s else s)"

definition unindentHeredoc :: "string \<Rightarrow> string option" where
  "unindentHeredoc heredoc = do {
     idx \<leftarrow> IndexByte heredoc newline_char;
     c \<leftarrow> index heredoc 2;
     (if c \<noteq> CHR ''-'' then slice (idx + 1) (length heredoc - idx + 1) heredoc
      else do {
        body \<leftarrow> slice (idx + 1) (length heredoc - idx + 2) heredoc;
        let lines = SplitByte newline_char body;
            whitespacePrefix = last lines
        in if \<not> list_all (\<lambda>v. HasPrefix v whitespacePrefix) lines
           then map_option (TrimRight (\<lambda>c. c = CHR '' '' \<or> c = CHR 0x09)) (slice (idx + 1) (length heredoc - idx + 1) heredoc)
           else Some (Join (map (\<lambda>v. TrimPrefix v whitespacePrefix) (butlast lines) @ [[]]) [newline_char])
      })
   }"

text \<open>
  Floating-point numbers, which the configuration has none of, are given by their 64 bits:
  \<open>pf\<close> is \<^verbatim>\<open>strconv.ParseFloat\<close>, None being an error. \<open>uq\<close> is \<^verbatim>\<open>strconv.Unquote\<close>, which only the
  tokens of a JSON file need.
\<close>

datatype token_value = ValBool bool | ValFloat "64 word" | ValInt int | ValString string

definition Value :: "(string \<Rightarrow> 64 word option) \<Rightarrow> (string \<Rightarrow> string option) \<Rightarrow> Token \<Rightarrow> token_value option" where
  "Value pf uq t =
     (case tok_Type t of
        BOOL \<Rightarrow>
          if tok_Text t = ''true'' then Some (ValBool True)
          else if tok_Text t = ''false'' then Some (ValBool False)
          else None
      | FLOAT \<Rightarrow> map_option ValFloat (pf (tok_Text t))
      | NUMBER \<Rightarrow> (case ParseInt (tok_Text t) of (v, None) \<Rightarrow> Some (ValInt v) | _ \<Rightarrow> None)
      | IDENT \<Rightarrow> Some (ValString (tok_Text t))
      | HEREDOC \<Rightarrow> map_option ValString (unindentHeredoc (tok_Text t))
      | STRING \<Rightarrow>
          if tok_Text t = [] then Some (ValString [])
          else map_option ValString (if tok_JSON t then uq (tok_Text t) else Unquote (tok_Text t))
      | _ \<Rightarrow> None)"

subsection \<open>Quoting\<close>

text \<open>
  A literal for every byte string: printable characters stand for themselves, the others, the
  quote, the backslash and the dollar sign are written in hexadecimal.
\<close>

definition hex_digit :: "int \<Rightarrow> char" where
  "hex_digit n = (if n < 10 then char_of (0x30 + n) else char_of (0x57 + n))"

definition plain_char :: "char \<Rightarrow> bool" where
  "plain_char c \<longleftrightarrow> 0x20 \<le> byte_val c \<and> byte_val c < 0x7F \<and> c \<noteq> quote_char \<and> c \<noteq> CHR 0x5C \<and> c \<noteq> CHR ''$''"

definition quote_byte :: "char \<Rightarrow> string" where
  "quote_byte c = (if plain_char c then [c] else [CHR 0x5C, CHR ''x'', hex_digit (byte_val c div 16), hex_digit (byte_val c mod 16)])"

definition quote_bytes :: "string \<Rightarrow> string" where
  "quote_bytes s = concat (map quote_byte s)"

definition quote :: "string \<Rightarrow> string" where
  "quote s = quote_char # quote_bytes s @ [quote_char]"

lemma contains_iff [simp]: "contains s c \<longleftrightarrow> c \<in> set s"
  by (induction s) auto

lemma quote_bytes_simps [simp]: "quote_bytes [] = []" "quote_bytes (c # s) = quote_byte c @ quote_bytes s"
  by (simp_all add: quote_bytes_def)

lemma byte_val_hex_digit: "0 \<le> n \<Longrightarrow> n < 16 \<Longrightarrow> byte_val (hex_digit n) = (if n < 10 then 0x30 + n else 0x57 + n)"
  by (simp add: hex_digit_def byte_val_char_of)

lemma unhex_hex_digit: "0 \<le> n \<Longrightarrow> n < 16 \<Longrightarrow> unhex (hex_digit n) = Some n"
  by (simp add: unhex_def byte_val_hex_digit)

lemma nibble: "0 \<le> byte_val c div 16" "byte_val c div 16 < 16"
proof -
  have "0 \<le> x div 16 \<and> x div 16 < 16" if "0 \<le> x" "x < 256" for x :: int using that by auto
  then show "0 \<le> byte_val c div 16" "byte_val c div 16 < 16" by simp_all
qed

lemma hex_value_byte: "hex_value 0 [hex_digit (byte_val c div 16), hex_digit (byte_val c mod 16)] = Some (byte_val c)"
proof -
  have t: "signed_take_bit 31 x = x" if "0 \<le> x" "x < 256" for x :: int
    using that by (simp add: signed_take_bit_int_eq_self)
  have "signed_take_bit 31 (byte_val c div 16) = byte_val c div 16" using nibble [of c] by (intro t) simp_all
  then show ?thesis using t [of "byte_val c"] by (simp add: unhex_hex_digit nibble)
qed

lemma unquoteChar_quote_byte: "unquoteChar (quote_byte c @ t) quote_char = Some (byte_val c, False, t)"
proof (cases "plain_char c")
  case True
  then show ?thesis by (simp add: quote_byte_def plain_char_def RuneSelf_def)
next
  case False
  then show ?thesis using hex_value_byte [of c]
    by (simp add: quote_byte_def RuneSelf_def unquote_escape_def unquote_hex_def numeral_2_eq_2)
qed

lemma quote_byte_hd: "\<exists>d ds. quote_byte c = d # ds \<and> d \<noteq> newline_char \<and> d \<noteq> CHR ''$''"
  by (auto simp: quote_byte_def plain_char_def)

lemma unquote_loop_quote: "unquote_loop quote_char (quote_bytes s) buf = Some (buf @ s)"
proof (induction s arbitrary: buf)
  case Nil
  then show ?case by (simp add: unquote_loop.simps)
next
  case (Cons c s)
  obtain d ds where d: "quote_byte c = d # ds" "d \<noteq> newline_char" "d \<noteq> CHR ''$''" using quote_byte_hd by blast
  have u: "unquoteChar (d # ds @ quote_bytes s) quote_char = Some (byte_val c, False, quote_bytes s)"
    using unquoteChar_quote_byte [of c "quote_bytes s"] d by simp
  show ?case
    by (subst unquote_loop.simps) (simp add: d u Cons.IH numeral_2_eq_2 del: unquoteChar.simps)
qed

lemma quote_bytes_chars: "d \<in> set (quote_bytes s) \<Longrightarrow> d \<noteq> newline_char \<and> d \<noteq> quote_char \<and> d \<noteq> CHR ''$'' \<and> byte_val d < 0x7F \<and> 0x20 \<le> byte_val d"
proof (induction s)
  case (Cons c s)
  have h: "0x30 \<le> byte_val (hex_digit (byte_val c div 16))" "byte_val (hex_digit (byte_val c div 16)) < 0x67"
    "0x30 \<le> byte_val (hex_digit (byte_val c mod 16))" "byte_val (hex_digit (byte_val c mod 16)) < 0x67"
    by (simp_all add: byte_val_hex_digit nibble)
  have "d \<in> set (quote_byte c) \<Longrightarrow> d \<noteq> newline_char \<and> d \<noteq> quote_char \<and> d \<noteq> CHR ''$'' \<and> byte_val d < 0x7F \<and> 0x20 \<le> byte_val d"
    using h by (auto simp: quote_byte_def plain_char_def split: if_splits)
  with Cons show ?case by auto
qed simp

lemma quote_bytes_plain: "CHR 0x5C \<notin> set (quote_bytes s) \<Longrightarrow> quote_bytes s = s"
  by (induction s) (auto simp: quote_byte_def split: if_splits)

lemma Unquote_quote: "Unquote (quote s) = Some s"
proof -
  have "newline_char \<notin> set (quote_bytes s)" "quote_char \<notin> set (quote_bytes s)" "CHR ''$'' \<notin> set (quote_bytes s)"
    using quote_bytes_chars by blast+
  then show ?thesis
    using quote_bytes_plain [of s] by (simp add: Unquote_def quote_def Let_def unquote_loop_quote)
qed

end
