(* ===== verification/HclScanner.thy ===== *)
theory HclScanner
  imports HclToken
begin

text \<open>
  The lexical scanner (\<^verbatim>\<open>hcl/hcl/scanner/scanner.go\<close>). Its state is passed explicitly. The buffer
  is what is left of the source together with the bytes of the last rune that was read, which
  \<^verbatim>\<open>UnreadRune\<close> puts back, once. Functions that may panic have an option type. The classes of
  the characters beyond ASCII are the parameter \<open>U\<close>.
\<close>

subsection \<open>State\<close>

record unicode =
  IsLetter :: "int \<Rightarrow> bool"
  IsDigit :: "int \<Rightarrow> bool"

record Scanner =
  b_rest :: string
  b_last :: string
  sc_src :: string
  srcPos :: Pos
  prevPos :: Pos
  lastCharLen :: int
  lastLineLen :: int
  tokStart :: int
  tokEnd :: int
  ErrorCount :: int
  errors :: "(Pos \<times> string) list"
  tokPos :: Pos

definition eof :: int where "eof = 0"

definition scanner_New :: "string \<Rightarrow> Scanner" where
  "scanner_New src = \<lparr>b_rest = src, b_last = [], sc_src = src, srcPos = no_pos\<lparr>Line := 1\<rparr>, prevPos = no_pos,
     lastCharLen = 0, lastLineLen = 0, tokStart = 0, tokEnd = 0, ErrorCount = 0, errors = [], tokPos = no_pos\<rparr>"

definition recentPosition :: "Scanner \<Rightarrow> Pos" where
  "recentPosition s =
     (let pos = no_pos\<lparr>Offset := Offset (srcPos s) - lastCharLen s\<rparr> in
      if Column (srcPos s) > 0 then pos\<lparr>Line := Line (srcPos s), Column := Column (srcPos s)\<rparr>
      else if lastLineLen s > 0 then pos\<lparr>Line := Line (srcPos s) - 1, Column := lastLineLen s\<rparr>
      else pos\<lparr>Line := 1, Column := 1\<rparr>)"

text \<open>The callback of the parser keeps the last error; here all of them are kept, the last one first.\<close>

definition scan_err :: "string \<Rightarrow> Scanner \<Rightarrow> Scanner" where
  "scan_err msg s = s\<lparr>ErrorCount := ErrorCount s + 1, errors := (recentPosition s, msg) # errors s\<rparr>"

subsection \<open>Reading runes\<close>

definition ReadRune :: "Scanner \<Rightarrow> (int \<times> int) option \<times> Scanner" where
  "ReadRune s =
     (case b_rest s of
        [] \<Rightarrow> (None, s\<lparr>b_last := []\<rparr>)
      | _ \<Rightarrow> (case DecodeRune (b_rest s) of (ch, n) \<Rightarrow>
               (Some (ch, int n), s\<lparr>b_rest := drop n (b_rest s), b_last := take n (b_rest s)\<rparr>)))"

definition UnreadRune :: "Scanner \<Rightarrow> Scanner option" where
  "UnreadRune s = (if b_last s = [] then None else Some (s\<lparr>b_rest := b_last s @ b_rest s, b_last := []\<rparr>))"

abbreviation advance :: "int \<Rightarrow> Scanner \<Rightarrow> Scanner" where
  "advance n s \<equiv> s\<lparr>srcPos := (srcPos s)\<lparr>Column := Column (srcPos s) + 1, Offset := Offset (srcPos s) + n\<rparr>, lastCharLen := n\<rparr>"

definition next_rune :: "Scanner \<Rightarrow> int \<times> Scanner" where
  "next_rune s0 =
     (case ReadRune s0 of
        (None, s) \<Rightarrow> (eof, advance 0 s)
      | (Some (ch, n), s) \<Rightarrow>
          (let s = advance n (s\<lparr>prevPos := srcPos s\<rparr>) in
           if ch = RuneError \<and> n = 1 then (ch, scan_err ''illegal UTF-8 encoding'' s)
           else
             let s = (if ch = 0x0A
                      then s\<lparr>srcPos := (srcPos s)\<lparr>Line := Line (srcPos s) + 1, Column := 0\<rparr>, lastLineLen := Column (srcPos s)\<rparr>
                      else s)
             in if ch = 0 then (eof, scan_err ''unexpected null character (0x00)'' s)
                else if ch = 0xE123 then (RuneError, scan_err ''unicode code point U+E123 reserved for internal use'' s)
                else (ch, s)))"

definition unread :: "Scanner \<Rightarrow> Scanner option" where
  "unread s = map_option (\<lambda>s. s\<lparr>srcPos := prevPos s\<rparr>) (UnreadRune s)"

definition peek :: "Scanner \<Rightarrow> int \<times> Scanner" where
  "peek s =
     (case ReadRune s of
        (None, s) \<Rightarrow> (eof, s)
      | (Some (ch, _), s) \<Rightarrow> (ch, case UnreadRune s of Some s \<Rightarrow> s | None \<Rightarrow> s))"

subsection \<open>Classes of characters\<close>

definition isLetter :: "unicode \<Rightarrow> int \<Rightarrow> bool" where
  "isLetter U ch \<longleftrightarrow> 0x61 \<le> ch \<and> ch \<le> 0x7A \<or> 0x41 \<le> ch \<and> ch \<le> 0x5A \<or> ch = 0x5F \<or> ch \<ge> 0x80 \<and> IsLetter U ch"

definition isDigit :: "unicode \<Rightarrow> int \<Rightarrow> bool" where
  "isDigit U ch \<longleftrightarrow> 0x30 \<le> ch \<and> ch \<le> 0x39 \<or> ch \<ge> 0x80 \<and> IsDigit U ch"

definition isDecimal :: "int \<Rightarrow> bool" where
  "isDecimal ch \<longleftrightarrow> 0x30 \<le> ch \<and> ch \<le> 0x39"

definition isHexadecimal :: "int \<Rightarrow> bool" where
  "isHexadecimal ch \<longleftrightarrow> 0x30 \<le> ch \<and> ch \<le> 0x39 \<or> 0x61 \<le> ch \<and> ch \<le> 0x66 \<or> 0x41 \<le> ch \<and> ch \<le> 0x46"

definition isWhitespace :: "int \<Rightarrow> bool" where
  "isWhitespace ch \<longleftrightarrow> ch = 0x20 \<or> ch = 0x09 \<or> ch = 0x0A \<or> ch = 0x0D"

definition digitVal :: "int \<Rightarrow> int" where
  "digitVal ch =
     (if 0x30 \<le> ch \<and> ch \<le> 0x39 then ch - 0x30
      else if 0x61 \<le> ch \<and> ch \<le> 0x66 then ch - 0x61 + 10
      else if 0x41 \<le> ch \<and> ch \<le> 0x46 then ch - 0x41 + 10
      else 16)"

subsection \<open>Progress\<close>

lemma scan_err_simps [simp]:
  "b_rest (scan_err msg s) = b_rest s" "b_last (scan_err msg s) = b_last s" "sc_src (scan_err msg s) = sc_src s"
  "srcPos (scan_err msg s) = srcPos s" "prevPos (scan_err msg s) = prevPos s" "lastCharLen (scan_err msg s) = lastCharLen s"
  by (simp_all add: scan_err_def)

text \<open>A rune that is read shortens what is left; at the end the marker is returned.\<close>

lemma next_rune_progress:
  assumes "next_rune s = (ch, s')"
  shows "length (b_rest s') < length (b_rest s) \<or> b_rest s' = [] \<and> b_rest s = [] \<and> ch = eof"
  using assms DecodeRune_bounds(4) [of "b_rest s"]
  by (cases "b_rest s") (auto simp: next_rune_def ReadRune_def Let_def simp del: DecodeRune.simps split: prod.splits if_splits)

lemma next_rune_le: "next_rune s = (ch, s') \<Longrightarrow> length (b_rest s') \<le> length (b_rest s)"
  using next_rune_progress by fastforce

lemma next_rune_less: "next_rune s = (ch, s') \<Longrightarrow> ch \<noteq> eof \<Longrightarrow> length (b_rest s') < length (b_rest s)"
  using next_rune_progress by fastforce

lemma peek_rest: "peek s = (ch, s') \<Longrightarrow> b_rest s' = b_rest s"
  using DecodeRune_bounds(4) [of "b_rest s"]
  by (cases "b_rest s")
    (auto simp: peek_def ReadRune_def UnreadRune_def simp del: DecodeRune.simps split: prod.splits option.splits if_splits)

subsection \<open>Loops\<close>

text \<open>What a loop that holds the rune \<open>ch\<close> has still to do.\<close>

definition todo :: "int \<Rightarrow> Scanner \<Rightarrow> nat" where
  "todo ch s = 2 * length (b_rest s) + (if ch = eof then 0 else 1)"

lemma next_rune_todo: "next_rune s = (ch', s') \<Longrightarrow> ch \<noteq> eof \<Longrightarrow> todo ch' s' < todo ch s"
  by (auto simp: todo_def dest: next_rune_progress)

lemma next_rune_todo_case: "ch \<noteq> eof \<Longrightarrow> (case next_rune s of (ch', s') \<Rightarrow> todo ch' s') < todo ch s"
  by (simp add: next_rune_todo split: prod.split)

text \<open>
  \<^verbatim>\<open>for p(ch) { ch = s.next() }\<close>. None of the classes holds of the marker of the end, so the second
  half of the condition never decides; it is what makes the loop end.
\<close>

function next_while :: "(int \<Rightarrow> bool) \<Rightarrow> int \<Rightarrow> Scanner \<Rightarrow> int \<times> Scanner" where
  "next_while p ch s =
     (if p ch \<and> ch \<noteq> eof then (case next_rune s of (ch, s) \<Rightarrow> next_while p ch s) else (ch, s))"
  by pat_completeness auto
termination
  by (relation "measure (\<lambda>(_, ch, s). todo ch s)") (auto simp: next_rune_todo_case intro: next_rune_todo [OF sym])

declare next_while.simps [simp del]

text \<open>The body of a comment up to its end.\<close>

function comment_loop :: "int \<Rightarrow> Scanner \<Rightarrow> Scanner" where
  "comment_loop ch s =
     (if ch < 0 \<or> ch = eof then scan_err ''comment not terminated'' s
      else case next_rune s of (ch', s) \<Rightarrow> if ch = 0x2A \<and> ch' = 0x2F then s else comment_loop ch' s)"
  by pat_completeness auto
termination
  by (relation "measure (\<lambda>(ch, s). todo ch s)") (auto simp: next_rune_todo_case intro: next_rune_todo [OF sym])

declare comment_loop.simps [simp del]

definition scanComment :: "int \<Rightarrow> Scanner \<Rightarrow> Scanner option" where
  "scanComment ch s =
     (let (p1, s1) = peek s in
      if ch = 0x23 \<or> (ch = 0x2F \<and> p1 \<noteq> 0x2A) then
        (if ch = 0x2F \<and> p1 \<noteq> 0x2F then Some (scan_err (''expected '' @ [CHR 0x27] @ ''/'' @ [CHR 0x27] @ '' for comment'') s1)
         else
           let (ch, s) = next_rune (if ch = 0x23 then s else s1);
               (ch, s) = next_while (\<lambda>ch. ch \<noteq> 0x0A \<and> ch \<ge> 0 \<and> ch \<noteq> eof) ch s
           in if ch \<noteq> eof \<and> ch \<ge> 0 then unread s else Some s)
      else if ch = 0x2F then
        (let (_, s) = next_rune s1; (ch, s) = next_rune s in Some (comment_loop ch s))
      else Some (comment_loop ch s))"


subsection \<open>Numbers\<close>

definition scanMantissa :: "int \<Rightarrow> Scanner \<Rightarrow> (int \<times> Scanner) option" where
  "scanMantissa ch0 s0 =
     (let (ch, s) = next_while isDecimal ch0 s0; scanned = isDecimal ch0 in
      if scanned \<and> ch \<noteq> eof then map_option (Pair ch) (unread s) else Some (ch, s))"

definition scanFraction :: "int \<Rightarrow> Scanner \<Rightarrow> (int \<times> Scanner) option" where
  "scanFraction ch s = (if ch = 0x2E then (case peek s of (ch, s) \<Rightarrow> scanMantissa ch s) else Some (ch, s))"

definition scanExponent :: "int \<Rightarrow> Scanner \<Rightarrow> (int \<times> Scanner) option" where
  "scanExponent ch s =
     (if ch = 0x65 \<or> ch = 0x45 then
        (let (ch, s) = next_rune s;
             (ch, s) = (if ch = 0x2D \<or> ch = 0x2B then next_rune s else (ch, s))
         in scanMantissa ch s)
      else Some (ch, s))"

text \<open>The digits after a leading zero; the flag remembers a digit that is not octal.\<close>

function octal_loop :: "int \<Rightarrow> bool \<Rightarrow> Scanner \<Rightarrow> int \<times> bool \<times> Scanner" where
  "octal_loop ch illegal s =
     (if isDecimal ch \<and> ch \<noteq> eof
      then (case next_rune s of (ch, s) \<Rightarrow> octal_loop ch (illegal \<or> ch = 0x38 \<or> ch = 0x39) s)
      else (ch, illegal, s))"
  by pat_completeness auto
termination
  by (relation "measure (\<lambda>(ch, _, s). todo ch s)") (auto simp: next_rune_todo_case intro: next_rune_todo [OF sym])

declare octal_loop.simps [simp del]

abbreviation unread_unless_eof :: "int \<Rightarrow> Scanner \<Rightarrow> Scanner option" where
  "unread_unless_eof ch s \<equiv> (if ch \<noteq> eof then unread s else Some s)"

definition fraction_exponent :: "int \<Rightarrow> Scanner \<Rightarrow> Scanner option" where
  "fraction_exponent ch s = do {
     (ch, s) \<leftarrow> scanFraction ch s;
     (if ch = 0x65 \<or> ch = 0x45 then
        (let (ch, s) = next_rune s in map_option snd (scanExponent ch s))
      else Some s)
   }"

definition scan_hex :: "Scanner \<Rightarrow> (token_type \<times> Scanner) option" where
  "scan_hex s =
     (let (ch0, s) = next_rune s;
          (ch, s) = next_while isHexadecimal ch0 s;
          s = (if isHexadecimal ch0 then s else scan_err ''illegal hexadecimal number'' s)
      in map_option (Pair NUMBER) (unread_unless_eof ch s))"

definition scan_octal :: "int \<Rightarrow> Scanner \<Rightarrow> (token_type \<times> Scanner) option" where
  "scan_octal ch s =
     (let (ch, illegalOctal, s) = octal_loop ch False s in
      if ch = 0x65 \<or> ch = 0x45 then map_option (\<lambda>(_, s). (FLOAT, s)) (scanExponent ch s)
      else if ch = 0x2E then map_option (Pair FLOAT) (fraction_exponent ch s)
      else map_option (Pair NUMBER)
             (unread_unless_eof ch (if illegalOctal then scan_err ''illegal octal number'' s else s)))"

definition scanNumber :: "int \<Rightarrow> Scanner \<Rightarrow> (token_type \<times> Scanner) option" where
  "scanNumber ch s =
     (if ch = 0x30 then
        (let (ch, s) = next_rune s in if ch = 0x78 \<or> ch = 0x58 then scan_hex s else scan_octal ch s)
      else do {
        (_, s) \<leftarrow> scanMantissa ch s;
        let (ch, s) = next_rune s in
        if ch = 0x65 \<or> ch = 0x45 then map_option (\<lambda>(_, s). (FLOAT, s)) (scanExponent ch s)
        else if ch = 0x2E then map_option (Pair FLOAT) (fraction_exponent ch s)
        else map_option (Pair NUMBER) (unread_unless_eof ch s)
      })"

subsection \<open>Strings\<close>

fun digits_loop :: "int \<Rightarrow> int \<Rightarrow> nat \<Rightarrow> Scanner \<Rightarrow> int \<times> nat \<times> Scanner" where
  "digits_loop ch base 0 s = (ch, 0, s)"
| "digits_loop ch base (Suc n) s =
     (if digitVal ch < base
      then (case next_rune s of (ch, s) \<Rightarrow> if ch = eof then (ch, Suc n, s) else digits_loop ch base n s)
      else (ch, Suc n, s))"

definition scanDigits :: "int \<Rightarrow> int \<Rightarrow> nat \<Rightarrow> Scanner \<Rightarrow> (int \<times> Scanner) option" where
  "scanDigits ch base start s =
     (let (ch, n, s) = digits_loop ch base start s;
          s = (if n > 0 then scan_err ''illegal char escape'' s else s)
      in if n \<noteq> start \<and> ch \<noteq> eof then map_option (Pair ch) (unread s) else Some (ch, s))"

definition scanEscape :: "Scanner \<Rightarrow> (int \<times> Scanner) option" where
  "scanEscape s =
     (let (ch, s) = next_rune s in
      if ch \<in> {0x61, 0x62, 0x66, 0x6E, 0x72, 0x74, 0x76, 0x5C, 0x22} then Some (ch, s)
      else if 0x30 \<le> ch \<and> ch \<le> 0x37 then scanDigits ch 8 3 s
      else if ch = 0x78 then (case next_rune s of (ch, s) \<Rightarrow> scanDigits ch 16 2 s)
      else if ch = 0x75 then (case next_rune s of (ch, s) \<Rightarrow> scanDigits ch 16 4 s)
      else if ch = 0x55 then (case next_rune s of (ch, s) \<Rightarrow> scanDigits ch 16 8 s)
      else Some (ch, scan_err ''illegal char escape'' s))"

lemma unread_rest: "unread s = Some s' \<Longrightarrow> b_rest s' = b_last s @ b_rest s"
  by (auto simp: unread_def UnreadRune_def split: if_splits)

lemma next_rune_last:
  assumes "next_rune s = (ch, s')"
  shows "b_last s' @ b_rest s' = b_rest s" and "ch \<noteq> eof \<Longrightarrow> b_last s' \<noteq> []"
  using assms DecodeRune_bounds(3,4) [of "b_rest s"]
  by (cases "b_rest s"; auto simp: next_rune_def ReadRune_def Let_def simp del: DecodeRune.simps split: prod.splits if_splits)+

text \<open>The last rune has been read since the state \<open>s\<close>, and can be put back.\<close>

definition read_since :: "Scanner \<Rightarrow> Scanner \<Rightarrow> bool" where
  "read_since s t \<longleftrightarrow> b_last t \<noteq> [] \<and> length (b_last t) + length (b_rest t) \<le> length (b_rest s)"

lemma read_since_next: "next_rune s = (ch, t) \<Longrightarrow> ch \<noteq> eof \<Longrightarrow> read_since s t"
  using next_rune_last [of s ch t] by (metis read_since_def length_append order_refl)

lemma read_since_trans: "length (b_rest t) \<le> length (b_rest s) \<Longrightarrow> read_since t u \<Longrightarrow> read_since s u"
  by (simp add: read_since_def)

lemma read_since_le: "read_since s t \<Longrightarrow> length (b_rest t) \<le> length (b_rest s)"
  by (simp add: read_since_def)

lemma read_since_unread: "read_since s t \<Longrightarrow> \<exists>u. unread t = Some u \<and> length (b_rest u) \<le> length (b_rest s)"
  by (auto simp: read_since_def unread_def UnreadRune_def)

lemma read_since_scan_err [simp]: "read_since s (scan_err msg t) = read_since s t"
  by (simp add: read_since_def)

lemma digits_loop_rest:
  "digits_loop ch base n s = (ch', n', s') \<Longrightarrow>
     length (b_rest s') \<le> length (b_rest s) \<and> n' \<le> n \<and> (n' = n \<and> ch' \<noteq> eof \<longrightarrow> s' = s) \<and> (n' \<noteq> n \<and> ch' \<noteq> eof \<longrightarrow> read_since s s')"
proof (induction ch base n s arbitrary: ch' n' s' rule: digits_loop.induct)
  case (2 ch base n s)
  show ?case
  proof (cases "digitVal ch < base")
    case True
    obtain c t where t: "next_rune s = (c, t)" by fastforce
    note le = next_rune_le [OF t]
    show ?thesis
    proof (cases "c = eof")
      case True
      with \<open>digitVal ch < base\<close> 2(2) t le show ?thesis by auto
    next
      case False
      with \<open>digitVal ch < base\<close> 2(2) t have d: "digits_loop c base n t = (ch', n', s')" by simp
      note IH = 2(1) [OF True t [symmetric] False d]
      show ?thesis using IH le read_since_next [OF t False] read_since_trans [OF le]
        by (cases "n' = n") auto
    qed
  qed (use 2(2) in auto)
qed simp

lemma scanDigits_rest: "scanDigits ch base n s = Some (ch', s') \<Longrightarrow> length (b_rest s') \<le> length (b_rest s)"
  by (cases "digits_loop ch base n s")
    (auto simp: scanDigits_def Let_def read_since_def dest!: digits_loop_rest unread_rest split: if_splits)

lemma scanEscape_rest: "scanEscape s = Some (ch, s') \<Longrightarrow> length (b_rest s') \<le> length (b_rest s)"
  by (auto simp: scanEscape_def Let_def dest!: next_rune_le scanDigits_rest split: if_splits prod.splits)

text \<open>
  The string after its opening quote. Within an interpolation, counted by \<open>braces\<close>, quotes and
  newlines are part of the string.
\<close>

definition count_braces :: "int \<Rightarrow> int \<Rightarrow> Scanner \<Rightarrow> int \<times> Scanner" where
  "count_braces braces ch s =
     (let (p, s) = (if braces = 0 \<and> ch = 0x24 then peek s else (eof, s));
          (braces, s) =
            (if braces = 0 \<and> ch = 0x24 \<and> p = 0x7B then (braces + 1, snd (next_rune s))
             else if braces > 0 \<and> ch = 0x7B then (braces + 1, s)
             else (braces, s))
      in (if braces > 0 \<and> ch = 0x7D then braces - 1 else braces, s))"

lemma count_braces_rest: "count_braces braces ch s = (b, s') \<Longrightarrow> length (b_rest s') \<le> length (b_rest s)"
  using peek_rest [of s] next_rune_le [OF surjective_pairing, of "snd (peek s)"]
  by (auto simp: count_braces_def Let_def split: if_splits prod.splits)

lemma count_braces_case: "(case count_braces braces ch s of (_, s') \<Rightarrow> length (b_rest s')) \<le> length (b_rest s)"
  by (auto dest: count_braces_rest split: prod.split)

function string_loop :: "int \<Rightarrow> Scanner \<Rightarrow> Scanner option" where
  "string_loop braces s0 =
     (case next_rune s0 of (ch, s) \<Rightarrow>
        if (ch = 0x0A \<and> braces = 0) \<or> ch < 0 \<or> ch = eof then Some (scan_err ''literal not terminated'' s)
        else if ch = 0x22 \<and> braces = 0 then Some s
        else case count_braces braces ch s of (braces, s) \<Rightarrow>
          if ch = 0x5C then (case scanEscape s of None \<Rightarrow> None | Some (_, s) \<Rightarrow> string_loop braces s)
          else string_loop braces s)"
  by pat_completeness auto
termination
proof (relation "measure (\<lambda>(_, s). length (b_rest s))", simp, goal_cases)
  case 1
  then show ?case
    by (auto dest!: next_rune_less [OF sym] count_braces_rest [OF sym] scanEscape_rest)
next
  case 2
  then show ?case
    by (auto dest!: next_rune_less [OF sym] intro: le_less_trans [OF count_braces_case])
qed

declare string_loop.simps [simp del]

definition scanString :: "Scanner \<Rightarrow> Scanner option" where
  "scanString s = string_loop 0 s"

subsection \<open>Heredocs and identifiers\<close>

definition slice_int :: "int \<Rightarrow> int \<Rightarrow> 'a list \<Rightarrow> 'a list option" where
  "slice_int lo hi xs = (if lo < 0 \<or> hi < 0 then None else slice (nat lo) (nat hi) xs)"

text \<open>The regular expression of the line that ends a heredoc: white space, the anchor, carriage returns.\<close>

definition anchor_match :: "string \<Rightarrow> string \<Rightarrow> bool" where
  "anchor_match anchor line =
     list_ex (\<lambda>i. list_all is_space (take i line) \<and> HasPrefix (drop i line) anchor
                \<and> list_all (\<lambda>c. c = CHR 0x0D) (drop (i + length anchor) line)) [0..<Suc (length line)]"

function heredoc_loop :: "string \<Rightarrow> int \<Rightarrow> int \<Rightarrow> Scanner \<Rightarrow> Scanner option" where
  "heredoc_loop anchor n lineStart s0 =
     (case next_rune s0 of (ch, s) \<Rightarrow>
        if ch = eof then Some (scan_err ''heredoc not terminated'' s)
        else if ch \<noteq> 0x0A then heredoc_loop anchor n lineStart s
        else
          let lineEnd = Offset (srcPos s) - lastCharLen s in
          if lineEnd - lineStart \<ge> n then
            (case slice_int lineStart lineEnd (sc_src s) of
               None \<Rightarrow> None
             | Some line \<Rightarrow> if anchor_match anchor line then Some s else heredoc_loop anchor n (Offset (srcPos s)) s)
          else heredoc_loop anchor n (Offset (srcPos s)) s)"
  by pat_completeness auto
termination
  by (relation "measure (\<lambda>(_, _, _, s). length (b_rest s))") (auto intro: next_rune_less [OF sym])

declare heredoc_loop.simps [simp del]

definition scanHeredoc :: "unicode \<Rightarrow> Scanner \<Rightarrow> Scanner option" where
  "scanHeredoc U s =
     (let (c, s) = next_rune s in
      if c \<noteq> 0x3C then Some (scan_err (''heredoc expected second '' @ [CHR 0x27] @ ''<'' @ [CHR 0x27] @ '', didn'' @ [CHR 0x27] @ ''t see it'') s)
      else
        let offs = Offset (srcPos s);
            (ch, s) = next_rune s;
            (ch, s) = (if ch = 0x2D then next_rune s else (ch, s));
            (ch, s) = next_while (\<lambda>ch. isLetter U ch \<or> isDigit U ch) ch s
        in if ch = eof then Some (scan_err ''heredoc not terminated'' s)
           else
             let (p, s) = (if ch = 0x0D then peek s else (eof, s));
                 (ch, s) = (if ch = 0x0D \<and> p = 0x0A then next_rune s else (ch, s))
             in if ch \<noteq> 0x0A then Some (scan_err ''invalid characters in heredoc anchor'' s)
                else
                  case slice_int offs (Offset (srcPos s) - lastCharLen s) (sc_src s) of
                    None \<Rightarrow> None
                  | Some identBytes \<Rightarrow>
                      if identBytes = [] \<or> identBytes = ''-'' then Some (scan_err ''zero-length heredoc anchor'' s)
                      else heredoc_loop (if hd identBytes = CHR ''-'' then tl identBytes else identBytes)
                             (int (length identBytes)) (Offset (srcPos s)) s)"

definition scanIdentifier :: "unicode \<Rightarrow> Scanner \<Rightarrow> (string \<times> Scanner) option" where
  "scanIdentifier U s =
     (let offs = Offset (srcPos s) - lastCharLen s;
          (ch, s) = next_rune s;
          (ch, s) = next_while (\<lambda>ch. isLetter U ch \<or> isDigit U ch \<or> ch = 0x2D \<or> ch = 0x2E) ch s
      in case unread_unless_eof ch s of
           None \<Rightarrow> None
         | Some s \<Rightarrow> map_option (\<lambda>lit. (lit, s)) (slice_int offs (Offset (srcPos s)) (sc_src s)))"

subsection \<open>Tokens\<close>

definition scan_token :: "unicode \<Rightarrow> int \<Rightarrow> Scanner \<Rightarrow> (token_type \<times> Scanner) option" where
  "scan_token U ch s =
     (if isLetter U ch then
        map_option (\<lambda>(lit, s). (if lit = ''true'' \<or> lit = ''false'' then BOOL else IDENT, s)) (scanIdentifier U s)
      else if isDecimal ch then scanNumber ch s
      else if ch = eof then Some (EOF, s)
      else if ch = 0x22 then map_option (Pair STRING) (scanString s)
      else if ch = 0x23 \<or> ch = 0x2F then map_option (Pair COMMENT) (scanComment ch s)
      else if ch = 0x2E then
        (let (ch, s) = peek s in
         if isDecimal ch then do {
           (ch, s) \<leftarrow> scanMantissa ch s;
           (_, s) \<leftarrow> scanExponent ch s;
           Some (FLOAT, s)
         } else Some (PERIOD, s))
      else if ch = 0x3C then map_option (Pair HEREDOC) (scanHeredoc U s)
      else if ch = 0x5B then Some (LBRACK, s)
      else if ch = 0x5D then Some (RBRACK, s)
      else if ch = 0x7B then Some (LBRACE, s)
      else if ch = 0x7D then Some (RBRACE, s)
      else if ch = 0x2C then Some (COMMA, s)
      else if ch = 0x3D then Some (ASSIGN, s)
      else if ch = 0x2B then Some (ADD, s)
      else if ch = 0x2D then
        (let (p, s) = peek s in
         if isDecimal p then (let (ch, s) = next_rune s in scanNumber ch s) else Some (SUB, s))
      else Some (ILLEGAL, scan_err ''illegal char'' s))"

definition start_token :: "Scanner \<Rightarrow> Scanner" where
  "start_token s =
     (let offs = Offset (srcPos s) - lastCharLen s;
          pos = (tokPos s)\<lparr>Offset := offs\<rparr>
      in s\<lparr>tokStart := offs,
           tokPos := (if Column (srcPos s) > 0
                      then pos\<lparr>Line := Line (srcPos s), Column := Column (srcPos s)\<rparr>
                      else pos\<lparr>Line := Line (srcPos s) - 1, Column := lastLineLen s\<rparr>)\<rparr>)"

definition Scan :: "unicode \<Rightarrow> Scanner \<Rightarrow> (Token \<times> Scanner) option" where
  "Scan U s =
     (let (ch, s) = next_rune s;
          (ch, s) = next_while isWhitespace ch s
      in do {
        (tok, s) \<leftarrow> scan_token U ch (start_token s);
        let s = s\<lparr>tokEnd := Offset (srcPos s)\<rparr>;
        tokenText \<leftarrow> (if tokStart s \<ge> 0 then slice_int (tokStart s) (tokEnd s) (sc_src s) else Some []);
        Some (\<lparr>tok_Type = tok, tok_Pos = tokPos s, tok_Text = tokenText, tok_JSON = False\<rparr>, s\<lparr>tokStart := tokEnd s\<rparr>)
      })"

subsection \<open>The invariant\<close>

text \<open>
  The offset counts the bytes that have been read; where a rune can be put back, the previous
  position is the one before it. After a rune was read, its length does not exceed the offset.
\<close>

definition wf_scanner :: "Scanner \<Rightarrow> bool" where
  "wf_scanner s \<longleftrightarrow> (\<exists>pre. sc_src s = pre @ b_last s @ b_rest s)
     \<and> Offset (srcPos s) = int (length (sc_src s)) - int (length (b_rest s))
     \<and> (b_last s \<noteq> [] \<longrightarrow> Offset (prevPos s) = int (length (sc_src s)) - int (length (b_last s @ b_rest s)))"

definition moves :: "Scanner \<Rightarrow> Scanner \<Rightarrow> bool" where
  "moves s s' \<longleftrightarrow> wf_scanner s' \<and> sc_src s' = sc_src s \<and> tokStart s' = tokStart s \<and> tokPos s' = tokPos s
     \<and> length (b_rest s') \<le> length (b_rest s)"

lemma moves_refl: "wf_scanner s \<Longrightarrow> moves s s"
  by (simp add: moves_def)

lemma moves_trans: "moves s t \<Longrightarrow> moves t u \<Longrightarrow> moves s u"
  by (simp add: moves_def)

lemma moves_wf: "moves s t \<Longrightarrow> wf_scanner t"
  by (simp add: moves_def)

lemma moves_scan_err [simp]: "moves s (scan_err msg t) = moves s t"
  by (simp add: moves_def wf_scanner_def scan_err_def)

lemma wf_scanner_New: "wf_scanner (scanner_New src)"
  by (simp add: wf_scanner_def scanner_New_def no_pos_def)

lemma next_rune_moves:
  assumes "wf_scanner s" and "next_rune s = (ch, s')"
  shows "moves s s'" and "lastCharLen s' = int (length (b_last s'))" and "lastCharLen s' \<le> Offset (srcPos s')"
proof -
  have "moves s s' \<and> lastCharLen s' = int (length (b_last s')) \<and> lastCharLen s' \<le> Offset (srcPos s')"
  proof (cases "b_rest s")
    case Nil
    then show ?thesis using assms
      by (auto simp: next_rune_def ReadRune_def moves_def wf_scanner_def)
  next
    case (Cons c cs)
    obtain r n where d: "DecodeRune (b_rest s) = (r, n)" by fastforce
    have n: "n \<le> length (b_rest s)" "0 < n" using DecodeRune_bounds(3,4) [OF d] Cons by auto
    obtain pre where pre: "sc_src s = pre @ b_last s @ b_rest s" using assms(1) by (auto simp: wf_scanner_def)
    let ?t = "advance (int n) (s\<lparr>b_rest := drop n (b_rest s), b_last := take n (b_rest s), prevPos := srcPos s\<rparr>)"
    let ?u = "?t\<lparr>srcPos := (srcPos ?t)\<lparr>Line := Line (srcPos ?t) + 1, Column := 0\<rparr>, lastLineLen := Column (srcPos ?t)\<rparr>"
    have "s' \<in> {?t, ?u} \<or> (\<exists>msg. s' \<in> {scan_err msg ?t, scan_err msg ?u})"
      using assms(2) d Cons
      by (auto simp: next_rune_def ReadRune_def Let_def simp del: DecodeRune.simps split: if_splits)
    moreover have "moves s ?t" "moves s ?u"
      using assms(1) n pre by (auto simp: moves_def wf_scanner_def)
    moreover have "int n \<le> Offset (srcPos ?t)" using assms(1) n pre by (auto simp: wf_scanner_def)
    ultimately show ?thesis using n by auto
  qed
  then show "moves s s'" and "lastCharLen s' = int (length (b_last s'))" and "lastCharLen s' \<le> Offset (srcPos s')"
    by simp_all
qed

lemma peek_state: "peek s = (ch, s') \<Longrightarrow> s' = s\<lparr>b_last := []\<rparr>"
  using DecodeRune_bounds(4) [of "b_rest s"]
  by (cases "b_rest s")
    (auto simp: peek_def ReadRune_def UnreadRune_def simp del: DecodeRune.simps split: prod.splits option.splits if_splits)

lemma peek_moves: "wf_scanner s \<Longrightarrow> peek s = (ch, s') \<Longrightarrow> moves s s'"
  by (auto simp: moves_def wf_scanner_def dest!: peek_state)

lemma unread_moves:
  assumes "moves s t" and "read_since s t"
  shows "\<exists>u. unread t = Some u \<and> moves s u"
  using assms by (auto simp: read_since_def unread_def UnreadRune_def moves_def wf_scanner_def)

subsection \<open>Nothing panics\<close>

text \<open>
  A loop ends with a rune that can be put back, unless it ends at the end of the source or has
  not started.
\<close>

lemma next_while_moves:
  "next_while p ch s = (ch', s') \<Longrightarrow> wf_scanner s \<Longrightarrow>
     moves s s' \<and> \<not> (p ch' \<and> ch' \<noteq> eof) \<and> (s' = s \<and> ch' = ch \<or> ch' = eof \<or> read_since s s')"
proof (induction p ch s rule: next_while.induct)
  case (1 p ch s)
  show ?case
  proof (cases "p ch \<and> ch \<noteq> eof")
    case True
    obtain c t where t: "next_rune s = (c, t)" by fastforce
    have w: "next_while p c t = (ch', s')" using 1(2) True t by (simp add: next_while.simps [of p ch s])
    note m = next_rune_moves(1) [OF 1(3) t]
    note IH = 1(1) [OF True t [symmetric] w moves_wf [OF m]]
    have "read_since t s' \<Longrightarrow> read_since s s'" using read_since_trans [OF next_rune_le [OF t]] by blast
    then show ?thesis using IH moves_trans [OF m] read_since_next [OF t] by auto
  next
    case False
    then show ?thesis using 1(2,3) by (auto simp: next_while.simps [of p ch s] moves_refl)
  qed
qed

text \<open>The result is defined, and its state is one that the scanner has moved to.\<close>

definition yields :: "Scanner \<Rightarrow> Scanner option \<Rightarrow> bool" where
  "yields s r \<longleftrightarrow> (\<exists>t. r = Some t \<and> moves s t)"

abbreviation yields_with :: "Scanner \<Rightarrow> ('a \<times> Scanner) option \<Rightarrow> bool" where
  "yields_with s r \<equiv> yields s (map_option snd r)"

lemma yields_Some [simp]: "yields s (Some t) = moves s t"
  by (simp add: yields_def)

lemma yields_moves: "moves s t \<Longrightarrow> yields t r \<Longrightarrow> yields s r"
  by (auto simp: yields_def intro: moves_trans)

lemma yields_unread: "moves s t \<Longrightarrow> read_since s t \<Longrightarrow> yields s (unread t)"
  using unread_moves by (auto simp: yields_def)

lemma yields_map: "yields s (map_option f r) \<longleftrightarrow> (\<exists>x. r = Some x \<and> moves s (f x))"
  by (auto simp: yields_def)

lemma yields_withE: "yields_with s r \<Longrightarrow> (\<And>x t. r = Some (x, t) \<Longrightarrow> moves s t \<Longrightarrow> P) \<Longrightarrow> P"
  by (auto simp: yields_map)

lemma unread_unless_eof_yields:
  assumes "next_rune s = (ch0, t)" and "wf_scanner s" and "next_while p ch0 t = (ch, u)"
  shows "yields s (unread_unless_eof ch u)" and "yields s (unread_unless_eof ch (scan_err msg u))"
proof -
  note m = next_rune_moves(1) [OF assms(2,1)]
  note w = next_while_moves [OF assms(3) moves_wf [OF m]]
  have "moves s u" using m w moves_trans by blast
  moreover have "read_since s u" if "ch \<noteq> eof"
    using w that read_since_next [OF assms(1)] read_since_trans [OF next_rune_le [OF assms(1)]] by auto
  ultimately show "yields s (unread_unless_eof ch u)" and "yields s (unread_unless_eof ch (scan_err msg u))"
    using yields_unread [of s] by auto
qed

lemma not_decimal_eof [simp]: "\<not> isDecimal eof"
  by (simp add: isDecimal_def eof_def)

lemma scanMantissa_yields:
  assumes "wf_scanner s"
  shows "yields_with s (scanMantissa ch s)"
proof -
  obtain c t where w: "next_while isDecimal ch s = (c, t)" by fastforce
  note m = next_while_moves [OF w assms]
  have "read_since s t" if "isDecimal ch" "c \<noteq> eof" using m that by auto
  then show ?thesis
    using m yields_unread [of s t] by (auto simp: scanMantissa_def w yields_def)
qed

lemma scanFraction_yields: "wf_scanner s \<Longrightarrow> yields_with s (scanFraction ch s)"
  by (auto simp: scanFraction_def moves_refl split: prod.split
      intro: yields_moves [OF peek_moves scanMantissa_yields [OF moves_wf [OF peek_moves]]])

lemma scanExponent_yields:
  assumes "wf_scanner s"
  shows "yields_with s (scanExponent ch s)"
proof -
  obtain c t where t: "next_rune s = (c, t)" by fastforce
  obtain d u where u: "next_rune t = (d, u)" by fastforce
  note m = next_rune_moves(1) [OF assms t]
  note n = next_rune_moves(1) [OF moves_wf [OF m] u]
  show ?thesis
    using assms yields_moves [OF m scanMantissa_yields [OF moves_wf [OF m]]]
      yields_moves [OF moves_trans [OF m n] scanMantissa_yields [OF moves_wf [OF n]]]
    by (simp add: scanExponent_def t u moves_refl)
qed

lemma fraction_exponent_yields:
  assumes "wf_scanner s"
  shows "yields s (fraction_exponent ch s)"
proof -
  obtain c t where t: "scanFraction ch s = Some (c, t)" and m: "moves s t"
    using yields_withE [OF scanFraction_yields [OF assms]] by metis
  obtain d u where u: "next_rune t = (d, u)" by fastforce
  note n = next_rune_moves(1) [OF moves_wf [OF m] u]
  show ?thesis using m yields_moves [OF moves_trans [OF m n] scanExponent_yields [OF moves_wf [OF n]]]
    by (simp add: fraction_exponent_def t u)
qed

lemma octal_loop_moves:
  "octal_loop ch ill s = (ch', ill', s') \<Longrightarrow> wf_scanner s \<Longrightarrow>
     moves s s' \<and> (s' = s \<and> ch' = ch \<or> ch' = eof \<or> read_since s s')"
proof (induction ch ill s rule: octal_loop.induct)
  case (1 ch ill s)
  show ?case
  proof (cases "isDecimal ch \<and> ch \<noteq> eof")
    case True
    obtain c t where t: "next_rune s = (c, t)" by fastforce
    have w: "octal_loop c (ill \<or> c = 0x38 \<or> c = 0x39) t = (ch', ill', s')"
      using 1(2) True t by (simp add: octal_loop.simps [of ch ill s])
    note m = next_rune_moves(1) [OF 1(3) t]
    note IH = 1(1) [OF True t [symmetric] w moves_wf [OF m]]
    have "read_since t s' \<Longrightarrow> read_since s s'" using read_since_trans [OF next_rune_le [OF t]] by blast
    then show ?thesis using IH moves_trans [OF m] read_since_next [OF t] by auto
  next
    case False
    then show ?thesis using 1(2,3) by (auto simp: octal_loop.simps [of ch ill s] moves_refl)
  qed
qed

lemma scan_hex_yields:
  assumes "wf_scanner s"
  shows "yields_with s (scan_hex s)"
proof -
  obtain c t where t: "next_rune s = (c, t)" by fastforce
  obtain d u where u: "next_while isHexadecimal c t = (d, u)" by fastforce
  show ?thesis using unread_unless_eof_yields [OF t assms u]
    by (auto simp: scan_hex_def t u Let_def option.map_comp comp_def option.map_ident split: if_splits)
qed

lemma scan_octal_yields:
  assumes "wf_scanner s" and t: "next_rune s = (ch, t)"
  shows "yields_with s (scan_octal ch t)"
proof -
  obtain c il u where u: "octal_loop ch False t = (c, il, u)" by (metis surj_pair)
  note m = next_rune_moves(1) [OF assms]
  note o = octal_loop_moves [OF u moves_wf [OF m]]
  have su: "moves s u" using m o moves_trans by blast
  have "read_since s u" if "c \<noteq> eof"
    using o that read_since_next [OF t] read_since_trans [OF next_rune_le [OF t]] by auto
  then have "yields s (unread_unless_eof c u)" "yields s (unread_unless_eof c (scan_err msg u))" for msg
    using su yields_unread [of s] by auto
  moreover have "yields s (fraction_exponent c u)" "yields_with s (scanExponent c u)"
    using su moves_wf yields_moves fraction_exponent_yields scanExponent_yields by blast+
  ultimately show ?thesis
    by (auto simp: scan_octal_def u Let_def option.map_comp comp_def option.map_ident split_def split: if_splits)
qed

lemma scanNumber_yields:
  assumes "wf_scanner s"
  shows "yields_with s (scanNumber ch s)"
proof (cases "ch = 0x30")
  case True
  obtain c t where t: "next_rune s = (c, t)" by fastforce
  note m = next_rune_moves(1) [OF assms t]
  show ?thesis using True yields_moves [OF m scan_hex_yields [OF moves_wf [OF m]]] scan_octal_yields [OF assms t]
    by (simp add: scanNumber_def t)
next
  case False
  obtain c t where t: "scanMantissa ch s = Some (c, t)" and m: "moves s t"
    using yields_withE [OF scanMantissa_yields [OF assms]] by metis
  obtain d u where u: "next_rune t = (d, u)" by fastforce
  note w = moves_wf [OF m]
  note n = next_rune_moves(1) [OF w u]
  have "yields t (unread_unless_eof d u)" using n yields_unread [OF n] read_since_next [OF u] by simp
  then have "yields s (unread_unless_eof d u)" by (rule yields_moves [OF m])
  moreover have "yields s (fraction_exponent d u)" "yields_with s (scanExponent d u)"
    using moves_trans [OF m n] moves_wf yields_moves fraction_exponent_yields scanExponent_yields by blast+
  ultimately show ?thesis using False
    by (auto simp: scanNumber_def t u Let_def option.map_comp comp_def option.map_ident split_def split: if_splits)
qed

lemma comment_loop_moves: "wf_scanner s \<Longrightarrow> moves s (comment_loop ch s)"
proof (induction ch s rule: comment_loop.induct)
  case (1 ch s)
  obtain c t where t: "next_rune s = (c, t)" by fastforce
  note m = next_rune_moves(1) [OF 1(2) t]
  show ?case using 1(1) [OF _ t [symmetric]] 1(2) m moves_trans [OF m] moves_wf [OF m]
    by (auto simp: comment_loop.simps [of ch s] t moves_refl)
qed

lemma scanComment_yields:
  assumes "wf_scanner s"
  shows "yields s (scanComment ch s)"
proof -
  have line: "yields s (case next_rune s1 of (ch, s) \<Rightarrow> case next_while p ch s of (ch, s) \<Rightarrow> if ch \<noteq> eof \<and> ch \<ge> 0 then unread s else Some s)"
    if s1: "moves s s1" for s1 p
  proof -
    obtain c t where t: "next_rune s1 = (c, t)" by fastforce
    obtain d u where u: "next_while p c t = (d, u)" by fastforce
    note y = unread_unless_eof_yields(1) [OF t moves_wf [OF s1] u]
    have "moves s1 u" using next_rune_moves(1) [OF moves_wf [OF s1] t] next_while_moves [OF u] moves_wf moves_trans by blast
    then show ?thesis using yields_moves [OF s1 y] moves_trans [OF s1] t u by (auto split: if_splits)
  qed
  obtain q s1 where q: "peek s = (q, s1)" by fastforce
  note m = peek_moves [OF assms q]
  obtain c t where t: "next_rune s1 = (c, t)" by fastforce
  obtain d u where u: "next_rune t = (d, u)" by fastforce
  note mt = moves_trans [OF m next_rune_moves(1) [OF moves_wf [OF m] t]]
  note mu = moves_trans [OF mt next_rune_moves(1) [OF moves_wf [OF mt] u]]
  have "moves s (comment_loop d u)" using mu comment_loop_moves moves_wf moves_trans by blast
  then show ?thesis
    using q m t u line [OF m] line [OF moves_refl [OF assms]] comment_loop_moves [OF assms, of ch] assms
    by (simp add: scanComment_def Let_def split_def)
qed

lemma digits_loop_moves: "digits_loop ch base n s = (ch', n', s') \<Longrightarrow> wf_scanner s \<Longrightarrow> moves s s'"
proof (induction ch base n s rule: digits_loop.induct)
  case (2 ch base n s)
  obtain c t where t: "next_rune s = (c, t)" by fastforce
  note m = next_rune_moves(1) [OF 2(3) t]
  show ?case using 2(1) [OF _ t [symmetric]] 2(2,3) m moves_trans [OF m] moves_wf [OF m]
    by (auto simp: t moves_refl split: if_splits)
qed (simp add: moves_refl)

lemma scanDigits_yields:
  assumes "wf_scanner s"
  shows "yields_with s (scanDigits ch base n s)"
proof -
  obtain c k t where t: "digits_loop ch base n s = (c, k, t)" by (metis surj_pair)
  note m = digits_loop_moves [OF t assms]
  have "read_since s t" if "k \<noteq> n" "c \<noteq> eof" using digits_loop_rest [OF t] that by auto
  then show ?thesis using m yields_unread [of s t] yields_unread [of s "scan_err msg t" for msg]
    by (auto simp: scanDigits_def t Let_def option.map_comp comp_def option.map_ident)
qed

lemma scanEscape_yields:
  assumes "wf_scanner s"
  shows "yields_with s (scanEscape s)"
proof -
  obtain c t where t: "next_rune s = (c, t)" by fastforce
  obtain d u where u: "next_rune t = (d, u)" by fastforce
  note m = next_rune_moves(1) [OF assms t]
  note n = moves_trans [OF m next_rune_moves(1) [OF moves_wf [OF m] u]]
  have "yields_with s (scanDigits c b k t)" "yields_with s (scanDigits d b k u)" for b k
    using yields_moves scanDigits_yields moves_wf m n by blast+
  then show ?thesis using m by (simp add: scanEscape_def t u)
qed

lemma count_braces_moves:
  assumes "wf_scanner s" and "count_braces b ch s = (b', s')"
  shows "moves s s'"
proof -
  obtain q t where q: "peek s = (q, t)" by fastforce
  obtain c u where u: "next_rune t = (c, u)" by fastforce
  note m = peek_moves [OF assms(1) q]
  note n = moves_trans [OF m next_rune_moves(1) [OF moves_wf [OF m] u]]
  show ?thesis using assms m n by (auto simp: count_braces_def q u Let_def moves_refl split: if_splits)
qed

lemma string_loop_yields: "wf_scanner s \<Longrightarrow> yields s (string_loop braces s)"
proof (induction braces s rule: string_loop.induct)
  case (1 braces s)
  obtain ch t where t: "next_rune s = (ch, t)" by fastforce
  obtain b u where u: "count_braces braces ch t = (b, u)" by fastforce
  note mt = next_rune_moves(1) [OF 1(3) t]
  note mu = moves_trans [OF mt count_braces_moves [OF moves_wf [OF mt] u]]
  obtain x v where v: "scanEscape u = Some (x, v)" and mv: "moves u v"
    using yields_withE [OF scanEscape_yields [OF moves_wf [OF mu]]] by metis
  note mv' = moves_trans [OF mu mv]
  show ?case
    using 1(1) [OF t [symmetric] _ _ u [symmetric] _ v refl] 1(2) [OF t [symmetric] _ _ u [symmetric]]
      moves_wf [OF mu] moves_wf [OF mv'] yields_moves [OF mu] yields_moves [OF mv'] mt
    by (auto simp: string_loop.simps [of braces s] t u v)
qed

lemma slice_int_defined:
  "wf_scanner s \<Longrightarrow> 0 \<le> lo \<Longrightarrow> lo \<le> hi \<Longrightarrow> hi \<le> Offset (srcPos s) \<Longrightarrow> \<exists>x. slice_int lo hi (sc_src s) = Some x"
  by (auto simp: slice_int_def slice_def wf_scanner_def)

lemma next_rune_offset:
  assumes "wf_scanner s" and "next_rune s = (ch, t)"
  shows "Offset (srcPos t) - lastCharLen t = Offset (srcPos s)"
proof -
  have "length (b_last t) + length (b_rest t) = length (b_rest s)"
    using next_rune_last(1) [OF assms(2)] by (metis length_append)
  then show ?thesis using next_rune_moves [OF assms] assms(1) by (auto simp: moves_def wf_scanner_def)
qed

lemma heredoc_loop_yields:
  "wf_scanner s \<Longrightarrow> 0 \<le> lineStart \<Longrightarrow> lineStart \<le> Offset (srcPos s) \<Longrightarrow> yields s (heredoc_loop anchor n lineStart s)"
proof (induction anchor n lineStart s rule: heredoc_loop.induct)
  case (1 anchor n lineStart s)
  obtain ch t where t: "next_rune s = (ch, t)" by fastforce
  note m = next_rune_moves [OF 1(4) t]
  note off = next_rune_offset [OF 1(4) t]
  have o: "0 \<le> Offset (srcPos s)" "Offset (srcPos s) \<le> Offset (srcPos t)" using m(2) off 1(5,6) by linarith+
  obtain line where line: "slice_int lineStart (Offset (srcPos t) - lastCharLen t) (sc_src t) = Some line"
    using slice_int_defined [OF moves_wf [OF m(1)] 1(5), of "Offset (srcPos s)"] 1(6) off o by auto
  note w = moves_wf [OF m(1)]
  show ?case
    using 1(1) [OF t [symmetric]] 1(2) [OF t [symmetric] _ _ refl _ line] 1(3) [OF t [symmetric] _ _ refl]
      w o 1(5,6) m(1) yields_moves [OF m(1)] line off
    by (auto simp: heredoc_loop.simps [of anchor n lineStart s] t Let_def)
qed

text \<open>The last rune was read at the offset \<open>k\<close> or after it.\<close>

definition past :: "int \<Rightarrow> Scanner \<Rightarrow> bool" where
  "past k s \<longleftrightarrow> wf_scanner s \<and> 0 \<le> lastCharLen s \<and> k \<le> Offset (srcPos s) - lastCharLen s"

lemma past_next: "wf_scanner s \<Longrightarrow> k \<le> Offset (srcPos s) \<Longrightarrow> next_rune s = (ch, t) \<Longrightarrow> past k t"
  using next_rune_offset [of s ch t] next_rune_moves [of s ch t] by (auto simp: past_def intro: moves_wf)

lemma past_step: "past k s \<Longrightarrow> next_rune s = (ch, t) \<Longrightarrow> past k t"
  by (rule past_next [of s]) (auto simp: past_def)

lemma past_peek: "past k s \<Longrightarrow> peek s = (ch, t) \<Longrightarrow> past k t"
  by (auto simp: past_def wf_scanner_def dest!: peek_state)

lemma past_while: "next_while p ch s = (ch', t) \<Longrightarrow> past k s \<Longrightarrow> past k t"
proof (induction p ch s rule: next_while.induct)
  case (1 p ch s)
  obtain c u where u: "next_rune s = (c, u)" by fastforce
  show ?case using 1(1) [OF _ u [symmetric]] 1(2,3) past_step [OF 1(3) u]
    by (auto simp: next_while.simps [of p ch s] u split: if_splits)
qed

lemma past_slice: "past k s \<Longrightarrow> 0 \<le> k \<Longrightarrow> \<exists>x. slice_int k (Offset (srcPos s) - lastCharLen s) (sc_src s) = Some x"
  by (rule slice_int_defined) (auto simp: past_def)

lemma scanHeredoc_yields:
  assumes "wf_scanner s"
  shows "yields s (scanHeredoc U s)"
proof -
  obtain c t where t: "next_rune s = (c, t)" by fastforce
  note mt = next_rune_moves(1) [OF assms t]
  define k where "k = Offset (srcPos t)"
  have k: "0 \<le> k" using moves_wf [OF mt] by (auto simp: k_def wf_scanner_def)
  obtain d u where u: "next_rune t = (d, u)" by fastforce
  have mu: "moves s u" "past k u"
    using moves_trans [OF mt next_rune_moves(1) [OF moves_wf [OF mt] u]] past_next [OF moves_wf [OF mt] _ u] by (auto simp: k_def)
  obtain e v where v: "(if d = 0x2D then next_rune u else (d, u)) = (e, v)" by fastforce
  have mv: "moves s v" "past k v"
    using v mu past_step [OF mu(2)] moves_trans [OF mu(1) next_rune_moves(1) [OF moves_wf [OF mu(1)]]] by (auto split: if_splits)
  obtain f w where w: "next_while (\<lambda>ch. isLetter U ch \<or> isDigit U ch) e v = (f, w)" by fastforce
  have mw: "moves s w" "past k w"
    using next_while_moves [OF w moves_wf [OF mv(1)]] moves_trans [OF mv(1)] past_while [OF w mv(2)] by auto
  obtain q x where x: "(if f = 0x0D then peek w else (eof, w)) = (q, x)" by fastforce
  have mx: "moves s x" "past k x"
    using x mw past_peek [OF mw(2)] moves_trans [OF mw(1) peek_moves [OF moves_wf [OF mw(1)]]] by (auto split: if_splits)
  obtain g y where y: "(if f = 0x0D \<and> q = 0x0A then next_rune x else (f, x)) = (g, y)" by fastforce
  have my: "moves s y" "past k y"
    using y mx past_step [OF mx(2)] moves_trans [OF mx(1) next_rune_moves(1) [OF moves_wf [OF mx(1)]]] by (auto split: if_splits)
  obtain ident where ident: "slice_int k (Offset (srcPos y) - lastCharLen y) (sc_src y) = Some ident"
    using past_slice [OF my(2) k] by blast
  have "0 \<le> Offset (srcPos y)" using my(2) k by (simp add: past_def)
  then have "yields s (heredoc_loop a n (Offset (srcPos y)) y)" for a n
    using yields_moves [OF my(1) heredoc_loop_yields [OF moves_wf [OF my(1)]]] by simp
  then show ?thesis using mt mw my
    by (simp add: scanHeredoc_def t u v w x y ident Let_def flip: k_def)
qed

lemma scanIdentifier_yields:
  assumes "past 0 s"
  shows "yields_with s (scanIdentifier U s)"
proof -
  let ?p = "\<lambda>ch. isLetter U ch \<or> isDigit U ch \<or> ch = 0x2D \<or> ch = 0x2E"
  have wf: "wf_scanner s" using assms by (simp add: past_def)
  obtain c t where t: "next_rune s = (c, t)" by fastforce
  obtain d u where u: "next_while ?p c t = (d, u)" by fastforce
  obtain v where v: "unread_unless_eof d u = Some v" and m: "moves s v"
    using unread_unless_eof_yields(1) [OF t wf u] by (auto simp: yields_def)
  have "Offset (srcPos s) \<le> Offset (srcPos v)" using m wf by (auto simp: moves_def wf_scanner_def)
  then obtain lit where "slice_int (Offset (srcPos s) - lastCharLen s) (Offset (srcPos v)) (sc_src v) = Some lit"
    using slice_int_defined [OF moves_wf [OF m], of "Offset (srcPos s) - lastCharLen s" "Offset (srcPos v)"] assms
    by (auto simp: past_def)
  then show ?thesis using m by (simp add: scanIdentifier_def t u v Let_def)
qed

lemma scan_token_yields:
  assumes "past 0 s"
  shows "yields_with s (scan_token U ch s)"
proof -
  have wf: "wf_scanner s" using assms by (simp add: past_def)
  obtain q t where q: "peek s = (q, t)" by fastforce
  note m = peek_moves [OF wf q]
  note w = moves_wf [OF m]
  obtain c u where u: "next_rune t = (c, u)" by fastforce
  note n = moves_trans [OF m next_rune_moves(1) [OF w u]]
  obtain d v where v: "scanMantissa q t = Some (d, v)" and mv: "moves t v"
    using yields_withE [OF scanMantissa_yields [OF w]] by metis
  obtain e x where x: "scanExponent d v = Some (e, x)" and mx: "moves v x"
    using yields_withE [OF scanExponent_yields [OF moves_wf [OF mv]]] by metis
  have "moves s x" using m mv mx moves_trans by blast
  moreover have "yields_with s (scanNumber c u)" using yields_moves [OF n scanNumber_yields [OF moves_wf [OF n]]] .
  ultimately show ?thesis
    using scanIdentifier_yields [OF assms, of U] scanNumber_yields [OF wf, of ch] string_loop_yields [OF wf, of 0]
      scanComment_yields [OF wf, of ch] scanHeredoc_yields [OF wf, of U] wf m
    by (simp add: scan_token_def scanString_def q u v x moves_refl Let_def option.map_comp comp_def option.map_ident split_def)
qed

subsection \<open>The tokens tile the source\<close>

lemma DecodeRune_ascii:
  assumes "DecodeRune s = (r, n)" and "r < RuneSelf" and "s \<noteq> []"
  shows "n = 1 \<and> hd s = char_of r"
proof (cases s)
  case (Cons c cs)
  show ?thesis
  proof (cases "byte_val c < RuneSelf")
    case True
    with Cons assms show ?thesis by auto
  next
    case False
    then have "RuneSelf \<le> r"
      using Cons assms(1) decode_tail_bounds [of "byte_val c" cs r n]
      by (auto simp: Let_def RuneError_def RuneSelf_def split: if_splits option.splits)
    with assms(2) show ?thesis by simp
  qed
qed (use assms in simp)

lemma next_rune_ascii:
  assumes "next_rune s = (ch, t)" and "ch \<noteq> eof" and "ch < RuneSelf"
  shows "b_last t = [char_of ch]"
proof (cases "b_rest s")
  case Nil
  with assms show ?thesis by (simp add: next_rune_def ReadRune_def)
next
  case (Cons c cs)
  obtain r n where d: "DecodeRune (b_rest s) = (r, n)" by fastforce
  have r: "ch = r \<or> ch = RuneError" "b_last t = take n (b_rest s)"
    using assms(1,2) d Cons
    by (auto simp: next_rune_def ReadRune_def Let_def simp del: DecodeRune.simps split: if_splits)
  with assms(3) have "ch = r" by (auto simp: RuneError_def RuneSelf_def)
  with DecodeRune_ascii [OF d] assms(3) Cons r(2) show ?thesis by simp
qed

definition white_space :: "string \<Rightarrow> bool" where
  "white_space ws \<longleftrightarrow> set ws \<subseteq> {CHR '' '', CHR 0x09, CHR 0x0A, CHR 0x0D}"

lemma white_space_simps [simp]: "white_space []" "white_space (ws @ vs) \<longleftrightarrow> white_space ws \<and> white_space vs"
  by (auto simp: white_space_def)

lemma char_of_eq: "byte_val c = n \<Longrightarrow> char_of n = c"
  by (metis char_of_char)

lemma white_chars: "char_of (0x20 :: int) = CHR '' ''" "char_of (0x09 :: int) = CHR 0x09" "char_of (0x0A :: int) = CHR 0x0A"
  "char_of (0x0D :: int) = CHR 0x0D"
  by (intro char_of_eq; simp)+

lemma isWhitespace_char:
  assumes "isWhitespace ch" and "next_rune s = (ch, t)" and "ch \<noteq> eof"
  shows "white_space (b_last t)"
proof -
  have "ch < RuneSelf" using assms(1) by (auto simp: isWhitespace_def RuneSelf_def)
  note l = next_rune_ascii [OF assms(2,3) this]
  show ?thesis using assms(1) by (auto simp: l isWhitespace_def white_space_def white_chars)
qed

text \<open>The end of the source, or a null byte, has just been read.\<close>

definition at_end :: "Scanner \<Rightarrow> bool" where
  "at_end s \<longleftrightarrow> b_last s = [] \<and> b_rest s = [] \<or> b_last s = [CHR 0x00]"

lemma next_rune_eof:
  assumes "next_rune s = (eof, t)"
  shows "at_end t"
proof (cases "b_rest s")
  case Nil
  with assms show ?thesis by (auto simp: next_rune_def ReadRune_def at_end_def)
next
  case (Cons c cs)
  obtain r n where d: "DecodeRune (b_rest s) = (r, n)" by fastforce
  have r: "r = 0" "b_last t = take n (b_rest s)"
    using assms d Cons
    by (auto simp: next_rune_def ReadRune_def Let_def eof_def RuneError_def simp del: DecodeRune.simps split: if_splits)
  have "char_of (0 :: int) = CHR 0x00" by (rule char_of_eq) simp
  with DecodeRune_ascii [OF d] Cons r show ?thesis by (simp add: RuneSelf_def at_end_def)
qed

lemma skip_white_space:
  "next_while isWhitespace ch t = (ch', u) \<Longrightarrow> next_rune s = (ch, t) \<Longrightarrow> wf_scanner s \<Longrightarrow>
     \<exists>ws. b_rest s = ws @ b_last u @ b_rest u \<and> white_space ws \<and> lastCharLen u = int (length (b_last u)) \<and> (ch' \<noteq> eof \<longrightarrow> b_last u \<noteq> []) \<and> (ch' = eof \<longrightarrow> at_end u)"
proof (induction isWhitespace ch t arbitrary: s rule: next_while.induct)
  case (1 ch t)
  note l = next_rune_last [OF 1(3)]
  note m = next_rune_moves [OF 1(4,3)]
  show ?case
  proof (cases "isWhitespace ch \<and> ch \<noteq> eof")
    case True
    obtain c v where v: "next_rune t = (c, v)" by fastforce
    have w: "next_while isWhitespace c v = (ch', u)" using 1(2) True v by (simp add: next_while.simps [of isWhitespace ch t])
    obtain ws where "b_rest t = ws @ b_last u @ b_rest u \<and> white_space ws \<and> lastCharLen u = int (length (b_last u)) \<and> (ch' \<noteq> eof \<longrightarrow> b_last u \<noteq> []) \<and> (ch' = eof \<longrightarrow> at_end u)"
      using 1(1) [OF True v [symmetric] w v moves_wf [OF m(1)]] by blast
    moreover have "white_space (b_last t)" using isWhitespace_char [OF _ 1(3)] True by blast
    ultimately show ?thesis using l(1) by (intro exI [of _ "b_last t @ ws"]) auto
  next
    case False
    then show ?thesis using 1(2,3) l m(2) next_rune_eof by (auto simp: next_while.simps [of isWhitespace ch t] intro!: exI [of _ "[]"])
  qed
qed

lemma start_token_simps [simp]:
  "b_rest (start_token s) = b_rest s" "b_last (start_token s) = b_last s" "sc_src (start_token s) = sc_src s"
  "srcPos (start_token s) = srcPos s" "prevPos (start_token s) = prevPos s" "lastCharLen (start_token s) = lastCharLen s"
  "tokStart (start_token s) = Offset (srcPos s) - lastCharLen s"
  by (simp_all add: start_token_def Let_def)

lemma wf_start_token [simp]: "wf_scanner (start_token s) = wf_scanner s"
  by (simp add: wf_scanner_def)

lemma suffix_split:
  assumes "src = pre @ xs" and "src = pre' @ ys" and "length ys \<le> length xs"
  shows "xs = take (length xs - length ys) xs @ ys"
proof -
  have "pre @ xs = pre' @ ys" using assms(1,2) by (rule subst)
  then obtain us where "pre = pre' @ us \<and> us @ xs = ys \<or> pre @ us = pre' \<and> xs = us @ ys"
    unfolding append_eq_append_conv2 by blast
  then have "xs = us @ ys" using assms(3) by auto
  then show ?thesis by simp
qed

lemma slice_between:
  assumes "wf_scanner s" and "sc_src s = pre @ xs" and "length (b_rest s) \<le> length xs"
  shows "\<exists>text. slice_int (int (length (sc_src s)) - int (length xs)) (Offset (srcPos s)) (sc_src s) = Some text \<and> xs = text @ b_rest s"
proof -
  obtain pre' where "sc_src s = pre' @ b_rest s" using assms(1) by (auto simp: wf_scanner_def)
  note split = suffix_split [OF assms(2) this assms(3)]
  obtain k where k: "length xs = length (b_rest s) + k" using assms(3) le_iff_add by blast
  have "Offset (srcPos s) = int (length pre + k)" using assms(1,2) k by (simp add: wf_scanner_def)
  then have "slice_int (int (length (sc_src s)) - int (length xs)) (Offset (srcPos s)) (sc_src s) = Some (take k xs)"
    using assms(2) k by (simp add: slice_int_def slice_def nat_add_distrib)
  moreover have "length xs - length (b_rest s) = k" using k by simp
  note split [unfolded this]
  ultimately show ?thesis by blast
qed

lemma scan_token_eof: "scan_token U eof s = Some (EOF, s)"
  by (simp add: scan_token_def isLetter_def eof_def isDecimal_def)

lemma scanNumber_type: "scanNumber ch s = Some (t, s') \<Longrightarrow> t \<noteq> EOF"
  by (auto simp: scanNumber_def scan_hex_def scan_octal_def Let_def split: if_splits prod.splits bind_splits)

lemma scan_token_type:
  assumes "scan_token U ch s = Some (EOF, s')"
  shows "ch = eof \<and> s' = s"
proof -
  have "\<not> isLetter U ch" "\<not> isDecimal ch"
    using assms scanNumber_type [of ch s EOF s'] by (auto simp: scan_token_def split: if_splits)
  then show ?thesis using assms scanNumber_type
    by (auto simp: scan_token_def Let_def split: if_splits prod.splits bind_splits)
qed

lemma Scan_total:
  assumes "wf_scanner s"
  shows "\<exists>t s' ws. Scan U s = Some (t, s') \<and> wf_scanner s' \<and> sc_src s' = sc_src s
    \<and> b_rest s = ws @ tok_Text t @ b_rest s' \<and> white_space ws
    \<and> (if tok_Type t = EOF then b_rest s' = [] \<or> tok_Text t = [CHR 0x00] else length (b_rest s') < length (b_rest s))"
proof -
  obtain c t where t: "next_rune s = (c, t)" by fastforce
  obtain d u where u: "next_while isWhitespace c t = (d, u)" by fastforce
  note mt = next_rune_moves [OF assms t]
  have mu: "moves s u" using next_while_moves [OF u moves_wf [OF mt(1)]] moves_trans [OF mt(1)] by blast
  obtain ws where ws: "b_rest s = ws @ b_last u @ b_rest u" "white_space ws" "lastCharLen u = int (length (b_last u))"
    "d \<noteq> eof \<longrightarrow> b_last u \<noteq> []" "d = eof \<longrightarrow> at_end u" using skip_white_space [OF u t assms] by blast
  obtain pre where pre: "sc_src u = pre @ b_last u @ b_rest u" using moves_wf [OF mu] by (auto simp: wf_scanner_def)
  have off: "Offset (srcPos u) - lastCharLen u = int (length (sc_src u)) - int (length (b_last u @ b_rest u))"
    using moves_wf [OF mu] ws(3) by (simp add: wf_scanner_def)
  have "past 0 (start_token u)" using moves_wf [OF mu] ws(3) off pre by (simp add: past_def)
  then obtain tok v where v: "scan_token U d (start_token u) = Some (tok, v)" and mv: "moves (start_token u) v"
    using yields_withE [OF scan_token_yields] by metis
  have start: "tokStart v = int (length (sc_src v)) - int (length (b_last u @ b_rest u))" "sc_src v = sc_src u"
    "length (b_rest v) \<le> length (b_rest u)" using mv off by (simp_all add: moves_def)
  obtain lit where lit: "slice_int (tokStart v) (Offset (srcPos v)) (sc_src v) = Some lit" "b_last u @ b_rest u = lit @ b_rest v"
    using slice_between [OF moves_wf [OF mv], of pre "b_last u @ b_rest u"] start pre by auto
  have "0 \<le> tokStart v" using start pre by simp
  let ?t = "\<lparr>tok_Type = tok, tok_Pos = tokPos v, tok_Text = lit, tok_JSON = False\<rparr>"
  let ?s = "v\<lparr>tokEnd := Offset (srcPos v), tokStart := Offset (srcPos v)\<rparr>"
  have s: "Scan U s = Some (?t, ?s)" using \<open>0 \<le> tokStart v\<close>
    by (simp add: Scan_def t u v lit Let_def)
  have "if tok = EOF then b_rest v = [] \<or> lit = [CHR 0x00] else length (b_rest v) < length (b_rest s)"
  proof (cases "tok = EOF")
    case True
    then have "d = eof" "v = start_token u" using scan_token_type v by blast+
    then show ?thesis using True ws(5) lit(2) by (auto simp: at_end_def)
  next
    case False
    then have "d \<noteq> eof" using v scan_token_eof [of U "start_token u"] by auto
    then have "0 < length (b_last u)" using ws(4) by simp
    moreover have "length (b_rest s) = length ws + length (b_last u) + length (b_rest u)" using ws(1) by simp
    ultimately have "length (b_rest v) < length (b_rest s)" using start(3) by linarith
    with False show ?thesis by simp
  qed
  moreover have "wf_scanner ?s"
    using moves_wf [OF mv] by (simp add: wf_scanner_def)
  moreover have "sc_src v = sc_src s" using mv mu by (simp add: moves_def)
  moreover have "b_rest s = ws @ lit @ b_rest v" using ws(1) lit(2) by simp
  ultimately show ?thesis using s ws(2) by (intro exI [of _ ?t] exI [of _ ?s] exI [of _ ws]) (auto split: if_splits)
qed

text \<open>The tokens of a source, up to the first one that stands for its end.\<close>

fun scan_all :: "unicode \<Rightarrow> nat \<Rightarrow> Scanner \<Rightarrow> Token list option" where
  "scan_all U 0 s = None"
| "scan_all U (Suc n) s = do {
     (t, s) \<leftarrow> Scan U s;
     (if tok_Type t = EOF then Some [t] else map_option ((#) t) (scan_all U n s))
   }"

lemma scan_all_tiles:
  "wf_scanner s \<Longrightarrow> length (b_rest s) < n \<Longrightarrow>
     \<exists>toks gaps left. scan_all U n s = Some toks \<and> toks \<noteq> [] \<and> tok_Type (last toks) = EOF
       \<and> list_all white_space gaps \<and> length gaps = length toks
       \<and> b_rest s = concat (map2 (@) gaps (map tok_Text toks)) @ left \<and> (left = [] \<or> tok_Text (last toks) = [CHR 0x00])"
proof (induction n arbitrary: s)
  case (Suc n)
  obtain t s' ws where t: "Scan U s = Some (t, s')" "wf_scanner s'" "b_rest s = ws @ tok_Text t @ b_rest s'" "white_space ws"
    "if tok_Type t = EOF then b_rest s' = [] \<or> tok_Text t = [CHR 0x00] else length (b_rest s') < length (b_rest s)"
    using Scan_total [OF Suc.prems(1)] by blast
  show ?case
  proof (cases "tok_Type t = EOF")
    case True
    with t show ?thesis by (intro exI [of _ "[t]"] exI [of _ "[ws]"] exI [of _ "b_rest s'"]) simp
  next
    case False
    then obtain toks gaps left where IH: "scan_all U n s' = Some toks" "toks \<noteq> []" "tok_Type (last toks) = EOF"
      "list_all white_space gaps" "length gaps = length toks" "b_rest s' = concat (map2 (@) gaps (map tok_Text toks)) @ left"
      "left = [] \<or> tok_Text (last toks) = [CHR 0x00]"
      using Suc.IH [OF t(2)] Suc.prems(2) t(5) by (auto simp: less_Suc_eq_le)
    with False t show ?thesis by (intro exI [of _ "t # toks"] exI [of _ "ws # gaps"] exI [of _ left]) simp
  qed
qed simp

text \<open>
  C31 (source_tiles): scanning a source always ends, and never panics, whatever bytes it holds:
  putting back a rune and cutting out the text of a token never fail, and every token but the
  one for the end consumes something. The texts of the tokens, with only white space between
  them, are the source from its beginning up to the end or to a null byte: nothing is skipped,
  and nothing is read twice.
\<close>

theorem source_tiles:
  "\<exists>toks gaps left. scan_all U (Suc (length src)) (scanner_New src) = Some toks
     \<and> toks \<noteq> [] \<and> tok_Type (last toks) = EOF \<and> length gaps = length toks \<and> list_all white_space gaps
     \<and> src = concat (map2 (@) gaps (map tok_Text toks)) @ left \<and> (left = [] \<or> tok_Text (last toks) = [CHR 0x00])"
  using scan_all_tiles [OF wf_scanner_New, of src "Suc (length src)" U] by (simp add: scanner_New_def) blast

end
