(* ===== verification/HclParser.thy ===== *)
theory HclParser
  imports HclScanner GoMonad
begin

text \<open>
  The syntax trees (\<^verbatim>\<open>hcl/hcl/ast/ast.go\<close>) and the parser (\<^verbatim>\<open>hcl/hcl/parser/parser.go\<close>), as
  programs on the state of the parser. An error leaves the state behind, since a caller may go on
  after it. The recursion takes fuel; a parser that runs out of it has not returned, and the
  parser of a file is given an amount that is proved to be enough.
\<close>

subsection \<open>Syntax trees\<close>

record Comment =
  cm_Start :: Pos
  cm_Text :: string

type_synonym CommentGroup = "Comment list"

datatype Node =
    LiteralType Token "CommentGroup option" "CommentGroup option"
  | ListType Pos Pos "Node list"
  | ObjectType Pos Pos "ObjectItem list"
  | ObjectList "ObjectItem list"
  | ItemNode ObjectItem
and ObjectItem = ObjectItem (Keys: "Token list") (Assign: Pos) (Val: Node) (LeadComment: "CommentGroup option")
    (LineComment: "CommentGroup option")

record AstFile =
  f_Node :: Node
  f_Comments :: "CommentGroup list"

definition Item_Pos :: "ObjectItem \<Rightarrow> Pos" where
  "Item_Pos i = (case Keys i of [] \<Rightarrow> no_pos | k # _ \<Rightarrow> tok_Pos k)"

text \<open>The position of a list of items is that of the first; there is none when the list is empty.\<close>

fun Node_Pos :: "Node \<Rightarrow> Pos option" where
  "Node_Pos (LiteralType t _ _) = Some (tok_Pos t)"
| "Node_Pos (ListType lbrack _ _) = Some lbrack"
| "Node_Pos (ObjectType lbrace _ _) = Some lbrace"
| "Node_Pos (ObjectList items) = (case items of [] \<Rightarrow> None | i # _ \<Rightarrow> Some (Item_Pos i))"
| "Node_Pos (ItemNode i) = Some (Item_Pos i)"

subsection \<open>State and errors\<close>

datatype perror = EofToken | PosError Pos string

fun perror_text :: "perror \<Rightarrow> string" where
  "perror_text EofToken = ''EOF token found''"
| "perror_text (PosError pos msg) = ''At '' @ Pos_String pos @ '': '' @ msg"

record Parser =
  sc :: Scanner
  tok :: Token
  comments :: "CommentGroup list"
  leadComment :: "CommentGroup option"
  lineComment :: "CommentGroup option"
  p_n :: nat

definition newParser :: "string \<Rightarrow> Parser" where
  "newParser src = \<lparr>sc = scanner_New src, tok = no_token, comments = [], leadComment = None, lineComment = None, p_n = 0\<rparr>"

type_synonym 'a parse = "(Parser, perror, 'a) go"

abbreviation pos_error :: "Pos \<Rightarrow> string \<Rightarrow> 'a parse" where
  "pos_error pos msg \<equiv> throw (PosError pos msg)"

definition read_token :: "unicode \<Rightarrow> unit parse" where
  "read_token U = State (\<lambda>p. case Scan U (sc p) of
       None \<Rightarrow> (Panicked IndexOutOfRange, p)
     | Some (t, s) \<Rightarrow> (Ok (), p\<lparr>sc := s, tok := t\<rparr>))"

subsection \<open>Comments\<close>

definition comment_endline :: "Token \<Rightarrow> int" where
  "comment_endline t = Line (tok_Pos t) +
     (if length (tok_Text t) > 1 \<and> tok_Text t ! 1 = CHR ''*'' then int (count_list (tok_Text t) newline_char) else 0)"

definition consumeComment :: "unicode \<Rightarrow> (Comment \<times> int) parse" where
  "consumeComment U =
     must (gets tok) (\<lambda>t.
     must (read_token U) (\<lambda>_.
     ok (\<lparr>cm_Start = tok_Pos t, cm_Text = tok_Text t\<rparr>, comment_endline t)))"

fun comment_group :: "unicode \<Rightarrow> nat \<Rightarrow> int \<Rightarrow> int \<Rightarrow> CommentGroup \<Rightarrow> (CommentGroup \<times> int) parse" where
  "comment_group U 0 n endline cs = halt Blocked"
| "comment_group U (Suc f) n endline cs =
     must (gets tok) (\<lambda>t.
     if tok_Type t = COMMENT \<and> Line (tok_Pos t) \<le> endline + n then
       must (consumeComment U) (\<lambda>(c, endline). comment_group U f n endline (cs @ [c]))
     else ok (cs, endline))"

definition consumeCommentGroup :: "unicode \<Rightarrow> nat \<Rightarrow> int \<Rightarrow> (CommentGroup \<times> int) parse" where
  "consumeCommentGroup U f n =
     must (gets tok) (\<lambda>t.
     must (comment_group U f n (Line (tok_Pos t)) []) (\<lambda>(cs, endline).
     must (modify (\<lambda>p. p\<lparr>comments := comments p @ [cs]\<rparr>)) (\<lambda>_. ok (cs, endline))))"

fun lead_groups :: "unicode \<Rightarrow> nat \<Rightarrow> CommentGroup option \<Rightarrow> int \<Rightarrow> (CommentGroup option \<times> int) parse" where
  "lead_groups U 0 c endline = halt Blocked"
| "lead_groups U (Suc f) c endline =
     must (gets tok) (\<lambda>t.
     if tok_Type t = COMMENT then
       must (consumeCommentGroup U f 1) (\<lambda>(c, endline). lead_groups U f (Some c) endline)
     else ok (c, endline))"

definition collect_comments :: "unicode \<Rightarrow> nat \<Rightarrow> Token \<Rightarrow> unit parse" where
  "collect_comments U f prev =
     must (gets tok) (\<lambda>t.
     must (if Line (tok_Pos t) = Line (tok_Pos prev) then
             must (consumeCommentGroup U f 0) (\<lambda>(c, endline).
             must (gets tok) (\<lambda>t.
             must (if Line (tok_Pos t) \<noteq> endline then modify (\<lambda>p. p\<lparr>lineComment := Some c\<rparr>) else ok ()) (\<lambda>_.
             ok (Some c))))
           else ok None) (\<lambda>c.
     must (lead_groups U f c (- 1)) (\<lambda>(c, endline).
     must (gets tok) (\<lambda>t.
     if endline + 1 = Line (tok_Pos t) \<and> tok_Type t \<noteq> RBRACE \<and> tok_Type t \<noteq> RBRACK
     then modify (\<lambda>p. p\<lparr>leadComment := c\<rparr>) else ok ()))))"

definition scan :: "unicode \<Rightarrow> nat \<Rightarrow> Token parse" where
  "scan U f =
     must (gets p_n) (\<lambda>n.
     if n \<noteq> 0 then must (modify (\<lambda>p. p\<lparr>p_n := 0\<rparr>)) (\<lambda>_. gets tok)
     else
       must (gets tok) (\<lambda>prev.
       must (read_token U) (\<lambda>_.
       must (gets tok) (\<lambda>t.
       must (if tok_Type t = COMMENT then collect_comments U f prev else ok ()) (\<lambda>_. gets tok)))))"

definition unscan :: "unit parse" where
  "unscan = modify (\<lambda>p. p\<lparr>p_n := 1\<rparr>)"

subsection \<open>Objects\<close>

text \<open>The keys come back together with the error, if any.\<close>

fun objectKey :: "unicode \<Rightarrow> nat \<Rightarrow> Token list \<Rightarrow> (Token list \<times> perror option) parse" where
  "objectKey U 0 keys = halt Blocked"
| "objectKey U (Suc f) keys =
     must (scan U (Suc f)) (\<lambda>t.
     (case tok_Type t of
        EOF \<Rightarrow> ok (keys, Some EofToken)
      | ASSIGN \<Rightarrow>
          if length keys > 1 then ok ([], Some (PosError (tok_Pos t) (''nested object expected: LBRACE got: '' @ Type_String (tok_Type t))))
          else if length keys = 0 then ok ([], Some (PosError (tok_Pos t) ''no object keys found!''))
          else ok (keys, None)
      | LBRACE \<Rightarrow>
          ok (keys, if keys = [] then Some (PosError (tok_Pos t) (''expected: IDENT | STRING got: '' @ Type_String (tok_Type t))) else None)
      | IDENT \<Rightarrow> objectKey U f (keys @ [t])
      | STRING \<Rightarrow> objectKey U f (keys @ [t])
      | ILLEGAL \<Rightarrow> ok (keys, Some (PosError (tok_Pos t) ''illegal character''))
      | _ \<Rightarrow> ok (keys, Some (PosError (tok_Pos t) (''expected: IDENT | STRING | ASSIGN | LBRACE got: '' @ Type_String (tok_Type t))))))"

text \<open>What objectItem makes of the keys, before it looks at the value.\<close>

definition item_keys :: "unicode \<Rightarrow> nat \<Rightarrow> Token list parse" where
  "item_keys U f =
     must (objectKey U f []) (\<lambda>(keys, err).
     must (gets tok) (\<lambda>t.
     let err = (if keys \<noteq> [] \<and> err = Some EofToken then None else err) in
     if keys \<noteq> [] \<and> err \<noteq> None \<and> tok_Type t = RBRACE
     then must (modify (\<lambda>p. p\<lparr>tok := (tok p)\<lparr>tok_Type := EOF\<rparr>\<rparr>)) (\<lambda>_. ok keys)
     else case err of Some e \<Rightarrow> throw e | None \<Rightarrow> ok keys))"

definition take_lead :: "CommentGroup option parse" where
  "take_lead = must (gets leadComment) (\<lambda>c. must (modify (\<lambda>p. p\<lparr>leadComment := None\<rparr>)) (\<lambda>_. ok c))"

definition take_line :: "CommentGroup option parse" where
  "take_line = must (gets lineComment) (\<lambda>c. must (modify (\<lambda>p. p\<lparr>lineComment := None\<rparr>)) (\<lambda>_. ok c))"

text \<open>The look-ahead for a comment on the line of the item.\<close>

definition item_end :: "unicode \<Rightarrow> nat \<Rightarrow> Token list \<Rightarrow> Node \<Rightarrow> CommentGroup option parse" where
  "item_end U f keys v =
     must take_line (\<lambda>c.
     must (scan U f) (\<lambda>_.
     must (gets lineComment) (\<lambda>lc.
     must (if keys \<noteq> [] \<and> map_option Line (Node_Pos v) = Some (Line (tok_Pos (hd keys))) \<and> lc \<noteq> None
           then must (modify (\<lambda>p. p\<lparr>lineComment := None\<rparr>)) (\<lambda>_. ok lc) else ok c) (\<lambda>c.
     must unscan (\<lambda>_. ok c)))))"

definition literalType :: "Node parse" where
  "literalType = must (gets tok) (\<lambda>t. ok (LiteralType t None None))"

definition is_literal_token :: "token_type \<Rightarrow> bool" where
  "is_literal_token t \<longleftrightarrow> t \<in> {NUMBER, FLOAT, BOOL, STRING, HEREDOC}"

text \<open>The comment after a comma belongs to the literal before it.\<close>

definition comma_comment :: "unicode \<Rightarrow> nat \<Rightarrow> Node list \<Rightarrow> Node list parse" where
  "comma_comment U f l =
     must (scan U f) (\<lambda>_.
     must (gets lineComment) (\<lambda>lc.
     must (if lc \<noteq> None \<and> l \<noteq> [] then
             (case last l of
                LiteralType t lead _ \<Rightarrow>
                  must (modify (\<lambda>p. p\<lparr>lineComment := None\<rparr>)) (\<lambda>_. ok (butlast l @ [LiteralType t lead lc]))
              | _ \<Rightarrow> ok l)
           else ok l) (\<lambda>l.
     must unscan (\<lambda>_. ok l))))"

fun objectList :: "unicode \<Rightarrow> nat \<Rightarrow> bool \<Rightarrow> ObjectItem list \<Rightarrow> (ObjectItem list \<times> perror option) parse"
and objectItem :: "unicode \<Rightarrow> nat \<Rightarrow> ObjectItem parse"
and object_value :: "unicode \<Rightarrow> nat \<Rightarrow> Node parse"
and objectType :: "unicode \<Rightarrow> nat \<Rightarrow> Node parse"
and listType :: "unicode \<Rightarrow> nat \<Rightarrow> Pos \<Rightarrow> Node list \<Rightarrow> bool \<Rightarrow> Node parse" where
  "objectList U 0 obj items = halt Blocked"
| "objectItem U 0 = halt Blocked"
| "object_value U 0 = halt Blocked"
| "objectType U 0 = halt Blocked"
| "listType U 0 lbrack l needComma = halt Blocked"
| "objectList U (Suc f) obj items =
     must (if obj then must (scan U f) (\<lambda>t. must unscan (\<lambda>_. ok (tok_Type t = RBRACE))) else ok False) (\<lambda>stop.
     if stop then ok (items, None)
     else catch (objectItem U f)
       (\<lambda>n. must (scan U f) (\<lambda>t.
            must (if tok_Type t \<noteq> COMMA then unscan else ok ()) (\<lambda>_.
            objectList U f obj (items @ [n]))))
       (\<lambda>err. if err = EofToken then ok (items, None) else ok (items, Some err)))"
| "objectItem U (Suc f) =
     must (item_keys U f) (\<lambda>keys.
     must take_lead (\<lambda>lead.
     must (gets tok) (\<lambda>t.
     must (if tok_Type t = ASSIGN then must (object_value U f) (\<lambda>v. ok (tok_Pos t, v))
           else if tok_Type t = LBRACE then must (objectType U f) (\<lambda>v. ok (no_pos, v))
           else pos_error (tok_Pos t) (''key '' @ [CHR 0x27] @ Join (map tok_Text keys) '' '' @ [CHR 0x27]
                  @ '' expected start of object ('' @ [CHR 0x27] @ ''{'' @ [CHR 0x27] @ '') or assignment ('' @ [CHR 0x27] @ ''='' @ [CHR 0x27] @ '')''))
       (\<lambda>(assign, v).
     must (item_end U f keys v) (\<lambda>lc.
     ok (ObjectItem keys assign v lead lc))))))"
| "object_value U (Suc f) =
     must (scan U f) (\<lambda>t.
     if is_literal_token (tok_Type t) then literalType
     else if tok_Type t = LBRACE then objectType U f
     else if tok_Type t = LBRACK then listType U f (tok_Pos t) [] False
     else if tok_Type t = EOF then throw EofToken
     else pos_error (tok_Pos t) (''Unknown token: '' @ Token_String t))"
| "objectType U (Suc f) =
     must (gets tok) (\<lambda>t.
     must (objectList U f True []) (\<lambda>(l, err).
     must (gets tok) (\<lambda>t'.
     must (case err of
             Some e \<Rightarrow> if tok_Type t' \<noteq> RBRACE then throw e else ok ()
           | None \<Rightarrow> ok ()) (\<lambda>_.
     must (scan U f) (\<lambda>t'.
     if tok_Type t' \<noteq> RBRACE
     then pos_error (tok_Pos t') (''object expected closing RBRACE got: '' @ Type_String (tok_Type t'))
     else must (gets tok) (\<lambda>t'. ok (ObjectType (tok_Pos t) (tok_Pos t') l)))))))"
| "listType U (Suc f) lbrack l needComma =
     must (scan U f) (\<lambda>t.
     if needComma \<and> tok_Type t \<notin> {COMMA, RBRACK}
     then pos_error (tok_Pos t) (''error parsing list, expected comma or list end, got: '' @ Type_String (tok_Type t))
     else if is_literal_token (tok_Type t) then
       must (gets tok) (\<lambda>t.
       must take_lead (\<lambda>lead.
       listType U f lbrack (l @ [LiteralType t lead None]) True))
     else if tok_Type t = COMMA then
       must (comma_comment U f l) (\<lambda>l. listType U f lbrack l False)
     else if tok_Type t = LBRACE then
       catch (objectType U f) (\<lambda>v. listType U f lbrack (l @ [v]) True)
         (\<lambda>err. pos_error (tok_Pos t) (''error while trying to parse object within list: '' @ perror_text err))
     else if tok_Type t = LBRACK then
       catch (must (gets tok) (\<lambda>t. listType U f (tok_Pos t) [] False)) (\<lambda>v. listType U f lbrack (l @ [v]) needComma)
         (\<lambda>err. pos_error (tok_Pos t) (''error while trying to parse list within list: '' @ perror_text err))
     else if tok_Type t = RBRACK then
       must (gets tok) (\<lambda>t. ok (ListType lbrack (tok_Pos t) l))
     else pos_error (tok_Pos t) (''unexpected token while parsing list: '' @ Type_String (tok_Type t)))"

subsection \<open>Files\<close>

fun replace_crlf :: "string \<Rightarrow> string" where
  "replace_crlf (c # d # s) =
     (if c = CHR 0x0D \<and> d = newline_char then newline_char # replace_crlf s else c # replace_crlf (d # s))"
| "replace_crlf s = s"

definition parse_fuel :: "string \<Rightarrow> nat" where
  "parse_fuel src = 4 * length src + 4"

definition Parser_Parse :: "unicode \<Rightarrow> nat \<Rightarrow> Parser \<Rightarrow> (perror, AstFile) outcome" where
  "Parser_Parse U f p =
     (case run_state (objectList U f False []) p of
        (Stop e, _) \<Rightarrow> Stop e
      | (Ok (items, err), p) \<Rightarrow>
          (case errors (sc p) of
             (pos, msg) # _ \<Rightarrow> Err (PosError pos msg)
           | [] \<Rightarrow>
               (case err of
                  Some e \<Rightarrow> Err e
                | None \<Rightarrow> Ok \<lparr>f_Node = ObjectList items, f_Comments = comments p\<rparr>)))"

definition hcl_Parse :: "unicode \<Rightarrow> string \<Rightarrow> (perror, AstFile) outcome" where
  "hcl_Parse U src = (let src = replace_crlf src in Parser_Parse U (parse_fuel src) (newParser src))"

subsection \<open>The parser returns\<close>

text \<open>
  What the parser can still read: the rest of the source, and the token that was put back. A
  token that has just been read has consumed something, unless it stands for the end.
\<close>

definition within :: "nat \<Rightarrow> Parser \<Rightarrow> bool" where
  "within a p \<longleftrightarrow> wf_scanner (sc p)
     \<and> length (b_rest (sc p)) + (if p_n p \<noteq> 0 \<and> tok_Type (tok p) \<noteq> EOF then 1 else 0) \<le> a"

definition scanned :: "nat \<Rightarrow> Parser \<Rightarrow> bool" where
  "scanned a p \<longleftrightarrow> wf_scanner (sc p) \<and> p_n p = 0
     \<and> length (b_rest (sc p)) + (if tok_Type (tok p) = EOF then 0 else 1) \<le> a"

text \<open>It stopped with an error, not with a panic or for want of fuel.\<close>

definition failed :: "nat \<Rightarrow> perror stop \<Rightarrow> Parser \<Rightarrow> bool" where
  "failed a e p \<longleftrightarrow> (\<exists>x. e = Error x) \<and> within a p"

lemma within_mono: "within a p \<Longrightarrow> a \<le> b \<Longrightarrow> within b p"
  by (simp add: within_def)

lemma scanned_mono: "scanned a p \<Longrightarrow> a \<le> b \<Longrightarrow> scanned b p"
  by (simp add: scanned_def)

lemma scanned_within: "scanned a p \<Longrightarrow> within a p"
  by (simp add: scanned_def within_def)

lemma scanned_less: "scanned a p \<Longrightarrow> tok_Type (tok p) \<noteq> EOF \<Longrightarrow> 0 < a \<and> within (a - 1) p \<and> scanned a p"
  by (auto simp: scanned_def within_def)

lemma failed_mono: "failed a e p \<Longrightarrow> a \<le> b \<Longrightarrow> failed b e p"
  by (auto simp: failed_def intro: within_mono)

lemma triple_unscan: "triple (scanned a) unscan (\<lambda>_. within a) E"
  unfolding unscan_def by (rule triple_modify) (auto simp: scanned_def within_def wf_scanner_def)

lemma triple_read_token:
  "triple (\<lambda>p. wf_scanner (sc p) \<and> p_n p = 0 \<and> length (b_rest (sc p)) \<le> a) (read_token U) (\<lambda>_. scanned a) E"
proof (rule tripleI)
  fix p :: Parser assume p: "wf_scanner (sc p) \<and> p_n p = 0 \<and> length (b_rest (sc p)) \<le> a"
  then obtain t s ws where t: "Scan U (sc p) = Some (t, s)" "wf_scanner s" "b_rest (sc p) = ws @ tok_Text t @ b_rest s"
    "if tok_Type t = EOF then b_rest s = [] \<or> tok_Text t = [CHR 0x00] else length (b_rest s) < length (b_rest (sc p))"
    using Scan_total by blast
  have "length (b_rest s) + (if tok_Type t = EOF then 0 else 1) \<le> length (b_rest (sc p))"
  proof (cases "tok_Type t = EOF")
    case True
    then show ?thesis using arg_cong [OF t(3), of length] by simp
  next
    case False
    then have "length (b_rest s) < length (b_rest (sc p))" using t(4) by argo
    with False show ?thesis by simp
  qed
  with p t(1,2) show "case run_state (read_token U) p of (Ok x, s') \<Rightarrow> scanned a s' | (Stop e, s') \<Rightarrow> E e s'"
    by (simp add: read_token_def scanned_def)
qed

text \<open>A comment is consumed, and the next token is read.\<close>

lemma triple_consumeComment:
  "triple (\<lambda>p. scanned a p \<and> tok_Type (tok p) = COMMENT) (consumeComment U) (\<lambda>_ p. 0 < a \<and> scanned (a - 1) p) E"
proof (cases a)
  case 0
  then show ?thesis by (auto intro!: tripleI simp: scanned_def)
next
  case (Suc b)
  show ?thesis
    unfolding consumeComment_def Suc
    apply (rule triple_must [OF triple_gets])
    apply (rule triple_must [where Q = "\<lambda>_. scanned b"])
     apply (rule triple_conseq [OF triple_read_token])
       apply (auto simp: scanned_def) [3]
    apply (rule triple_ok)
    apply simp
    done
qed

lemma triple_guard: "(b \<Longrightarrow> triple P m Q E) \<Longrightarrow> triple (\<lambda>p. b \<and> P p) m Q E"
  by (cases b) (simp_all add: triple_def)

lemma triple_comment_group: "a < f \<Longrightarrow> triple (scanned a) (comment_group U f n endline cs) (\<lambda>_. scanned a) E"
proof (induction f arbitrary: a endline cs)
  case (Suc f)
  show ?case
    unfolding comment_group.simps
  proof (rule triple_must [OF triple_gets], rule triple_if)
    fix t :: Token assume "tok_Type t = COMMENT \<and> Line (tok_Pos t) \<le> endline + n"
    show "triple (\<lambda>p. scanned a p \<and> t = tok p) (must (consumeComment U) (\<lambda>(c, endline). comment_group U f n endline (cs @ [c])))
        (\<lambda>_. scanned a) E"
    proof (rule triple_must)
      show "triple (\<lambda>p. scanned a p \<and> t = tok p) (consumeComment U) (\<lambda>_ p. 0 < a \<and> scanned (a - 1) p) E"
        by (rule triple_conseq [OF triple_consumeComment]) (use \<open>tok_Type t = COMMENT \<and> _\<close> in auto)
      show "triple (\<lambda>p. 0 < a \<and> scanned (a - 1) p) (case x of (c, endline) \<Rightarrow> comment_group U f n endline (cs @ [c])) (\<lambda>_. scanned a) E" for x
        by (rule triple_guard, cases x)
          (use Suc.prems in \<open>auto intro!: triple_conseq [OF Suc.IH [of "a - 1"]] elim: scanned_mono\<close>)
    qed
  qed (auto intro!: triple_ok)
qed simp

text \<open>A group has at least one comment.\<close>

lemma triple_consumeCommentGroup:
  assumes "a < f" and "0 \<le> n"
  shows "triple (\<lambda>p. scanned a p \<and> tok_Type (tok p) = COMMENT) (consumeCommentGroup U f n) (\<lambda>_ p. 0 < a \<and> scanned (a - 1) p) E"
proof -
  have group: "triple (\<lambda>p. (scanned a p \<and> tok_Type (tok p) = COMMENT) \<and> t = tok p) (comment_group U f n (Line (tok_Pos t)) [])
      (\<lambda>_ p. 0 < a \<and> scanned (a - 1) p) E" for t
  proof (cases f)
    case (Suc g)
    have "triple (\<lambda>p. 0 < a \<and> scanned (a - 1) p) (comment_group U g n endline cs) (\<lambda>_ p. 0 < a \<and> scanned (a - 1) p) E" for endline cs
      using triple_comment_group [of "a - 1" g U n endline cs E] assms(1) Suc by (cases "0 < a") (auto simp: triple_def)
    then have "triple (\<lambda>p. scanned a p \<and> tok_Type (tok p) = COMMENT)
        (must (consumeComment U) (\<lambda>(c, endline). comment_group U g n endline ([] @ [c]))) (\<lambda>_ p. 0 < a \<and> scanned (a - 1) p) E"
      by (intro triple_must [OF triple_consumeComment]) (auto split: prod.split)
    then show ?thesis
      unfolding Suc comment_group.simps using assms(2) by (auto simp: triple_def run_simps)
  qed (use assms in simp)
  show ?thesis
    unfolding consumeCommentGroup_def
    by (rule triple_must [OF triple_gets], rule triple_must [OF group])
      (auto intro!: triple_must [where Q = "\<lambda>_ p. 0 < a \<and> scanned (a - 1) p"] triple_modify triple_ok simp: scanned_def split: prod.split)
qed

lemma triple_lead_groups: "a + 1 < f \<Longrightarrow> triple (scanned a) (lead_groups U f c endline) (\<lambda>_. scanned a) E"
proof (induction f arbitrary: a c endline)
  case (Suc f)
  show ?case
    unfolding lead_groups.simps
  proof (rule triple_must [OF triple_gets], rule triple_if)
    fix t :: Token assume t: "tok_Type t = COMMENT"
    show "triple (\<lambda>p. scanned a p \<and> t = tok p) (must (consumeCommentGroup U f 1) (\<lambda>(c, endline). lead_groups U f (Some c) endline))
        (\<lambda>_. scanned a) E"
    proof (rule triple_must)
      show "triple (\<lambda>p. scanned a p \<and> t = tok p) (consumeCommentGroup U f 1) (\<lambda>_ p. 0 < a \<and> scanned (a - 1) p) E"
        by (rule triple_conseq [OF triple_consumeCommentGroup]) (use Suc.prems t in auto)
      show "triple (\<lambda>p. 0 < a \<and> scanned (a - 1) p) (case x of (c, endline) \<Rightarrow> lead_groups U f (Some c) endline) (\<lambda>_. scanned a) E" for x
        by (rule triple_guard, cases x)
          (use Suc.prems in \<open>auto intro!: triple_conseq [OF Suc.IH [of "a - 1"]] elim: scanned_mono\<close>)
    qed
  qed (auto intro!: triple_ok)
qed simp

lemma triple_collect_comments:
  assumes "a + 1 < f"
  shows "triple (\<lambda>p. scanned a p \<and> tok_Type (tok p) = COMMENT) (collect_comments U f prev) (\<lambda>_. scanned a) E"
proof -
  have line: "triple (\<lambda>p. (scanned a p \<and> tok_Type (tok p) = COMMENT) \<and> t = tok p)
     (must (consumeCommentGroup U f 0) (\<lambda>(c, endline).
      must (gets tok) (\<lambda>t.
      must (if Line (tok_Pos t) \<noteq> endline then modify (\<lambda>p. p\<lparr>lineComment := Some c\<rparr>) else ok ()) (\<lambda>_. ok (Some c))))) (\<lambda>_. scanned a) E" for t
    by (rule triple_must [where Q = "\<lambda>_. scanned a"])
      (use assms in \<open>auto intro!: triple_conseq [OF triple_consumeCommentGroup] triple_must [OF triple_gets] triple_ok
         triple_must [where Q = "\<lambda>_. scanned a"] triple_modify elim: scanned_mono simp: scanned_def split: prod.split\<close>)
  show ?thesis
    unfolding collect_comments_def
    by (rule triple_must [OF triple_gets], rule triple_must [where Q = "\<lambda>_. scanned a"])
      (use assms line in \<open>auto intro!: triple_must [OF triple_lead_groups] triple_must [OF triple_gets] triple_ok triple_modify
         simp: scanned_def split: prod.split\<close>)
qed

lemma triple_scan:
  assumes "a + 2 \<le> f"
  shows "triple (within a) (scan U f) (\<lambda>t p. scanned a p \<and> t = tok p) E"
  unfolding scan_def
proof (rule triple_must [OF triple_gets], rule triple_if)
  fix n :: nat assume "n \<noteq> 0"
  then show "triple (\<lambda>p. within a p \<and> n = p_n p) (must (modify (\<lambda>p. p\<lparr>p_n := 0\<rparr>)) (\<lambda>_. gets tok)) (\<lambda>t p. scanned a p \<and> t = tok p) E"
    by (auto simp: triple_def run_simps within_def scanned_def)
next
  fix n :: nat assume n: "\<not> n \<noteq> 0"
  show "triple (\<lambda>p. within a p \<and> n = p_n p)
     (must (gets tok) (\<lambda>prev. must (read_token U) (\<lambda>_. must (gets tok) (\<lambda>t.
      must (if tok_Type t = COMMENT then collect_comments U f prev else ok ()) (\<lambda>_. gets tok)))))
     (\<lambda>t p. scanned a p \<and> t = tok p) E"
  proof (rule triple_must [OF triple_gets], rule triple_must [where Q = "\<lambda>_. scanned a"])
    show "triple (\<lambda>p. (within a p \<and> n = p_n p) \<and> prev = tok p) (read_token U) (\<lambda>_. scanned a) E" for prev
      by (rule triple_conseq [OF triple_read_token]) (use n in \<open>auto simp: within_def split: if_splits\<close>)
    show "triple (scanned a) (must (gets tok) (\<lambda>t. must (if tok_Type t = COMMENT then collect_comments U f prev else ok ()) (\<lambda>_. gets tok)))
       (\<lambda>t p. scanned a p \<and> t = tok p) E" for prev
      by (rule triple_must [OF triple_gets], rule triple_must [where Q = "\<lambda>_. scanned a"])
        (use assms in \<open>auto intro!: triple_conseq [OF triple_collect_comments] triple_ok triple_gets\<close>)
  qed
qed

text \<open>Looking ahead and putting the token back keeps what is left.\<close>

lemma triple_lookahead:
  assumes "a + 2 \<le> f" and "\<And>t. triple (\<lambda>p. scanned a p \<and> t = tok p) (k t) Q E"
  shows "triple (within a) (must (scan U f) k) Q E"
  by (rule triple_must [OF triple_scan [OF assms(1)] assms(2)])

lemma triple_objectKey:
  "a + 2 \<le> f \<Longrightarrow> triple (within a) (objectKey U f keys) (\<lambda>_. scanned a) E"
proof (induction f arbitrary: a keys)
  case (Suc f)
  have step: "triple (\<lambda>p. scanned a p \<and> t = tok p) (objectKey U f ks) (\<lambda>_. scanned a) E" if "tok_Type t \<noteq> EOF" for t ks
  proof (cases "0 < a")
    case True
    then show ?thesis
      by (intro triple_conseq [OF Suc.IH [of "a - 1"]]) (use Suc.prems that in \<open>auto dest: scanned_less elim: scanned_mono\<close>)
  next
    case False
    then show ?thesis using that by (auto simp: triple_def scanned_def)
  qed
  show ?case
    unfolding objectKey.simps
    by (rule triple_lookahead [OF Suc.prems]) (auto intro!: triple_ok step split: token_type.split)
qed simp

lemma triple_item_keys:
  assumes "a + 2 \<le> f"
  shows "triple (within a) (item_keys U f) (\<lambda>_. scanned a) (failed a)"
proof -
  have fail: "triple (\<lambda>p. scanned a p \<and> t = tok p) (throw e) (\<lambda>_. scanned a) (failed a)" for t e
    by (rule triple_halt) (auto simp: failed_def intro: scanned_within)
  have eof: "triple (\<lambda>p. scanned a p \<and> t = tok p) (must (modify (\<lambda>p. p\<lparr>tok := (tok p)\<lparr>tok_Type := EOF\<rparr>\<rparr>)) (\<lambda>_. ok keys)) (\<lambda>_. scanned a) (failed a)" for t keys
    by (auto simp: triple_def run_simps scanned_def split: if_splits)
  show ?thesis
    unfolding item_keys_def
    by (rule triple_must [OF triple_objectKey [OF assms]])
      (auto intro!: triple_must [OF triple_gets] triple_ok fail eof simp: Let_def split: option.split)
qed

lemma triple_take_lead: "(\<And>p c. I p \<Longrightarrow> I (p\<lparr>leadComment := c\<rparr>)) \<Longrightarrow> triple I take_lead (\<lambda>_. I) E"
  by (auto simp: take_lead_def triple_def run_simps)

lemma triple_take_line: "(\<And>p c. I p \<Longrightarrow> I (p\<lparr>lineComment := c\<rparr>)) \<Longrightarrow> triple I take_line (\<lambda>_. I) E"
  by (auto simp: take_line_def triple_def run_simps)

lemma scanned_comments [simp]: "scanned a (p\<lparr>leadComment := c\<rparr>) = scanned a p" "scanned a (p\<lparr>lineComment := c\<rparr>) = scanned a p"
  by (simp_all add: scanned_def)

lemma within_comments [simp]: "within a (p\<lparr>leadComment := c\<rparr>) = within a p" "within a (p\<lparr>lineComment := c\<rparr>) = within a p"
  by (simp_all add: within_def)

lemma scanned_unscan: "scanned a p \<Longrightarrow> within a (p\<lparr>p_n := Suc 0\<rparr>)"
  by (auto simp: scanned_def within_def)

lemma triple_item_end:
  assumes "a + 2 \<le> f"
  shows "triple (within a) (item_end U f keys v) (\<lambda>_. within a) E"
  unfolding item_end_def
  by (rule triple_must [OF triple_take_line], simp, rule triple_lookahead [OF assms])
    (rule triple_must [OF triple_gets], rule triple_must [where Q = "\<lambda>_. scanned a"],
      auto simp: triple_def run_simps unscan_def scanned_unscan)

lemma triple_comma_comment:
  assumes "a + 2 \<le> f"
  shows "triple (within a) (comma_comment U f l) (\<lambda>_. within a) E"
  unfolding comma_comment_def
  by (rule triple_lookahead [OF assms])
    (rule triple_must [OF triple_gets], rule triple_must [where Q = "\<lambda>_. scanned a"],
      auto simp: triple_def run_simps unscan_def scanned_unscan split: Node.split)

text \<open>
  What each of the parsers does with fuel \<open>f\<close>: it consumes at most what is left, an item at least
  one token, and it ends with a result or an error.
\<close>

definition list_ok :: "unicode \<Rightarrow> nat \<Rightarrow> bool" where
  "list_ok U f \<longleftrightarrow> (\<forall>a obj items. 4 * a + 4 \<le> f \<longrightarrow> triple (within a) (objectList U f obj items) (\<lambda>_. within a) (failed a))"

definition item_ok :: "unicode \<Rightarrow> nat \<Rightarrow> bool" where
  "item_ok U f \<longleftrightarrow> (\<forall>a. 4 * a + 3 \<le> f \<longrightarrow> triple (within a) (objectItem U f) (\<lambda>_ p. 0 < a \<and> within (a - 1) p) (failed a))"

definition value_ok :: "unicode \<Rightarrow> nat \<Rightarrow> bool" where
  "value_ok U f \<longleftrightarrow> (\<forall>a. 4 * a + 6 \<le> f \<longrightarrow> triple (within a) (object_value U f) (\<lambda>_. within a) (failed a))"

definition type_ok :: "unicode \<Rightarrow> nat \<Rightarrow> bool" where
  "type_ok U f \<longleftrightarrow> (\<forall>a. 4 * a + 5 \<le> f \<longrightarrow> triple (within a) (objectType U f) (\<lambda>_. within a) (failed a))"

definition elems_ok :: "unicode \<Rightarrow> nat \<Rightarrow> bool" where
  "elems_ok U f \<longleftrightarrow> (\<forall>a lbrack l c. 4 * a + 5 \<le> f \<longrightarrow> triple (within a) (listType U f lbrack l c) (\<lambda>_. within a) (failed a))"

lemma scanned_failed: "scanned a p \<Longrightarrow> failed a (Error e) p"
  by (simp add: failed_def scanned_within)

lemma fail_scanned: "triple (\<lambda>p. scanned a p \<and> t = tok p) (throw e) Q (failed a)"
  by (rule triple_halt) (auto simp: failed_def intro: scanned_within)

lemma after_token:
  assumes "tok_Type t \<noteq> EOF" and "0 < a \<Longrightarrow> triple (within (a - 1)) m (\<lambda>_. within (a - 1)) (failed (a - 1))"
  shows "triple (\<lambda>p. scanned a p \<and> t = tok p) m (\<lambda>_. within a) (failed a)"
proof (cases "0 < a")
  case True
  then show ?thesis
    by (intro triple_conseq [OF assms(2)]) (use assms(1) in \<open>auto dest: scanned_less elim: within_mono failed_mono\<close>)
next
  case False
  then show ?thesis using assms(1) by (auto simp: triple_def scanned_def)
qed

lemma objectList_step:
  assumes "item_ok U f" and "list_ok U f"
  shows "list_ok U (Suc f)"
  unfolding list_ok_def
proof (intro allI impI)
  fix a obj items assume f: "4 * a + 4 \<le> Suc f"
  have ahead: "triple (within a) (if obj then must (scan U f) (\<lambda>t. must unscan (\<lambda>_. ok (tok_Type t = RBRACE))) else ok False) (\<lambda>_. within a) (failed a)"
    by (rule triple_if, rule triple_lookahead)
      (use f in \<open>auto simp: triple_def run_simps unscan_def scanned_unscan\<close>)
  have comma: "triple (within (a - 1)) (must (scan U f) (\<lambda>t. must (if tok_Type t \<noteq> COMMA then unscan else ok ()) (\<lambda>_. objectList U f obj its)))
      (\<lambda>_. within a) (failed a)" if "0 < a" for its
  proof (rule triple_lookahead)
    fix t
    show "triple (\<lambda>p. scanned (a - 1) p \<and> t = tok p) (must (if tok_Type t \<noteq> COMMA then unscan else ok ()) (\<lambda>_. objectList U f obj its)) (\<lambda>_. within a) (failed a)"
    proof (rule triple_must [where Q = "\<lambda>_. within (a - 1)"])
      show "triple (\<lambda>p. scanned (a - 1) p \<and> t = tok p) (if tok_Type t \<noteq> COMMA then unscan else ok ()) (\<lambda>_. within (a - 1)) (failed a)"
        by (auto simp: triple_def run_simps unscan_def scanned_unscan scanned_within)
      show "triple (within (a - 1)) (objectList U f obj its) (\<lambda>_. within a) (failed a)"
        by (rule triple_conseq [of "within (a - 1)" _ "\<lambda>_. within (a - 1)" "failed (a - 1)"])
          (use assms(2) f that in \<open>auto simp: list_ok_def elim: within_mono failed_mono\<close>)
    qed
  qed (use f in simp)
  show "triple (within a) (objectList U (Suc f) obj items) (\<lambda>_. within a) (failed a)"
    unfolding objectList.simps
  proof (rule triple_must [OF ahead], rule triple_if)
    show "triple (within a) (ok (items, None)) (\<lambda>_. within a) (failed a)" by (rule triple_ok)
    show "triple (within a) (catch (objectItem U f)
       (\<lambda>n. must (scan U f) (\<lambda>t. must (if tok_Type t \<noteq> COMMA then unscan else ok ()) (\<lambda>_. objectList U f obj (items @ [n]))))
       (\<lambda>err. if err = EofToken then ok (items, None) else ok (items, Some err))) (\<lambda>_. within a) (failed a)"
    proof (rule triple_catch [where Q = "\<lambda>_ p. 0 < a \<and> within (a - 1) p" and H = "\<lambda>_. within a"])
      have "triple (within a) (objectItem U f) (\<lambda>_ p. 0 < a \<and> within (a - 1) p) (failed a)" using assms(1) f by (simp add: item_ok_def)
      then show "triple (within a) (objectItem U f) (\<lambda>_ p. 0 < a \<and> within (a - 1) p)
         (\<lambda>e p. case e of Error x \<Rightarrow> within a p | _ \<Rightarrow> failed a (map_stop (\<lambda>_. undefined) e) p)"
        by (rule triple_conseq) (auto simp: failed_def)
    qed (auto intro!: triple_guard comma triple_ok simp del: One_nat_def)
  qed
qed

lemma objectItem_step:
  assumes "value_ok U f" and "type_ok U f"
  shows "item_ok U (Suc f)"
  unfolding item_ok_def
proof (intro allI impI)
  fix a assume f: "4 * a + 3 \<le> Suc f"
  let ?Q = "\<lambda>_ p. 0 < a \<and> within (a - 1) p"
  have val: "triple (\<lambda>p. scanned a p \<and> t = tok p)
     (if tok_Type t = ASSIGN then must (object_value U f) (\<lambda>v. ok (tok_Pos t, v))
       else if tok_Type t = LBRACE then must (objectType U f) (\<lambda>v. ok (no_pos, v)) else pos_error (tok_Pos t) msg) ?Q (failed a)" for t msg
  proof (cases "0 < a")
    case True
    have v: "triple (within (a - 1)) (object_value U f) (\<lambda>_. within (a - 1)) (failed (a - 1))"
      and o: "triple (within (a - 1)) (objectType U f) (\<lambda>_. within (a - 1)) (failed (a - 1))"
      using assms f True by (simp_all add: value_ok_def type_ok_def)
    have "triple (\<lambda>p. scanned a p \<and> t = tok p) (must m (\<lambda>v. ok (pos, v))) ?Q (failed a)"
      if "triple (within (a - 1)) m (\<lambda>_. within (a - 1)) (failed (a - 1))" "tok_Type t \<noteq> EOF" for m :: "Node parse" and pos :: Pos
      by (rule triple_must [where Q = ?Q], rule triple_conseq [OF that(1)])
        (use True that(2) in \<open>auto dest: scanned_less elim: failed_mono intro!: triple_ok\<close>)
    from this [OF v] this [OF o] show ?thesis by (auto intro: fail_scanned)
  next
    case False
    then have "tok_Type t = EOF" if "scanned a p" "t = tok p" for p using that by (auto simp: scanned_def split: if_splits)
    then show ?thesis by (auto simp: triple_def run_simps scanned_failed)
  qed
  show "triple (within a) (objectItem U (Suc f)) ?Q (failed a)"
    unfolding objectItem.simps
  proof (rule triple_must [OF triple_item_keys], use f in simp, rule triple_must [OF triple_take_lead], simp,
      rule triple_must [OF triple_gets], rule triple_must [OF val])
    fix x :: "Pos \<times> Node" and keys lead
    show "triple (?Q x) (case x of (assign, v) \<Rightarrow> must (item_end U f keys v) (\<lambda>lc. ok (ObjectItem keys assign v lead lc))) ?Q (failed a)"
      using f
      by (cases x) (auto intro!: triple_guard triple_must [OF triple_item_end [of "a - 1"]] triple_ok simp del: One_nat_def)
  qed
qed

lemma object_value_step:
  assumes "elems_ok U f" and "type_ok U f"
  shows "value_ok U (Suc f)"
  unfolding value_ok_def
proof (intro allI impI)
  fix a assume f: "4 * a + 6 \<le> Suc f"
  show "triple (within a) (object_value U (Suc f)) (\<lambda>_. within a) (failed a)"
    unfolding object_value.simps
    by (rule triple_lookahead)
      (use assms f in \<open>auto intro!: triple_if fail_scanned after_token triple_ok
         simp: elems_ok_def type_ok_def literalType_def triple_def run_simps scanned_within scanned_failed\<close>)
qed

lemma objectType_step:
  assumes "list_ok U f"
  shows "type_ok U (Suc f)"
  unfolding type_ok_def
proof (intro allI impI)
  fix a assume f: "4 * a + 5 \<le> Suc f"
  have list: "triple (within a) (objectList U f True []) (\<lambda>_. within a) (failed a)" using assms f by (simp add: list_ok_def)
  have brace: "triple (within a) (must (scan U f) (\<lambda>t'.
     if tok_Type t' \<noteq> RBRACE then pos_error (tok_Pos t') (msg t') else must (gets tok) (\<lambda>t'. ok (node t')))) (\<lambda>_. within a) (failed a)"
    for msg :: "Token \<Rightarrow> string" and node :: "Token \<Rightarrow> Node"
    by (rule triple_lookahead) (use f in \<open>auto simp: triple_def run_simps scanned_within scanned_failed\<close>)
  have tok: "triple (within a) (gets tok) (\<lambda>_. within a) (failed a)" by (simp add: triple_def run_simps)
  have swallow: "triple (within a) (case err of Some e \<Rightarrow> if b then throw e else ok () | None \<Rightarrow> ok ()) (\<lambda>_. within a) (failed a)"
    for err b by (auto simp: triple_def run_simps failed_def split: option.split)
  show "triple (within a) (objectType U (Suc f)) (\<lambda>_. within a) (failed a)"
    unfolding objectType.simps
  proof (rule triple_must [OF tok], rule triple_must [OF list])
    fix t and x :: "ObjectItem list \<times> perror option"
    show "triple (within a) (case x of (l, err) \<Rightarrow> must (gets tok) (\<lambda>t'.
       must (case err of Some e \<Rightarrow> if tok_Type t' \<noteq> RBRACE then throw e else ok () | None \<Rightarrow> ok ()) (\<lambda>_.
       must (scan U f) (\<lambda>t'.
       if tok_Type t' \<noteq> RBRACE then pos_error (tok_Pos t') (''object expected closing RBRACE got: '' @ Type_String (tok_Type t'))
       else must (gets tok) (\<lambda>t'. ok (ObjectType (tok_Pos t) (tok_Pos t') l)))))) (\<lambda>_. within a) (failed a)"
      unfolding prod.case_eq_if by (rule triple_must [OF tok], rule triple_must [OF swallow], rule brace)
  qed
qed

lemma listType_step:
  assumes "elems_ok U f" and "type_ok U f"
  shows "elems_ok U (Suc f)"
  unfolding elems_ok_def
proof (intro allI impI)
  fix a lbrack l c assume f: "4 * a + 5 \<le> Suc f"
  have rest: "triple (within (a - 1)) (listType U f lb l c) (\<lambda>_. within (a - 1)) (failed (a - 1))" if "0 < a" for lb l c
    using assms(1) f that by (simp add: elems_ok_def)
  have obj: "triple (within (a - 1)) (objectType U f) (\<lambda>_. within (a - 1)) (failed (a - 1))" if "0 < a"
    using assms(2) f that by (simp add: type_ok_def)
  have wrap: "triple (within (a - 1)) (catch m (\<lambda>v. listType U f lb (l v) c) (\<lambda>err. pos_error pos (msg err))) (\<lambda>_. within (a - 1)) (failed (a - 1))"
    if "0 < a" "triple (within (a - 1)) m (\<lambda>_. within (a - 1)) (failed (a - 1))" for m :: "Node parse" and lb l c pos msg
    by (rule triple_catch [where Q = "\<lambda>_. within (a - 1)" and H = "\<lambda>_. within (a - 1)"], rule triple_conseq [OF that(2)])
      (use that(1) in \<open>auto simp: failed_def intro!: rest triple_halt simp del: One_nat_def\<close>)
  have lit: "triple (within (a - 1)) (must (gets tok) (\<lambda>t. must take_lead (\<lambda>lead. listType U f lb (l t lead) c))) (\<lambda>_. within (a - 1)) (failed (a - 1))"
    if "0 < a" for lb l c
    by (rule triple_must [where Q = "\<lambda>_. within (a - 1)"], simp add: triple_def run_simps, rule triple_must [OF triple_take_lead])
      (use that rest in auto)
  have comma: "triple (within (a - 1)) (must (comma_comment U f l) (\<lambda>l. listType U f lb l c)) (\<lambda>_. within (a - 1)) (failed (a - 1))"
    if "0 < a" for lb l c
    by (rule triple_must [OF triple_comma_comment]) (use f that rest in auto)
  have nested: "triple (within (a - 1)) (must (gets tok) (\<lambda>t. listType U f (tok_Pos t) [] False)) (\<lambda>_. within (a - 1)) (failed (a - 1))"
    if "0 < a" by (rule triple_must [where Q = "\<lambda>_. within (a - 1)"]) (use that rest in \<open>auto simp: triple_def run_simps\<close>)
  show "triple (within a) (listType U (Suc f) lbrack l c) (\<lambda>_. within a) (failed a)"
    unfolding listType.simps
  proof (rule triple_lookahead, use f in simp, intro triple_if)
    fix t
    show "triple (\<lambda>p. scanned a p \<and> t = tok p) (must (gets tok) (\<lambda>t. ok (ListType lbrack (tok_Pos t) l))) (\<lambda>_. within a) (failed a)"
      by (auto simp: triple_def run_simps scanned_within)
  qed (auto intro!: fail_scanned after_token lit comma wrap obj nested simp: is_literal_token_def)
qed

lemma parsers_ok: "list_ok U f \<and> item_ok U f \<and> value_ok U f \<and> type_ok U f \<and> elems_ok U f"
proof (induction f)
  case 0
  then show ?case by (simp add: list_ok_def item_ok_def value_ok_def type_ok_def elems_ok_def)
next
  case (Suc f)
  then show ?case by (simp add: objectList_step objectItem_step object_value_step objectType_step listType_step)
qed

lemma hcl_Parse_returns: "(\<exists>file. hcl_Parse U src = Ok file) \<or> (\<exists>err. hcl_Parse U src = Err err)"
proof -
  let ?s = "replace_crlf src"
  obtain r p where r: "run_state (objectList U (parse_fuel ?s) False []) (newParser ?s) = (r, p)" by fastforce
  have t: "triple (within (length ?s)) (objectList U (parse_fuel ?s) False []) (\<lambda>_. within (length ?s)) (failed (length ?s))"
    using parsers_ok [of U "parse_fuel ?s"] by (simp add: list_ok_def parse_fuel_def)
  have w: "within (length ?s) (newParser ?s)"
    using wf_scanner_New [of ?s] by (simp add: within_def newParser_def) (simp add: scanner_New_def)
  have "\<exists>x. e = Error x" if "r = Stop e" for e
    using triple_Stop [OF t w] r that by (auto simp: failed_def)
  then show ?thesis
    by (cases r) (auto simp: hcl_Parse_def Parser_Parse_def r Let_def split: list.split option.split prod.split)
qed

text \<open>
  C32 (Parse_returns): parsing a configuration file ends, whatever its bytes are: with a syntax tree
  or with an error, never with a panic, and without running forever. The fuel that the parser is
  given, four units for each byte of the source, is enough.
\<close>

theorem Parse_returns: "(\<exists>file. hcl_Parse U src = Ok file) \<or> (\<exists>err. hcl_Parse U src = Err err)"
  by (rule hcl_Parse_returns)

definition ascii :: unicode where
  "ascii = \<lparr>IsLetter = (\<lambda>_. False), IsDigit = (\<lambda>_. False)\<rparr>"

end
