(* ===== verification/HclDecode.thy ===== *)
theory HclDecode
  imports HclParser Os "HOL-Library.Char_ord" "HOL-Library.List_Lexorder"
begin

text \<open>
  Decoding a syntax tree into a structure: \<^verbatim>\<open>hcl/decoder.go\<close>, with the selection of items in
  \<^verbatim>\<open>hcl/hcl/ast/ast.go\<close> and the choice of the format in \<^verbatim>\<open>hcl/lex.go\<close> and \<^verbatim>\<open>hcl/parse.go\<close>. The type
  that is decoded into is data, as it is for the reflection that the code uses; the kinds are those
  that the configuration has: booleans, integers, strings, slices and structures. A call ends
  with a value, an error or a panic.
\<close>

subsection \<open>Types and values\<close>

datatype rtype = TBool | TInt | TString | TSlice rtype | TStruct "field list"
and field = Field (fd_Name: string) (fd_Tag: string) (fd_Type: rtype)

text \<open>A slice is nil or a list.\<close>

datatype rval = VBool bool | VInt int | VString string | VSlice "rval list option" | VStruct "rval list"

lemma field_size: "f \<in> set fs \<Longrightarrow> size (fd_Type f) < Suc (size_list size fs)"
proof -
  assume "f \<in> set fs"
  moreover have "size (fd_Type f) < size f" by (cases f) simp
  ultimately show ?thesis using size_list_estimation [of f fs "size (fd_Type f)" size] by simp
qed

function zero_val :: "rtype \<Rightarrow> rval" where
  "zero_val TBool = VBool False"
| "zero_val TInt = VInt 0"
| "zero_val TString = VString []"
| "zero_val (TSlice t) = VSlice None"
| "zero_val (TStruct fs) = VStruct (map (\<lambda>f. zero_val (fd_Type f)) fs)"
  by pat_completeness auto
termination
  by (relation "measure size") (auto intro: field_size)

type_synonym 'a decoded = "(error, 'a) outcome"

definition and_then :: "('e, 'a) outcome \<Rightarrow> ('a \<Rightarrow> ('e, 'b) outcome) \<Rightarrow> ('e, 'b) outcome" where
  "and_then r k = (case r of Ok x \<Rightarrow> k x | Stop e \<Rightarrow> Stop e)"

fun fold_outcome :: "('b \<Rightarrow> 'a \<Rightarrow> ('e, 'b) outcome) \<Rightarrow> 'a list \<Rightarrow> 'b \<Rightarrow> ('e, 'b) outcome" where
  "fold_outcome f [] b = Ok b"
| "fold_outcome f (x # xs) b = and_then (f b x) (\<lambda>b. fold_outcome f xs b)"

lemma and_then_simps [simp]: "and_then (Ok x) k = k x" "and_then (Stop e) k = Stop e"
  by (simp_all add: and_then_def)

lemma and_then_cong [fundef_cong]: "r = r' \<Longrightarrow> (\<And>x. r' = Ok x \<Longrightarrow> k x = k' x) \<Longrightarrow> and_then r k = and_then r' k'"
  by (simp add: and_then_def split: outcome.split)

lemma fold_outcome_cong [fundef_cong]:
  assumes "xs = ys" and "b = c" and "\<And>x b. x \<in> set ys \<Longrightarrow> f b x = g b x"
  shows "fold_outcome f xs b = fold_outcome g ys c"
proof -
  have "fold_outcome f ys b = fold_outcome g ys b" using assms(3)
    by (induction ys arbitrary: b) (auto simp: and_then_def split: outcome.split)
  with assms(1,2) show ?thesis by simp
qed

subsection \<open>Selecting items\<close>

text \<open>
  Folding the case of a rune, as far as a letter of ASCII is concerned: besides the capital
  letters, the Kelvin sign and the long s fold to one.
\<close>

definition fold_rune :: "int \<Rightarrow> int" where
  "fold_rune r = (if 0x41 \<le> r \<and> r \<le> 0x5A then r + 0x20 else if r = 0x212A then 0x6B else if r = 0x17F then 0x73 else r)"

function runes :: "string \<Rightarrow> int list" where
  "runes s = (if s = [] then [] else case DecodeRune s of (r, n) \<Rightarrow> r # runes (drop n s))"
  by pat_completeness auto
termination
  by (relation "measure length") (auto simp: DecodeRune_bounds(4) [OF sym])

declare runes.simps [simp del]

definition strings_EqualFold :: "string \<Rightarrow> string \<Rightarrow> bool" where
  "strings_EqualFold s t \<longleftrightarrow> map fold_rune (runes s) = map fold_rune (runes t)"

text \<open>\<open>V\<close> is the function that gives the value of a token.\<close>

definition key_string :: "(Token \<Rightarrow> token_value option) \<Rightarrow> Token \<Rightarrow> (error, string) outcome" where
  "key_string V t = (case V t of Some (ValString s) \<Rightarrow> Ok s | Some _ \<Rightarrow> Panicked TypeAssertion | None \<Rightarrow> Panicked PanicCall)"

fun keys_match :: "(Token \<Rightarrow> token_value option) \<Rightarrow> Token list \<Rightarrow> string list \<Rightarrow> bool decoded" where
  "keys_match V (t # ts) (k # ks) =
     and_then (key_string V t) (\<lambda>s. if s \<noteq> k \<and> \<not> strings_EqualFold s k then Ok False else keys_match V ts ks)"
| "keys_match V _ _ = Ok True"

definition Filter :: "(Token \<Rightarrow> token_value option) \<Rightarrow> string list \<Rightarrow> ObjectItem list \<Rightarrow> ObjectItem list decoded" where
  "Filter V keys items =
     fold_outcome (\<lambda>result item.
       if length (Keys item) < length keys then Ok result
       else and_then (keys_match V (take (length keys) (Keys item)) keys) (\<lambda>match.
         Ok (if match
             then result @ [ObjectItem (drop (length keys) (Keys item)) (Assign item) (Val item) (LeadComment item) (LineComment item)]
             else result))) items []"

definition Children :: "ObjectItem list \<Rightarrow> ObjectItem list" where
  "Children items = filter (\<lambda>item. length (Keys item) > 0) items"

definition Elem :: "ObjectItem list \<Rightarrow> ObjectItem list" where
  "Elem items = filter (\<lambda>item. length (Keys item) = 0) items"

subsection \<open>Values of the basic kinds\<close>

fun node_type_name :: "Node \<Rightarrow> string" where
  "node_type_name (LiteralType _ _ _) = ''*ast.LiteralType''"
| "node_type_name (ListType _ _ _) = ''*ast.ListType''"
| "node_type_name (ObjectType _ _ _) = ''*ast.ObjectType''"
| "node_type_name (ObjectList _) = ''*ast.ObjectList''"
| "node_type_name (ItemNode _) = ''*ast.ObjectItem''"

text \<open>An error at the position of a node: asking for the position of an empty list panics.\<close>

definition fail_at :: "Node \<Rightarrow> string \<Rightarrow> 'a decoded" where
  "fail_at node msg =
     (case Node_Pos node of None \<Rightarrow> Panicked IndexOutOfRange | Some pos \<Rightarrow> Err (ErrorString (perror_text (PosError pos msg))))"

definition ParseBool :: "string \<Rightarrow> bool option" where
  "ParseBool s =
     (if s \<in> {''1'', ''t'', ''T'', ''true'', ''TRUE'', ''True''} then Some True
      else if s \<in> {''0'', ''f'', ''F'', ''false'', ''FALSE'', ''False''} then Some False
      else None)"

definition num_error_text :: "string \<Rightarrow> string \<Rightarrow> num_error \<Rightarrow> string" where
  "num_error_text fn s e = ''strconv.'' @ fn @ '': parsing '' @ quote s @ '': ''
     @ (case e of ErrSyntax \<Rightarrow> ''invalid syntax'' | ErrRange \<Rightarrow> ''value out of range'')"

definition decodeBool :: "string \<Rightarrow> Node \<Rightarrow> rval decoded" where
  "decodeBool name node =
     (case node of
        LiteralType t _ _ \<Rightarrow>
          if tok_Type t = BOOL then
            (case ParseBool (tok_Text t) of
               Some b \<Rightarrow> Ok (VBool b)
             | None \<Rightarrow> Err (ErrorString (num_error_text ''ParseBool'' (tok_Text t) ErrSyntax)))
          else fail_at node (name @ '': unknown type '' @ node_type_name node)
      | _ \<Rightarrow> fail_at node (name @ '': unknown type '' @ node_type_name node))"

definition parse_int_value :: "string \<Rightarrow> rval decoded" where
  "parse_int_value s =
     (case ParseInt s of
        (v, None) \<Rightarrow> Ok (VInt v)
      | (_, Some e) \<Rightarrow> Err (ErrorString (num_error_text ''ParseInt'' s e)))"

definition decodeInt :: "(Token \<Rightarrow> token_value option) \<Rightarrow> string \<Rightarrow> Node \<Rightarrow> rval decoded" where
  "decodeInt V name node =
     (case node of
        LiteralType t _ _ \<Rightarrow>
          if tok_Type t = NUMBER then parse_int_value (tok_Text t)
          else if tok_Type t = STRING then and_then (key_string V t) parse_int_value
          else fail_at node (name @ '': unknown type '' @ node_type_name node)
      | _ \<Rightarrow> fail_at node (name @ '': unknown type '' @ node_type_name node))"

definition decodeString :: "(Token \<Rightarrow> token_value option) \<Rightarrow> string \<Rightarrow> Node \<Rightarrow> rval decoded" where
  "decodeString V name node =
     (case node of
        LiteralType t _ _ \<Rightarrow>
          if tok_Type t = NUMBER then Ok (VString (tok_Text t))
          else if tok_Type t \<in> {STRING, HEREDOC} then and_then (key_string V t) (\<lambda>s. Ok (VString s))
          else fail_at node (name @ '': unknown type for string '' @ node_type_name node)
      | _ \<Rightarrow> fail_at node (name @ '': unknown type for string '' @ node_type_name node))"

subsection \<open>Slices and structures\<close>

definition slice_items :: "Node \<Rightarrow> Node list option" where
  "slice_items node =
     (case node of
        ObjectList items \<Rightarrow> Some (map ItemNode items)
      | ObjectType lb rb items \<Rightarrow> Some [node]
      | ListType _ _ l \<Rightarrow> Some l
      | _ \<Rightarrow> None)"

definition expandObject :: "Node \<Rightarrow> rtype \<Rightarrow> Node" where
  "expandObject node elemType =
     (case node of
        ItemNode item \<Rightarrow>
          (case (elemType, Keys item) of
             (TStruct _, [k0, k1]) \<Rightarrow>
               ItemNode (ObjectItem [k0] no_pos
                 (ObjectType no_pos no_pos [ObjectItem [k1] (Assign item) (Val item) (LeadComment item) (LineComment item)])
                 None None)
           | _ \<Rightarrow> node)
      | _ \<Rightarrow> node)"

text \<open>The items that a structure is decoded from.\<close>

definition struct_items :: "Node \<Rightarrow> ObjectItem option \<times> (Node, ObjectItem list) sum" where
  "struct_items node0 =
     (let (item, node) = (case node0 of ItemNode it \<Rightarrow> (Some it, Val it) | _ \<Rightarrow> (None, node0));
          node = (case node of ObjectType _ _ l \<Rightarrow> ObjectList l | _ \<Rightarrow> node);
          node = (case (node, item) of (LiteralType _ _ _, Some it) \<Rightarrow> ObjectList [it] | _ \<Rightarrow> node)
      in (item, case node of ObjectList l \<Rightarrow> Inr l | _ \<Rightarrow> Inl node))"

text \<open>
  A tag is the key of the field, then what follows the first comma: an option. A field whose key
  is a dash is left alone.
\<close>

definition field_tag :: "field \<Rightarrow> string" where
  "field_tag f = hd (SplitByte (CHR '','') (fd_Tag f))"

definition field_key :: "field \<Rightarrow> string" where
  "field_key f = (if field_tag f \<noteq> [] then field_tag f else fd_Name f)"

definition field_option :: "field \<Rightarrow> string" where
  "field_option f = drop (Suc (length (field_tag f))) (fd_Tag f)"

definition ignored :: "field \<Rightarrow> bool" where
  "ignored f \<longleftrightarrow> field_tag f = ''-''"

text \<open>The option \<^verbatim>\<open>key\<close> asks for the key of the item that the structure is the value of.\<close>

definition decode_key :: "(Token \<Rightarrow> token_value option) \<Rightarrow> string \<Rightarrow> ObjectItem option \<Rightarrow> ObjectItem list \<Rightarrow> field \<Rightarrow> rval decoded" where
  "decode_key V name item items f =
     (case item of
        None \<Rightarrow> fail_at (ObjectList items) (name @ '': '' @ fd_Name f @ '' asked for '' @ [CHR 0x27] @ ''key'' @ [CHR 0x27] @ '', impossible'')
      | Some it \<Rightarrow>
          (case Keys it of
             [] \<Rightarrow> Panicked IndexOutOfRange
           | k # _ \<Rightarrow> and_then (key_string V k) (\<lambda>s. if fd_Type f = TString then Ok (VString s) else Panicked PanicCall)))"

text \<open>The option \<^verbatim>\<open>decodedFields\<close> asks for the names of the fields that were decoded, in order.\<close>

definition set_decoded :: "string list \<Rightarrow> field \<Rightarrow> rval \<Rightarrow> rval decoded" where
  "set_decoded names f v =
     (if ignored f \<or> field_option f \<noteq> ''decodedFields'' then Ok v
      else if fd_Type f = TSlice TString then Ok (VSlice (Some (map VString (sort names))))
      else Panicked PanicCall)"

text \<open>What a match is decoded from: an object is decoded as the list of its items.\<close>

definition match_node :: "ObjectItem \<Rightarrow> Node" where
  "match_node item = (case Val item of ObjectType _ _ l \<Rightarrow> ObjectList l | v \<Rightarrow> v)"

text \<open>
  \<^verbatim>\<open>decode\<close> writes through the value it is given: here it returns the new one. An element of a slice
  starts from zero and is appended. A structure is decoded field by field, in their order, from the
  items with the key of the field: those with further keys, then those without, each over
  what the one before it left. A structure has no embedded field and every field can be set,
  so the queue of structures to squash holds the one structure.
\<close>

function decode :: "(Token \<Rightarrow> token_value option) \<Rightarrow> string \<Rightarrow> Node \<Rightarrow> rtype \<Rightarrow> rval \<Rightarrow> rval decoded"
and decodeSlice :: "(Token \<Rightarrow> token_value option) \<Rightarrow> string \<Rightarrow> Node \<Rightarrow> rtype \<Rightarrow> rval \<Rightarrow> rval decoded"
and decodeStruct :: "(Token \<Rightarrow> token_value option) \<Rightarrow> string \<Rightarrow> Node \<Rightarrow> field list \<Rightarrow> rval \<Rightarrow> rval decoded"
and decode_field :: "(Token \<Rightarrow> token_value option) \<Rightarrow> string \<Rightarrow> ObjectItem option \<Rightarrow> ObjectItem list \<Rightarrow> field \<Rightarrow> rval \<Rightarrow> (rval \<times> string list) decoded"
where
  "decode V name node TBool v = decodeBool name node"
| "decode V name node TInt v = decodeInt V name node"
| "decode V name node TString v = decodeString V name node"
| "decode V name node (TSlice t) v = decodeSlice V name node t v"
| "decode V name node (TStruct fs) v = decodeStruct V name node fs v"
| "decodeSlice V name node t v =
     (let result = (case v of VSlice (Some vs) \<Rightarrow> vs | _ \<Rightarrow> []) in
      case slice_items node of
        None \<Rightarrow> fail_at node (''unknown slice type: '' @ node_type_name node)
      | Some items \<Rightarrow>
          and_then (fold_outcome (\<lambda>result (i, item).
              and_then (decode V (name @ ''['' @ Itoa (int i) @ '']'') (expandObject item t) t (zero_val t)) (\<lambda>val.
              Ok (result @ [val]))) (enumerate 0 items) result)
            (\<lambda>result. Ok (VSlice (Some result))))"
| "decodeStruct V name node fs v =
     (let vs = (case v of VStruct vs \<Rightarrow> vs | _ \<Rightarrow> []) in
      case struct_items node of
        (_, Inl node) \<Rightarrow> fail_at node (name @ '': not an object type for struct ('' @ node_type_name node @ '')'')
      | (item, Inr items) \<Rightarrow>
          and_then (fold_outcome (\<lambda>acc (f, v).
              and_then (decode_field V name item items f v) (\<lambda>(v, names).
              Ok (fst acc @ [v], snd acc @ names))) (zip fs vs) ([], [])) (\<lambda>(vs, decodedFields).
          and_then (fold_outcome (\<lambda>vs (f, v).
              and_then (set_decoded decodedFields f v) (\<lambda>v. Ok (vs @ [v]))) (zip fs vs) []) (\<lambda>vs.
          Ok (VStruct vs))))"
| "decode_field V name item items f v =
     (if ignored f \<or> field_option f \<in> {''decodedFields'', ''unusedKeys''} then Ok (v, [])
      else if field_option f = ''key'' then and_then (decode_key V name item items f) (\<lambda>v. Ok (v, []))
      else
        and_then (Filter V [field_key f] items) (\<lambda>sel.
        let fieldName = name @ ''.'' @ field_key f in
        if Elem sel = [] \<and> Children sel = [] then Ok (v, [])
        else
          and_then (if Children sel = [] then Ok v else decode V fieldName (ObjectList (Children sel)) (fd_Type f) v) (\<lambda>v.
          and_then (fold_outcome (\<lambda>v match. decode V fieldName (match_node match) (fd_Type f) v) (Elem sel) v) (\<lambda>v.
          Ok (v, [fd_Name f])))))"
  by pat_completeness auto
termination
  by (relation "measure (case_sum
        (case_sum (\<lambda>(_, _, _, t, _). 3 * size t) (\<lambda>(_, _, _, t, _). 3 * size t + 1))
        (case_sum (\<lambda>(_, _, _, fs, _). 3 * size_list size fs + 2) (\<lambda>(_, _, _, _, f, _). 3 * size (fd_Type f) + 1)))")
    (auto dest!: set_zip_leftD field_size)

definition DecodeObject :: "(Token \<Rightarrow> token_value option) \<Rightarrow> rtype \<Rightarrow> rval \<Rightarrow> AstFile \<Rightarrow> rval decoded" where
  "DecodeObject V t out f = decode V ''root'' (f_Node f) t out"

subsection \<open>The format of a file\<close>

datatype lexModeValue = lexModeUnknown | lexModeHcl | lexModeJson

definition unicode_IsSpace :: "int \<Rightarrow> bool" where
  "unicode_IsSpace r \<longleftrightarrow> (0x09 \<le> r \<and> r \<le> 0x0D) \<or> r \<in> {0x20, 0x85, 0xA0, 0x1680, 0x2028, 0x2029, 0x202F, 0x205F, 0x3000}
     \<or> (0x2000 \<le> r \<and> r \<le> 0x200A)"

text \<open>At the end of the source the rune is the error rune, which is not a space.\<close>

function lexMode :: "string \<Rightarrow> lexModeValue" where
  "lexMode v =
     (case DecodeRune v of (r, w) \<Rightarrow>
        if unicode_IsSpace r \<and> w \<noteq> 0 then lexMode (drop w v)
        else if r = 0x7B then lexModeJson
        else lexModeHcl)"
  by pat_completeness auto
termination
  by (relation "measure length") (auto dest: DecodeRune_bounds(3) [OF sym])

declare lexMode.simps [simp del]

text \<open>\<open>jp\<close> is the parser of the JSON form of the language.\<close>

definition hcl_parse :: "unicode \<Rightarrow> (string \<Rightarrow> AstFile decoded) \<Rightarrow> string \<Rightarrow> AstFile decoded" where
  "hcl_parse U jp input =
     (case lexMode input of
        lexModeHcl \<Rightarrow>
          (case hcl_Parse U input of
             Ok f \<Rightarrow> Ok f
           | Err e \<Rightarrow> Err (ErrorString (perror_text e))
           | Panicked p \<Rightarrow> Panicked p
           | Stop Blocked \<Rightarrow> Stop Blocked)
      | lexModeJson \<Rightarrow> jp input
      | lexModeUnknown \<Rightarrow> Err (ErrorString ''unknown config format''))"

subsection \<open>Decoding is type safe\<close>

function has_type :: "rtype \<Rightarrow> rval \<Rightarrow> bool" where
  "has_type TBool v = (\<exists>b. v = VBool b)"
| "has_type TInt v = (\<exists>i. v = VInt i \<and> - (2 ^ 63) \<le> i \<and> i < 2 ^ 63)"
| "has_type TString v = (\<exists>s. v = VString s)"
| "has_type (TSlice t) v = (v = VSlice None \<or> (\<exists>vs. v = VSlice (Some vs) \<and> list_all (has_type t) vs))"
| "has_type (TStruct fs) v = (\<exists>vs. v = VStruct vs \<and> list_all2 (\<lambda>f. has_type (fd_Type f)) fs vs)"
  by pat_completeness auto
termination
  by (relation "measure (\<lambda>(t, _). size t)") (auto intro: field_size)

lemma fold_outcome_append: "fold_outcome f (xs @ ys) b = and_then (fold_outcome f xs b) (fold_outcome f ys)"
  by (induction xs arbitrary: b) (simp_all add: and_then_def split: outcome.split)

lemma fold_outcome_induct [consumes 1, case_names start step]:
  assumes "fold_outcome f xs b = Ok c" and "I [] b"
    and "\<And>ys x zs b b'. xs = ys @ x # zs \<Longrightarrow> I ys b \<Longrightarrow> f b x = Ok b' \<Longrightarrow> I (ys @ [x]) b'"
  shows "I xs c"
proof -
  have "I (ys @ zs) c" if "xs = ys @ zs" "fold_outcome f zs d = Ok c" "I ys d" for ys zs d
    using that
  proof (induction zs arbitrary: ys d)
    case (Cons x zs)
    then obtain e where e: "f d x = Ok e" "fold_outcome f zs e = Ok c" by (auto simp: and_then_def split: outcome.splits)
    show ?case using Cons.IH [of "ys @ [x]" e] Cons.prems(1) assms(3) [OF Cons.prems(1,3) e(1)] e(2) by simp
  qed simp
  from this [of "[]" xs b] show ?thesis using assms(1,2) by simp
qed

lemma parse_base_nonneg: "0 \<le> n \<Longrightarrow> 0 < base \<Longrightarrow> 0 \<le> fst (parse_base base n s)"
  by (induction base n s rule: parse_base.induct) (auto simp: Let_def)

lemma ParseUint0_nonneg: "ParseUint0 t = (un, err) \<Longrightarrow> 0 \<le> un"
proof -
  assume u: "ParseUint0 t = (un, err)"
  have "0 \<le> fst (ParseUint0 t)"
    by (cases t) (auto simp: ParseUint0_def simp del: parse_base.simps intro: parse_base_nonneg)
  with u show ?thesis by simp
qed

lemma ParseInt_range: "ParseInt s = (v, None) \<Longrightarrow> - (2 ^ 63) \<le> v \<and> v < 2 ^ 63"
  by (auto simp: ParseInt_def Let_def dest: ParseUint0_nonneg split: if_splits prod.splits)

lemma fail_at_not_Ok [simp]: "fail_at node msg \<noteq> Ok v"
  by (simp add: fail_at_def split: option.split)

lemma and_then_Ok: "and_then r k = Ok y \<longleftrightarrow> (\<exists>x. r = Ok x \<and> k x = Ok y)"
  by (simp add: and_then_def split: outcome.split)

lemma parse_int_value_type: "parse_int_value s = Ok v \<Longrightarrow> has_type TInt v"
  by (auto simp: parse_int_value_def dest: ParseInt_range split: prod.splits option.splits)

lemma decode_basic_type:
  "decodeBool name node = Ok v \<Longrightarrow> has_type TBool v"
  "decodeInt V name node = Ok v \<Longrightarrow> has_type TInt v"
  "decodeString V name node = Ok v \<Longrightarrow> has_type TString v"
  by (auto simp: decodeBool_def decodeInt_def decodeString_def and_then_Ok simp del: has_type.simps(2)
      intro: parse_int_value_type split: Node.splits if_splits option.splits)

lemma has_zero_val: "has_type t (zero_val t)"
  by (induction t rule: zero_val.induct) (auto simp: list_all2_conv_all_nth)

lemma decode_key_type: "decode_key V name item items f = Ok v \<Longrightarrow> has_type (fd_Type f) v"
  by (auto simp: decode_key_def and_then_Ok split: option.splits list.splits if_splits)

lemma set_decoded_type: "set_decoded names f v = Ok w \<Longrightarrow> has_type (fd_Type f) v \<Longrightarrow> has_type (fd_Type f) w"
  by (auto simp: set_decoded_def list_all_iff split: if_splits)

lemma fold_fields_type:
  assumes "fold_outcome (\<lambda>vs (f, v). and_then (g f v) (\<lambda>v. Ok (vs @ [v]))) (zip fs vs) [] = Ok us"
    and "list_all2 (\<lambda>f. has_type (fd_Type f)) fs vs"
    and "\<And>f v w. g f v = Ok w \<Longrightarrow> has_type (fd_Type f) v \<Longrightarrow> has_type (fd_Type f) w"
  shows "list_all2 (\<lambda>f. has_type (fd_Type f)) fs us"
proof -
  from assms(1) have "list_all2 (\<lambda>(f, _). has_type (fd_Type f)) (zip fs vs) us"
  proof (induction rule: fold_outcome_induct)
    case (step ys x zs b b')
    obtain f w where x: "x = (f, w)" by fastforce
    have "has_type (fd_Type f) w"
      using step.hyps(1) assms(2) x by (auto simp: list_all2_iff)
    with step x assms(3) show ?case by (auto simp: and_then_Ok intro!: list_all2_appendI)
  qed simp
  then show ?thesis using assms(2) by (auto simp: list_all2_conv_all_nth)
qed

lemma decode_has_type:
  "decode V name node t v = Ok v' \<Longrightarrow> has_type t v \<Longrightarrow> has_type t v'"
  "decodeSlice V name node t v = Ok v' \<Longrightarrow> has_type (TSlice t) v \<Longrightarrow> has_type (TSlice t) v'"
  "decodeStruct V name node fs v = Ok v' \<Longrightarrow> has_type (TStruct fs) v \<Longrightarrow> has_type (TStruct fs) v'"
  "decode_field V name item items f v = Ok (v', names) \<Longrightarrow> has_type (fd_Type f) v \<Longrightarrow> has_type (fd_Type f) v'"
proof (induction V name node t v and V name node t v and V name node fs v and V name item items f v
    arbitrary: v' and v' and v' and v' names rule: decode_decodeSlice_decodeStruct_decode_field.induct)
  case (6 V name node t v)
  let ?vs = "case v of VSlice (Some vs) \<Rightarrow> vs | _ \<Rightarrow> []"
  obtain items vs where items: "slice_items node = Some items" and v': "v' = VSlice (Some vs)"
    and f: "fold_outcome (\<lambda>result (i, item).
              and_then (decode V (name @ ''['' @ Itoa (int i) @ '']'') (expandObject item t) t (zero_val t)) (\<lambda>val. Ok (result @ [val])))
            (enumerate 0 items) ?vs = Ok vs"
    using 6(2) by (auto simp: Let_def and_then_Ok split: option.splits)
  have "list_all (has_type t) vs"
    using f
  proof (induction rule: fold_outcome_induct)
    case start
    then show ?case using 6(3) by auto
  next
    case (step ys x zs b b')
    obtain i item where x: "x = (i, item)" by fastforce
    with step obtain w where w: "decode V (name @ ''['' @ Itoa (int i) @ '']'') (expandObject item t) t (zero_val t) = Ok w"
      "b' = b @ [w]" by (auto simp: and_then_Ok)
    have "x \<in> set (enumerate 0 items)" using step(1) by simp
    with 6(1) [OF refl items this x [symmetric] w(1) has_zero_val] step show ?case by (simp add: w(2))
  qed
  then show ?case by (simp add: v')
next
  case (7 V name node fs v)
  obtain vs where v: "v = VStruct vs" "list_all2 (\<lambda>f. has_type (fd_Type f)) fs vs" using 7(3) by auto
  let ?step = "\<lambda>item items acc (f, v). and_then (decode_field V name item items f v) (\<lambda>(v, names). Ok (fst acc @ [v], snd acc @ names))"
  obtain item items ws names us where items: "struct_items node = (item, Inr items)" and v': "v' = VStruct us"
    and f: "fold_outcome (?step item items) (zip fs vs) ([], []) = Ok (ws, names)"
    and g: "fold_outcome (\<lambda>vs (f, v). and_then (set_decoded names f v) (\<lambda>v. Ok (vs @ [v]))) (zip fs ws) [] = Ok us"
    using 7(2) by (auto simp: Let_def and_then_Ok v split: sum.splits prod.splits)
  from f have "list_all2 (\<lambda>(f, _). has_type (fd_Type f)) (zip fs vs) (fst (ws, names))"
  proof (induction rule: fold_outcome_induct)
    case (step ys x zs b b')
    obtain f w where x: "x = (f, w)" by fastforce
    then obtain w' ns where w': "decode_field V name item items f w = Ok (w', ns)" "fst b' = fst b @ [w']"
      using step.hyps(2) by (auto simp: and_then_Ok split: prod.splits)
    have x': "x \<in> set (zip fs vs)" and t: "has_type (fd_Type f) w"
      using step.hyps(1) v(2) x by (auto simp: list_all2_iff)
    have "has_type (fd_Type f) w'"
      using 7(1) [OF _ items [symmetric] refl _ x [symmetric] w'(1) t, of vs] x' v(1) by simp
    with step.IH show ?case by (auto simp: x w'(2) intro!: list_all2_appendI)
  qed simp
  then have "list_all2 (\<lambda>f. has_type (fd_Type f)) fs ws" using v by (auto simp: list_all2_conv_all_nth)
  from fold_fields_type [OF g this set_decoded_type] show ?case by (simp add: v')
next
  case (8 V name item items f v)
  consider (skip) "v' = v" | (key) "decode_key V name item items f = Ok v'"
    | (decode) sel w where "\<not> (ignored f \<or> field_option f \<in> {''decodedFields'', ''unusedKeys''})" "field_option f \<noteq> ''key''"
        "Filter V [field_key f] items = Ok sel" "\<not> (Elem sel = [] \<and> Children sel = [])"
        "(if Children sel = [] then Ok v else decode V (name @ ''.'' @ field_key f) (ObjectList (Children sel)) (fd_Type f) v) = Ok w"
        "fold_outcome (\<lambda>v match. decode V (name @ ''.'' @ field_key f) (match_node match) (fd_Type f) v) (Elem sel) w = Ok v'"
    using 8(3) by (auto simp: and_then_Ok Let_def split: if_splits)
  then show ?case
  proof cases
    case decode
    have t: "has_type (fd_Type f) w"
      using 8(1) [OF decode(1-3) refl decode(4)] decode(5) 8(4) by (auto split: if_splits)
    from decode(6) show ?thesis
    proof (induction rule: fold_outcome_induct)
      case (step ys m zs b b')
      then show ?case using 8(2) [OF decode(1-3) refl decode(4,5), of m] by auto
    qed (rule t)
  qed (use 8(4) decode_key_type in auto)
qed (auto dest: decode_basic_type)


definition literal :: "token_type \<Rightarrow> string \<Rightarrow> Token" where
  "literal ty s = \<lparr>tok_Type = ty, tok_Pos = no_pos, tok_Text = s, tok_JSON = False\<rparr>"


end
