(* ===== verification/ConfigLoad.thy ===== *)
theory ConfigLoad
  imports HclDecode ConfigTypes
begin

text \<open>
  Reading the configuration (\<^verbatim>\<open>loadConfig\<close> and \<^verbatim>\<open>LoadConfigFile\<close> in \<^verbatim>\<open>config/config.go\<close>): the file is
  parsed, decoded into the structure, validated, and the driver of hostapd gets its default.
\<close>

subsection \<open>The type of the configuration\<close>

text \<open>The structures with their field tags, as reflection shows them.\<close>

definition vpn_type :: rtype where
  "vpn_type = TStruct [Field ''Name'' ''name'' TString, Field ''Path'' ''path'' TString, Field ''Icon'' ''icon'' TString,
     Field ''Username'' ''username'' TString, Field ''Password'' ''password'' TString]"

definition wireless_type :: rtype where
  "wireless_type = TStruct [Field ''Interface'' ''interface'' TString, Field ''SSID'' ''SSID'' TString,
     Field ''Password'' ''password'' TString, Field ''HostapdDriver'' ''hostapd_driver'' TString]"

definition network_type :: rtype where
  "network_type = TStruct [Field ''InterfaceIdent'' ''interface_ident'' TString, Field ''Subnet'' ''subnet'' TString,
     Field ''Wireless'' ''wireless'' wireless_type]"

definition debug_type :: rtype where
  "debug_type = TStruct [Field ''DHCP'' ''dhcp'' TBool, Field ''Hostapd'' ''hostapd'' TBool]"

definition firewall_type :: rtype where
  "firewall_type = TStruct [Field ''VPNBoxBlockedPorts'' ''vpnbox_blocked_ports'' (TSlice TInt),
     Field ''BlockedSubnets'' ''blocked_subnets'' (TSlice TString)]"

definition config_type :: rtype where
  "config_type = TStruct [Field ''Name'' ''name'' TString, Field ''Listener'' ''listener'' TString,
     Field ''Network'' ''network'' network_type, Field ''Debug'' ''debug'' debug_type,
     Field ''VPNConfigurations'' ''vpn_configs'' (TSlice vpn_type), Field ''Firewall'' ''firewall'' firewall_type]"

text \<open>The structure that a value stands for.\<close>

fun bool_of :: "rval \<Rightarrow> bool" where
  "bool_of (VBool b) = b"
| "bool_of _ = False"

fun int_of :: "rval \<Rightarrow> int" where
  "int_of (VInt i) = i"
| "int_of _ = 0"

fun string_of :: "rval \<Rightarrow> string" where
  "string_of (VString s) = s"
| "string_of _ = []"

fun elems_of :: "rval \<Rightarrow> rval list" where
  "elems_of (VSlice (Some vs)) = vs"
| "elems_of _ = []"

fun field_of :: "nat \<Rightarrow> rval \<Rightarrow> rval" where
  "field_of i (VStruct vs) = (if i < length vs then vs ! i else VStruct [])"
| "field_of i _ = VStruct []"

definition vpn_of :: "rval \<Rightarrow> VPNOpt" where
  "vpn_of v = \<lparr>vpn_Name = string_of (field_of 0 v), vpn_Path = string_of (field_of 1 v), vpn_Icon = string_of (field_of 2 v),
     vpn_Username = string_of (field_of 3 v), vpn_Password = string_of (field_of 4 v)\<rparr>"

definition wireless_of :: "rval \<Rightarrow> WirelessConf" where
  "wireless_of v = \<lparr>wl_Interface = string_of (field_of 0 v), wl_SSID = string_of (field_of 1 v),
     wl_Password = string_of (field_of 2 v), wl_HostapdDriver = string_of (field_of 3 v)\<rparr>"

definition network_of :: "rval \<Rightarrow> NetworkConf" where
  "network_of v = \<lparr>nw_InterfaceIdent = string_of (field_of 0 v), nw_Subnet = string_of (field_of 1 v),
     nw_Wireless = wireless_of (field_of 2 v)\<rparr>"

definition config_of :: "rval \<Rightarrow> Config" where
  "config_of v = \<lparr>cf_Name = string_of (field_of 0 v), cf_Listener = string_of (field_of 1 v), cf_Network = network_of (field_of 2 v),
     cf_Debug = \<lparr>dbg_DHCP = bool_of (field_of 0 (field_of 3 v)), dbg_Hostapd = bool_of (field_of 1 (field_of 3 v))\<rparr>,
     cf_VPNConfigurations = map vpn_of (elems_of (field_of 4 v)),
     cf_Firewall = \<lparr>fw_VPNBoxBlockedPorts = map int_of (elems_of (field_of 0 (field_of 5 v))),
       fw_BlockedSubnets = map string_of (elems_of (field_of 1 (field_of 5 v)))\<rparr>\<rparr>"

subsection \<open>Loading\<close>

definition loadConfig :: "unicode \<Rightarrow> (Token \<Rightarrow> token_value option) \<Rightarrow> (string \<Rightarrow> AstFile decoded) \<Rightarrow> string \<Rightarrow> Config decoded" where
  "loadConfig U V jp data =
     and_then (hcl_parse U jp data) (\<lambda>astRoot.
     case f_Node astRoot of
       ObjectList _ \<Rightarrow>
         and_then (DecodeObject V config_type (zero_val config_type) astRoot) (\<lambda>v.
         let c = config_of v in
         (case validate c of
            Inl e \<Rightarrow> Err e
          | Inr _ \<Rightarrow> Ok (if wl_HostapdDriver (wireless c) = [] then set_driver ''nl80211'' c else c)))
     | _ \<Rightarrow> Err (ErrorString ''schema malformed''))"

definition of_outcome :: "('e, 'a) outcome \<Rightarrow> ('s, 'e, 'a) go" where
  "of_outcome r = (case r of Ok x \<Rightarrow> ok x | Stop e \<Rightarrow> halt e)"

definition LoadConfigFile :: "'w os \<Rightarrow> unicode \<Rightarrow> (Token \<Rightarrow> token_value option) \<Rightarrow> (string \<Rightarrow> AstFile decoded) \<Rightarrow> string \<Rightarrow> ('w, error, Config) go" where
  "LoadConfigFile K U V jp fpath =
     must (syscall (os_ReadFile K fpath)) (\<lambda>d. of_outcome (loadConfig U V jp d))"

subsection \<open>What is loaded\<close>

lemma has_type_field: "has_type (TStruct fs) v \<Longrightarrow> i < length fs \<Longrightarrow> has_type (fd_Type (fs ! i)) (field_of i v)"
  by (auto simp: list_all2_conv_all_nth)

lemma has_type_ints: "has_type (TSlice TInt) v \<Longrightarrow> p \<in> set (elems_of v) \<Longrightarrow> - (2 ^ 63) \<le> int_of p \<and> int_of p < 2 ^ 63"
  by (cases p) (fastforce simp: list_all_iff)+

lemma config_int_range:
  assumes "has_type config_type v" and "p \<in> set (fw_VPNBoxBlockedPorts (cf_Firewall (config_of v)))"
  shows "- (2 ^ 63) \<le> p \<and> p < 2 ^ 63"
proof -
  have "has_type firewall_type (field_of 5 v)"
    using has_type_field [OF assms(1) [unfolded config_type_def], of 5] by (simp del: has_type.simps)
  from has_type_field [OF this [unfolded firewall_type_def], of 0]
  have t: "has_type (TSlice TInt) (field_of 0 (field_of 5 v))" by (simp del: has_type.simps)
  obtain q where "q \<in> set (elems_of (field_of 0 (field_of 5 v)))" "p = int_of q"
    using assms(2) by (auto simp: config_of_def)
  with has_type_ints [OF t] show ?thesis by blast
qed

lemma loadConfig_Ok:
  assumes "loadConfig U V jp data = Ok c"
  obtains f v where "hcl_parse U jp data = Ok f" and "DecodeObject V config_type (zero_val config_type) f = Ok v"
    and "validate (config_of v) = Inr ()"
    and "c = (if wl_HostapdDriver (wireless (config_of v)) = [] then set_driver ''nl80211'' (config_of v) else config_of v)"
proof -
  obtain f where f: "hcl_parse U jp data = Ok f" using assms by (auto simp: loadConfig_def and_then_Ok)
  have l: "\<exists>l. f_Node f = ObjectList l"
    using assms by (cases "f_Node f") (simp_all add: loadConfig_def f)
  then obtain v where v: "DecodeObject V config_type (zero_val config_type) f = Ok v"
    using assms by (auto simp: loadConfig_def f and_then_Ok)
  show ?thesis
  proof (cases "validate (config_of v)")
    case (Inr u)
    then show ?thesis using that [OF f v] l assms by (auto simp: loadConfig_def f v Let_def)
  qed (use l assms in \<open>auto simp: loadConfig_def f v Let_def\<close>)
qed

text \<open>
  A configuration that loads names a listener, an interface and a subnet, has a
  driver for hostapd, and the ports it blocks are within 64 bits.
\<close>

lemma loadConfig_loaded:
  assumes "loadConfig U V jp data = Ok c"
  shows "validate c = Inr () \<and> wl_HostapdDriver (wireless c) \<noteq> []
    \<and> (\<forall>p \<in> set (fw_VPNBoxBlockedPorts (cf_Firewall c)). - (2 ^ 63) \<le> p \<and> p < 2 ^ 63)"
proof -
  obtain f v where v: "DecodeObject V config_type (zero_val config_type) f = Ok v" "validate (config_of v) = Inr ()"
    and c: "c = (if wl_HostapdDriver (wireless (config_of v)) = [] then set_driver ''nl80211'' (config_of v) else config_of v)"
    using assms by (rule loadConfig_Ok)
  have "has_type config_type v"
    using v(1) by (auto simp: DecodeObject_def intro: decode_has_type(1) has_zero_val)
  then have "\<forall>p \<in> set (fw_VPNBoxBlockedPorts (cf_Firewall (config_of v))). - (2 ^ 63) \<le> p \<and> p < 2 ^ 63"
    using config_int_range by blast
  then show ?thesis using v(2) by (auto simp: c validate_Inr)
qed

definition line :: "string \<Rightarrow> string" where
  "line s = s @ [CHR 0x0A]"

text \<open>
  The defects of the parser and the decoder, as the configuration shows them: an assignment with
  no value at the end of the file is dropped, and so is the error of an item in an object when
  a closing brace follows it.
\<close>

definition bad_escape :: string where
  "bad_escape = ''listener = '' @ [quote_char, CHR 0x5C] @ ''400'' @ [quote_char]"

definition key_texts :: "Node \<Rightarrow> string list list" where
  "key_texts node = (case node of ObjectList items \<Rightarrow> map (\<lambda>it. map tok_Text (Keys it)) items | _ \<Rightarrow> [])"



end
