(* ===== verification/Daemon.thy ===== *)
theory Daemon
  imports HttpServer ConfigLoad
begin

text \<open>
  The process (\<^verbatim>\<open>main\<close> in \<^verbatim>\<open>main.go\<close>): the configuration is loaded, the controller and the web server are
  started, the first VPN is set up, and signals are awaited. What the other goroutines do
  meanwhile is a sequence of events: requests to the web server, ticks of the routines of the
  controller, and panics of the DHCP and DNS servers. A panic of a handler is recovered by
  the web server; a panic of any other goroutine ends the process at once, without the deferred
  calls of \<^verbatim>\<open>main\<close>.
\<close>

datatype signal = SIGINT | SIGTERM | SIGHUP

datatype event = Signal signal | Web "tick list" "tick list" http_request | BreakerTick | StatusTick | ServerPanic gopanic

text \<open>The end of the process: its exit status, a signal with its default action, or a panic.\<close>

datatype ending = Exit nat | Killed signal | Crashed gopanic

definition recovered :: "('s, 'e, 'a) go \<Rightarrow> ('s, 'e, unit) go" where
  "recovered m = do { r \<leftarrow> m; (case r of Ok _ \<Rightarrow> ok () | Stop (Panic _) \<Rightarrow> ok () | Stop e \<Rightarrow> halt e) }"

definition unless_panic :: "('s, 'e, 'a) go \<Rightarrow> ('s, 'e, ending option) go" where
  "unless_panic m = do { r \<leftarrow> m; (case r of Ok _ \<Rightarrow> ok None | Stop (Panic p) \<Rightarrow> ok (Some (Crashed p)) | Stop e \<Rightarrow> halt e) }"

record 'w env =
  en_os :: "'w os"
  en_fmt :: "nat \<Rightarrow> string"
  en_static :: "string \<Rightarrow> http_response"

definition concurrent :: "'w env \<Rightarrow> Config \<Rightarrow> event \<Rightarrow> ('w, ending option) ctl" where
  "concurrent E cf ev =
     (case ev of
        Web down up req \<Rightarrow> must (recovered (serve_http (en_os E) (en_fmt E) (en_static E) down up cf req)) (\<lambda>_. ok None)
      | BreakerTick \<Rightarrow> unless_panic (breaker_tick (en_os E))
      | StatusTick \<Rightarrow> unless_panic (hostapdStatus_tick (en_os E))
      | ServerPanic p \<Rightarrow> ok (Some (Crashed p))
      | Signal s \<Rightarrow> ok None)"

text \<open>Until \<^verbatim>\<open>waitInterrupt\<close> is called, a signal ends the process.\<close>

fun before_wait :: "'w env \<Rightarrow> Config \<Rightarrow> event list \<Rightarrow> ('w, ending option) ctl" where
  "before_wait E cf [] = ok None"
| "before_wait E cf (ev # es) =
     (case ev of
        Signal s \<Rightarrow> ok (Some (Killed s))
      | _ \<Rightarrow> must (concurrent E cf ev) (\<lambda>r. case r of None \<Rightarrow> before_wait E cf es | Some e \<Rightarrow> ok (Some e)))"

fun wait_loop :: "'w env \<Rightarrow> Config \<Rightarrow> event list \<Rightarrow> ('w, ending) ctl" where
  "wait_loop E cf [] = halt Blocked"
| "wait_loop E cf (ev # es) =
     (case ev of
        Signal SIGHUP \<Rightarrow> wait_loop E cf es
      | Signal _ \<Rightarrow> ok (Exit 0)
      | _ \<Rightarrow> must (concurrent E cf ev) (\<lambda>r. case r of None \<Rightarrow> wait_loop E cf es | Some e \<Rightarrow> ok e))"

definition set_first :: "'w os \<Rightarrow> tick list \<Rightarrow> tick list \<Rightarrow> Config \<Rightarrow> ('w, bool) ctl" where
  "set_first K down up cf =
     (case cf_VPNConfigurations cf of
        [] \<Rightarrow> ok True
      | vpn # _ \<Rightarrow> catch (SetVPN K down up vpn) (\<lambda>_. ok True) (\<lambda>err. ok False))"

definition main_body :: "'w env \<Rightarrow> event list \<Rightarrow> tick list \<Rightarrow> tick list \<Rightarrow> event list \<Rightarrow> Config \<Rightarrow> ('w, ending) ctl" where
  "main_body E early down up events cf =
     must (before_wait E cf early) (\<lambda>r. case r of
       Some e \<Rightarrow> ok e
     | None \<Rightarrow> must (set_first (en_os E) down up cf) (\<lambda>up. if up then wait_loop E cf events else ok (Exit 0)))"

text \<open>
  The deferred \<^verbatim>\<open>ctr.Close()\<close>: its error is dropped, its panic ends the process. It runs when \<^verbatim>\<open>main\<close>
  returns or panics, not when the process is ended by another goroutine or by a signal.
\<close>

definition and_close :: "'w os \<Rightarrow> ('w, ending) ctl \<Rightarrow> ('w, ending) ctl" where
  "and_close K m = do {
     r \<leftarrow> m;
     (case r of
        Ok (Exit n) \<Rightarrow> catch (Close K) (\<lambda>_. ok (Exit n)) (\<lambda>_. ok (Exit n))
      | Panicked p \<Rightarrow> with_defer (Close K) (halt (Panic p))
      | _ \<Rightarrow> State_Monad.return r) }"

definition config_file :: "string list \<Rightarrow> string" where
  "config_file args = (case args of [] \<Rightarrow> ''config.hcl'' | a # _ \<Rightarrow> if a = [] then ''config.hcl'' else a)"

definition main :: "'w env \<Rightarrow> unicode \<Rightarrow> (Token \<Rightarrow> token_value option) \<Rightarrow> (string \<Rightarrow> AstFile decoded) \<Rightarrow> string list
    \<Rightarrow> tick list \<Rightarrow> event list \<Rightarrow> tick list \<Rightarrow> tick list \<Rightarrow> event list \<Rightarrow> ('w, error, ending) go" where
  "main E U V jp args ts early down up events =
     catch (LoadConfigFile (en_os E) U V jp (config_file args))
       (\<lambda>c. catch (NewController (en_os E) ts c)
              (\<lambda>ctr. must (run_ctl ctr (and_close (en_os E) (main_body E early down up events c))) (\<lambda>(e, _). ok e))
              (\<lambda>err. ok (Exit 0)))
       (\<lambda>err. ok (Exit 1))"

text \<open>
  A configuration that cannot be loaded ends the process with status 1, before anything was
  started; a controller that cannot be started ends it with status 0.
\<close>

lemma main_exit:
  "run_state (LoadConfigFile (en_os E) U V jp (config_file args)) w = (Err e, w') \<Longrightarrow>
     run_state (main E U V jp args ts early down up events) w = (Ok (Exit 1), w')"
  "run_state (LoadConfigFile (en_os E) U V jp (config_file args)) w = (Ok cf, w1) \<Longrightarrow>
     run_state (NewController (en_os E) ts cf) w1 = (Err e, w') \<Longrightarrow>
     run_state (main E U V jp args ts early down up events) w = (Ok (Exit 0), w')"
  by (simp_all add: main_def run_simps)

subsection \<open>Forwarding during the life of the process\<close>

definition fwd_guarded :: "('w \<Rightarrow> bool) \<Rightarrow> Controller \<times> 'w \<Rightarrow> bool" where
  "fwd_guarded fwd s \<longleftrightarrow> (fwd (snd s) \<longrightarrow> breakerTripped (fst s) \<or> vpnInterface (fst s) \<noteq> None)"

lemma keeps_recovered: "keeps I m \<Longrightarrow> keeps I (recovered m)"
  unfolding keeps_def recovered_def by (auto simp: run_simps split: prod.splits outcome.splits stop.splits)

lemma keeps_unless_panic: "keeps I m \<Longrightarrow> keeps I (unless_panic m)"
  unfolding keeps_def unless_panic_def by (auto simp: run_simps split: prod.splits outcome.splits stop.splits)


lemma keeps_and_close:
  assumes "keeps I (Close K)" and "keeps I m"
  shows "keeps I (and_close K m)"
  unfolding keeps_def
proof (intro allI impI)
  fix s assume s: "I s"
  obtain r s' where r: "run_state m s = (r, s')" by (meson surj_pair)
  from keepsD [OF assms(2) s this] have s': "I s'" .
  obtain r2 s2 where r2: "run_state (Close K) s' = (r2, s2)" by (meson surj_pair)
  from keepsD [OF assms(1) s' r2] have s2: "I s2" .
  have "snd (run_state (and_close K m) s) \<in> {s', s2}"
    by (auto simp: and_close_def run_simps r r2 split: outcome.splits stop.splits ending.splits)
  with s' s2 show "I (snd (run_state (and_close K m) s))" by auto
qed

lemma SetVPN_guarded:
  assumes "forwarding K fwd" and "routing K via"
  shows "keeps (fwd_guarded fwd) (SetVPN K down up vpn)"
  unfolding keeps_def
proof (intro allI impI)
  fix s
  obtain r c w where r: "run_state (SetVPN K down up vpn) s = (r, (c, w))" by (metis surj_pair)
  note t = SetVPN_triple [OF assms, of down up vpn]
  from r show "fwd_guarded fwd (snd (run_state (SetVPN K down up vpn) s))"
    by (cases r) (auto simp: fwd_guarded_def connected_def dest: triple_Ok [OF t TrueI] triple_Stop [OF t TrueI])
qed

lemma guarded_in_world: "(\<And>x. keeps (\<lambda>w. fwd w = x) m) \<Longrightarrow> keeps (fwd_guarded fwd) (in_world m)"
  by (rule keeps_in_world) (simp add: keeps_def fwd_guarded_def)

text \<open>
  The kernel as the process sees it: only a write to the forwarding file changes forwarding, and
  route lookups show where the traffic goes.
\<close>

locale daemon_kernel =
  fixes K :: "'w os" and fwd :: "'w \<Rightarrow> bool" and via :: "'w \<Rightarrow> int option"
  assumes fw: "forwarding K fwd" and rt: "routing K via" and quiet: "quiet_start K fwd"
    and reading: "fwd (snd (os_ReadFile K f w)) = fwd w"
begin

lemma quiet_fwd: "quiet_start K (\<lambda>w. fwd w = x)"
  using quiet by (simp add: quiet_start_def quiet_def)

lemma status_guarded: "keeps (fwd_guarded fwd) (hostapdStatus_tick K)"
  unfolding hostapdStatus_tick_def QueryStatus_def
  by (auto intro!: keeps_intro guarded_in_world Query_keeps quiet_fwd split: prod.splits simp: fwd_guarded_def)

lemma breaker_guarded: "keeps (fwd_guarded fwd) (breaker_tick K)"
proof -
  have "keeps (fwd_guarded fwd) (breaker_locked K)"
    unfolding keeps_def
  proof (intro allI impI)
    fix s assume g: "fwd_guarded fwd s"
    obtain c0 w0 where s: "s = (c0, w0)" by (cases s)
    obtain r c w where r: "run_state (breaker_locked K) (c0, w0) = (r, (c, w))" by (metis surj_pair)
    show "fwd_guarded fwd (snd (run_state (breaker_locked K) s))"
      using breaker_locked_guarded [OF fw r] g by (simp add: r s fwd_guarded_def)
  qed
  moreover have "keeps (fwd_guarded fwd) (breaker_idle K)"
    unfolding breaker_idle_def using quiet_fwd
    by (auto intro!: keeps_intro guarded_in_world keeps_syscall_total simp: fwd_guarded_def quiet_start_def quiet_def)
  ultimately show ?thesis unfolding breaker_tick_def by (intro keeps_intro)
qed

lemma serve_guarded: "keeps (fwd_guarded fwd) (serve_http K fmt static down up cf req)"
proof -
  have "keeps (fwd_guarded fwd) (handle_root K req)"
    unfolding handle_root_def by (intro keeps_intro guarded_in_world keeps_syscall) (simp add: reading)
  moreover have "keeps (fwd_guarded fwd) (handle_setVPN K down up cf req)"
    unfolding handle_setVPN_def
    by (auto intro!: keeps_intro SetVPN_guarded [OF fw rt] split: sum.splits option.splits)
  ultimately show ?thesis
    unfolding serve_http_def handle_status_def by (intro keeps_intro)
qed

lemma close_guarded: "keeps (fwd_guarded fwd) (Close K)"
proof -
  have "keeps (fwd_guarded fwd) (in_world (kill_if K pr))" for pr
    by (rule guarded_in_world) (rule kill_if_keeps [OF start_quiet [OF quiet_fwd]])
  moreover have "keeps (fwd_guarded fwd) (in_world (ipt_Delete K ipt t ch r))" for ipt t ch r
    unfolding ipt_Delete_def ipt_run_def
    by (intro guarded_in_world keeps_intro run_cmd_keeps [OF quiet_fwd])
  moreover have "keeps (fwd_guarded fwd) (in_world (DeleteNetBridge K n))" for n
    unfolding DeleteNetBridge_def by (intro guarded_in_world keeps_intro start_calls_keep [OF quiet_fwd])
  ultimately show ?thesis
    unfolding Close_def by (auto intro!: keeps_intro simp: fwd_guarded_def)
qed

lemma concurrent_guarded:
  assumes E: "en_os E = K"
  shows "keeps (fwd_guarded fwd) (concurrent E cf ev)"
  unfolding concurrent_def E
  by (auto intro!: keeps_intro keeps_recovered keeps_unless_panic serve_guarded breaker_guarded status_guarded split: event.splits)

lemma before_guarded: "en_os E = K \<Longrightarrow> keeps (fwd_guarded fwd) (before_wait E cf es)"
  by (induction es) (auto intro!: keeps_intro concurrent_guarded split: event.splits)

lemma loop_guarded: "en_os E = K \<Longrightarrow> keeps (fwd_guarded fwd) (wait_loop E cf es)"
  by (induction es) (auto intro!: keeps_intro concurrent_guarded split: event.splits signal.splits)

lemma body_guarded:
  assumes E: "en_os E = K"
  shows "keeps (fwd_guarded fwd) (main_body E early down up events cf)"
  unfolding main_body_def set_first_def E
  by (auto intro!: keeps_intro before_guarded [OF E] loop_guarded [OF E] SetVPN_guarded [OF fw rt] split: list.splits)

lemma process_guarded: "en_os E = K \<Longrightarrow> keeps (fwd_guarded fwd) (and_close K (main_body E early down up events cf))"
  by (intro keeps_and_close close_guarded body_guarded)

end


lemma sample_reading: "b_forward (snd (os_ReadFile sample_os f b)) = b_forward b"
  by (simp add: sample_os_def box_ReadFile_def split: option.split)

interpretation sample_daemon: daemon_kernel sample_os b_forward "\<lambda>b. case b_route b of [] \<Rightarrow> None | li # _ \<Rightarrow> Some li"
  by unfold_locales (simp_all add: forwarding_sample routing_sample quiet_start_sample sample_reading)


definition sample_env :: "box env" where
  "sample_env = \<lparr>en_os = sample_os, en_fmt = (\<lambda>_. []), en_static = (\<lambda>_. respond 404 (Text []))\<rparr>"



subsection \<open>A VPN that cannot be started\<close>

text \<open>
  An observation of the machine that a switch does not change before openvpn runs: neither files nor
  a command that cannot be started change it.
\<close>

definition bystander :: "'w os \<Rightarrow> ('w \<Rightarrow> 'o) \<Rightarrow> bool" where
  "bystander K obs \<longleftrightarrow> (\<forall>w.
     (\<forall>f. obs (snd (os_ReadFile K f w)) = obs w) \<and> (\<forall>f d. obs (snd (os_WriteFile K f d w)) = obs w)
   \<and> obs (snd (os_TempFile K w)) = obs w \<and> (\<forall>f d. obs (snd (os_FileWrite K f d w)) = obs w)
   \<and> (\<forall>f. obs (snd (os_FileClose K f w)) = obs w) \<and> (\<forall>f. obs (snd (os_Remove K f w)) = obs w)
   \<and> (\<forall>args e w'. os_Start K args w = (Inl e, w') \<longrightarrow> obs w' = obs w))"

lemma bystander_disable:
  assumes "bystander K obs"
  shows "keeps (\<lambda>w. obs w = x) (disable_forwarding K)"
  unfolding disable_forwarding_def IPv4ForwardingEnabled_def IPv4EnableForwarding_def
  using assms by (auto intro!: keeps_intro keeps_syscall simp: bystander_def)

lemma SetVPN_start_fails:
  assumes fw: "forwarding K fwd" and b: "bystander K obs" and none: "vpnProc c = None"
    and temp: "\<And>w. \<exists>f w'. os_TempFile K w = (Inr f, w')"
    and wr: "\<And>f d w. \<exists>w'. os_FileWrite K f d w = (Inr (), w')"
    and cl: "\<And>f w. \<exists>w'. os_FileClose K f w = (Inr (), w')"
    and start: "\<And>args w. \<exists>e w'. os_Start K (''openvpn'' # args) w = (Inl e, w')"
  shows "\<exists>e args w'. run_state (SetVPN K down up vpn) (c, w)
      = (Err e, (c\<lparr>vpnConf := Some vpn, vpnProc := Some \<lparr>cmd_Args = args, cmd_Process = None\<rparr>\<rparr>, w')) \<and> obs w' = obs w"
proof -
  obtain w1 where w1: "run_state (disable_forwarding K) w = (Ok (), w1)"
    by (rule disable_forwarding_off [OF forwarding_procfs [OF fw]])
  obtain f w2 where w2: "os_TempFile K w1 = (Inr f, w2)" using temp by blast
  obtain w3 where w3: "os_FileWrite K f (vpn_Username vpn @ newline @ vpn_Password vpn) w2 = (Inr (), w3)" using wr by blast
  obtain w4 where w4: "os_FileClose K f w3 = (Inr (), w4)" using cl by blast
  define args where "args = vpn_args (c\<lparr>vpnConf := Some vpn\<rparr>) vpn f"
  obtain e w5 where w5: "os_Start K args w4 = (Inl e, w5)" using start unfolding args_def vpn_args_def by blast
  obtain r w6 where w6: "os_Remove K f w5 = (r, w6)" by fastforce
  have "obs w1 = obs w" using keepsD [OF bystander_disable [OF b] _ w1] by simp
  moreover have "obs w2 = obs w1" "obs w3 = obs w2" "obs w4 = obs w3" "obs w5 = obs w4" "obs w6 = obs w5"
    using b w2 w3 w4 w5 w6 unfolding bystander_def by (metis snd_conv)+
  moreover have "run_state (SetVPN K down up vpn) (c, w)
      = (Err e, (c\<lparr>vpnConf := Some vpn, vpnProc := Some \<lparr>cmd_Args = args, cmd_Process = None\<rparr>\<rparr>, w6))"
    by (simp add: SetVPN_def stop_vpn_def start_vpn_def run_simps w1 none w2 w3 w4 w5 w6 flip: args_def split: sum.splits)
  ultimately show ?thesis by metis
qed

text \<open>
  C37 (vpn_failure_leaves_traces): when openvpn cannot be started for the first VPN of the
  configuration, the process means to shut down, but the deferred shutdown panics on the command
  without a process. The process crashes, and whatever a switch does not touch is as it was
  before: the bridge, the rules of the firewall and the hostapd process stay.
\<close>

theorem vpn_failure_leaves_traces:
  assumes "forwarding (en_os E) fwd" and "bystander (en_os E) obs" and "vpnProc c = None" and "\<not> ct_shutdown c"
    and "cf_VPNConfigurations cf = vpn # vpns"
    and "\<And>w. \<exists>f w'. os_TempFile (en_os E) w = (Inr f, w')"
    and "\<And>f d w. \<exists>w'. os_FileWrite (en_os E) f d w = (Inr (), w')"
    and "\<And>f w. \<exists>w'. os_FileClose (en_os E) f w = (Inr (), w')"
    and "\<And>args w. \<exists>e w'. os_Start (en_os E) (''openvpn'' # args) w = (Inl e, w')"
  shows "\<exists>c' w'. run_state (and_close (en_os E) (main_body E [] down up events cf)) (c, w) = (Panicked NilDereference, (c', w'))
     \<and> obs w' = obs w"
proof -
  from SetVPN_start_fails [OF assms(1-3,6-9)] obtain e args w' where
    s: "run_state (SetVPN (en_os E) down up vpn) (c, w)
      = (Err e, (c\<lparr>vpnConf := Some vpn, vpnProc := Some \<lparr>cmd_Args = args, cmd_Process = None\<rparr>\<rparr>, w'))" and "obs w' = obs w" by blast
  then show ?thesis
    using assms(4) by (simp add: and_close_def main_body_def set_first_def run_simps assms(5) Close_def kill_if_def kill_proc_def)
qed

definition no_openvpn :: "box env" where
  "no_openvpn = sample_env\<lparr>en_os := sample_os\<lparr>os_Start := (\<lambda>args b.
     case args of [] \<Rightarrow> (Inl (ErrorString ''no command''), b)
     | prog # _ \<Rightarrow> if prog = ''openvpn'' then (Inl (ErrorString ''not found''), b) else os_Start sample_os args b)\<rparr>\<rparr>"

lemma no_openvpn_kernel:
  "forwarding (en_os no_openvpn) b_forward" "bystander (en_os no_openvpn) (\<lambda>b. (b_ifs b, b_rules b, b_alive b))"
proof -
  show "forwarding (en_os no_openvpn) b_forward"
    using forwarding_sample by (auto simp: forwarding_def procfs_def quiet_def no_openvpn_def split: list.splits)
  show "bystander (en_os no_openvpn) (\<lambda>b. (b_ifs b, b_rules b, b_alive b))"
    by (auto simp: bystander_def no_openvpn_def sample_os_def box_ReadFile_def box_WriteFile_def box_Start_def split: list.splits option.splits if_splits)
qed

theorem vpn_failure_leaves_traces_witness:
  "\<exists>c' b'. run_state (and_close (en_os no_openvpn) (main_body no_openvpn [] [] [] [] sample_config)) (closing_ctl, closing_box)
       = (Panicked NilDereference, (c', b'))
     \<and> b_ifs b' = [(''brvpn'', 20, [])] \<and> b_rules b' ''nat'' ''POSTROUTING'' = Some [masquerade_rule closing_ctl]"
proof -
  have c: "vpnProc closing_ctl = None" "\<not> ct_shutdown closing_ctl"
    by (simp_all add: closing_ctl_def sample_ctl_def new_controller_def)
  have cf: "cf_VPNConfigurations sample_config = [sample_vpn]" by (simp add: sample_config_def sample_vpn_def)
  from vpn_failure_leaves_traces [OF no_openvpn_kernel c cf, of "[]" "[]" "[]" closing_box]
  show ?thesis by (auto simp: no_openvpn_def sample_os_def closing_box_def)
qed

end
