(* ===== verification/Spec2Isabelle.thy ===== *)
theory Spec2Isabelle
  imports BridgeDns Daemon
begin

text \<open>
  \<^bold>\<open>A router that keeps its clients behind a VPN.\<close> The program (\<^verbatim>\<open>main.go\<close> and the packages \<^verbatim>\<open>config\<close> and
  \<^verbatim>\<open>netctrl\<close>) reads a configuration, creates a bridge with a wireless access point, serves DHCP and
  DNS on it, starts openvpn, and forwards the traffic of the clients only while it goes through
  the VPN. A web interface shows the state and switches between VPNs. This development models
  these parts and the libraries that carry them, and proves what they promise.

  \<^bold>\<open>The theories.\<close> Each opens with a text on what it holds.
  \<^item> \<^verbatim>\<open>Prelude\<close>: lemmas on lists, strings, words and maps that the components share.
  \<^item> \<^verbatim>\<open>GoMonad\<close>: a Go function with side effects is a state transformer that ends with a value, an
    error, a panic, or not at all; \<^verbatim>\<open>must\<close> and \<^verbatim>\<open>catch\<close> are the treatments of an error, \<^verbatim>\<open>with_defer\<close> the
    deferred call, \<^verbatim>\<open>triple\<close> the Hoare logic with one postcondition for each kind of end.
  \<^item> \<^verbatim>\<open>GoStd\<close>, \<^verbatim>\<open>GoNet\<close>, \<^verbatim>\<open>Utf8\<close>: what the code uses of the standard library (splitting and trimming
    strings, numbers, addresses, runes), with round trips.
  \<^item> \<^verbatim>\<open>Os\<close>: the operations of the kernel and of other processes as a record of functions on a world of
    any type; \<^verbatim>\<open>SampleBox\<close> is a small machine on which witnesses run.
  \<^item> \<^verbatim>\<open>Dhcp4\<close>, \<^verbatim>\<open>DhcpServer\<close>, \<^verbatim>\<open>BridgeDhcp\<close>: the packet library \<^verbatim>\<open>krolaw/dhcp4\<close>, its server loop, and the handler
    \<^verbatim>\<open>ServeDHCP\<close> of \<^verbatim>\<open>netctrl/bridgeServices.go\<close>. Packets are byte lists; a read out of range is None. The
    handler is an interface (locale \<^verbatim>\<open>dhcp_handler\<close>) that the loop is proved against.
  \<^item> \<^verbatim>\<open>DnsName\<close>, \<^verbatim>\<open>DnsData\<close>, \<^verbatim>\<open>DnsRecords\<close>, \<^verbatim>\<open>DnsTypes\<close>, \<^verbatim>\<open>DnsMsg\<close>: the wire format of \<^verbatim>\<open>miekg/dns\<close>: names with
    compression; the kinds of fields; resource records as lists of tagged fields, with the code that
    the library generates from the tags as an interpreter of such lists; the seventy record types;
    whole messages. Reading and writing a buffer outside of it is None.
  \<^item> \<^verbatim>\<open>BridgeDns\<close>: \<^verbatim>\<open>ServeDNS\<close> of \<^verbatim>\<open>netctrl/bridgeServices.go\<close> on these messages.
  \<^item> \<^verbatim>\<open>Iptables\<close>: \<^verbatim>\<open>coreos/go-iptables\<close> with its lock file.
  \<^item> \<^verbatim>\<open>Hostapd\<close>: the configuration file and the control socket of hostapd (\<^verbatim>\<open>netctrl/hostapd\<close>).
  \<^item> \<^verbatim>\<open>NetUtil\<close>, \<^verbatim>\<open>Controller\<close>, \<^verbatim>\<open>Breaker\<close>, \<^verbatim>\<open>Lifecycle\<close>: \<^verbatim>\<open>netctrl/netutil.go\<close>, \<^verbatim>\<open>netctrl/main.go\<close> and \<^verbatim>\<open>netctrl/state.go\<close>.
    \<^verbatim>\<open>Controller\<close> has \<^verbatim>\<open>SetVPN\<close>; \<^verbatim>\<open>Breaker\<close> has the circuit breaker and its interleavings with \<^verbatim>\<open>SetVPN\<close> as a
    step relation; \<^verbatim>\<open>Lifecycle\<close> has start, firewall, shutdown and the reported state.
  \<^item> \<^verbatim>\<open>HttpServer\<close>: the routes of \<^verbatim>\<open>makeServer\<close> in \<^verbatim>\<open>main.go\<close>.
  \<^item> \<^verbatim>\<open>HclToken\<close>, \<^verbatim>\<open>HclScanner\<close>, \<^verbatim>\<open>HclParser\<close>, \<^verbatim>\<open>HclDecode\<close>: the configuration language, \<^verbatim>\<open>hashicorp/hcl\<close>: quoting,
    tokens and positions; the scanner on its buffer; the recursive descent with its comments; the
    decoder, on types and values that are data as they are for reflection.
  \<^item> \<^verbatim>\<open>ConfigTypes\<close>, \<^verbatim>\<open>ConfigLoad\<close>: \<^verbatim>\<open>config/config.go\<close>.
  \<^item> \<^verbatim>\<open>Daemon\<close>: the function \<^verbatim>\<open>main\<close>: loading, start, the first VPN, signals, and the deferred shutdown, with
    requests, ticks of the breaker and panics of other goroutines as a list of events.

  \<^bold>\<open>What is proved.\<close> Of the controller: \<^verbatim>\<open>SetVPN\<close> leaves forwarding on only with the traffic on the new
  VPN, the breaker turns it off when the route leaves it, no interleaving forwards outside a
  watched VPN, and \<^verbatim>\<open>SetVPN\<close> returns; and the ways in which this fails: the breaker is never armed
  again, and two races and a failed start crash the daemon. Of DHCP: addresses are distinct, the
  exchange works, replies answer requests, packets are read back as they were built. Of the firewall:
  rules are appended once, in order, as the specification on rule tables says. Of DNS: the reply
  answers the request, and what an outage looks like to a client; no bytes from the network make
  unpacking panic or run on, names stay within their limits, and a name that was read is written
  and read back. Of the web interface: no
  request breaks the guarantee of \<^verbatim>\<open>SetVPN\<close>, and no secret is reported. Of the process: the guarantee
  on forwarding holds during its whole life, and a missing openvpn leaves traces. Of the configuration
  language: the scanner ends on every input and its tokens tile the source, the parser ends on
  every input with a tree or an error, quoting and unquoting are inverse, decoded values have
  their types; and the files that crash the decoder or are accepted although incomplete.

  \<^bold>\<open>Bounds and fuel.\<close> A loop that waits consumes a list of ticks, as long as one likes: no bound is
  built in, and running out of ticks is the end \<^verbatim>\<open>Blocked\<close>. The parser has fuel, four units for each
  byte of the source and four more; that this is always enough is proved with the parser. Machine
  integers are words where they wrap (DHCP addresses, DNS fields) and integers with their range
  where the code checks it (\<^verbatim>\<open>ParseInt\<close>).

  \<^bold>\<open>Parameters.\<close> Code that is not in the repository is a parameter: the kernel, the iptables and openvpn
  binaries and hostapd (the record of \<^verbatim>\<open>Os\<close>, with the laws as named hypotheses), the tables of
  package \<^verbatim>\<open>unicode\<close>, the parsing of floats, JSON decoding of the answers of the resolver.

  \<^bold>\<open>Not modelled.\<close> The JSON form of the configuration language (\<^verbatim>\<open>hcl/json\<close>) is a parameter of \<^verbatim>\<open>loadConfig\<close>; the
  decoder has the kinds that the configuration has, so floats, maps, pointers, interfaces and
  embedded structures are left out; the printer of the language is not called. The netlink library
  and \<^verbatim>\<open>golang.org/x\<close> are the kernel's side of the calls in \<^verbatim>\<open>Os\<close>. Of \<^verbatim>\<open>miekg/dns\<close> the server loop, the client, zone
  files, signatures and the text form of records are left out. The static files of the web
  interface and log output are not modelled.
\<close>

end
